(* ===== verification/OmfPrelude.thy ===== *)
theory OmfPrelude
  imports Main "HOL-Library.Word"
begin

text \<open>
  Shared vocabulary of the development: the machine integers of the LINUX build of the
  program (LP64), C strings as byte lists, the error values of the library calls, the
  parameter that stands for \<^verbatim>\<open>malloc\<close>, little-endian encodings, and the generic lemmas on
  words and lists that the components share.
\<close>

unbundle bit_operations_syntax

section \<open>Machine integers\<close>

type_synonym u8 = "8 word"    \<comment> \<open>unsigned char, uint8_t\<close>
type_synonym u16 = "16 word"  \<comment> \<open>unsigned short, uint16_t\<close>
type_synonym u32 = "32 word"  \<comment> \<open>unsigned int, uint32_t\<close>
type_synonym u64 = "64 word"  \<comment> \<open>unsigned long on the LINUX build\<close>

text \<open>Word equations that the component proofs rewrite with.\<close>

named_theorems word_conv

lemma unat_add_fits:
  fixes w k v :: "'a::len word"
  assumes "unat w + unat k \<le> unat v"
  shows "unat (w + k) = unat w + unat k"
proof -
  have "unat v < 2 ^ LENGTH('a)" by simp
  then have "unat w + unat k < 2 ^ LENGTH('a)"
    using assms by linarith
  then show ?thesis
    by (simp add: unat_word_ariths)
qed

lemma unat_of_nat_fits:
  fixes v :: "'a::len word"
  assumes "n \<le> unat v"
  shows "unat (of_nat n :: 'a word) = n"
proof -
  have "unat v < 2 ^ LENGTH('a)" by simp
  then have "n < 2 ^ LENGTH('a)"
    using assms by linarith
  then show ?thesis by (simp add: unat_of_nat)
qed

lemma unat_add_of_nat_fits:
  fixes w v :: "'a::len word"
  assumes "unat w + n \<le> unat v"
  shows "unat (w + of_nat n) = unat w + n"
  using assms unat_add_fits [of w "of_nat n" v] unat_of_nat_fits [of n v] by simp

text \<open>The bit masks of the source as bit operations with a simple bit-level reading.\<close>

lemma and_7F [word_conv]: "w AND 0x7F = take_bit 7 (w :: 'a::len word)"
  by (simp add: take_bit_eq_mask mask_eq_exp_minus_1)

lemma and_FF [word_conv]: "w AND 0xFF = take_bit 8 (w :: 'a::len word)"
  by (simp add: take_bit_eq_mask mask_eq_exp_minus_1)

lemma and_80 [word_conv]: "w AND 0x80 = 0 \<longleftrightarrow> \<not> bit (w :: 'a::len word) 7"
  using and_exp_eq_0_iff_not_bit [of w 7] by simp

lemma bit_80 [word_conv]: "bit (0x80 :: 'a::len word) n \<longleftrightarrow> n = 7 \<and> 7 < LENGTH('a)"
proof -
  have "(0x80 :: 'a word) = 2 ^ 7" by simp
  then show ?thesis by (simp only: bit_exp_iff possible_bit_def) (auto simp: possible_bit_word)
qed

lemma bit_80_int [word_conv]: "bit (0x80 :: int) n \<longleftrightarrow> n = 7"
  using bit_exp_iff [where ?'a = int, of 7 n] by (simp add: eq_commute)

lemma word_less_pow_bit:
  fixes c :: "'a::len word"
  assumes "c < 2 ^ n" and "n \<le> m"
  shows "\<not> bit c m"
proof -
  have "take_bit n c = c"
    using less_mask_eq [OF assms(1)] by (simp add: take_bit_eq_mask)
  then have "bit c m = bit (take_bit n c) m" by simp
  with assms(2) show ?thesis by (simp add: bit_simps)
qed

lemma unat_ucast_up:
  assumes "LENGTH('a::len) \<le> LENGTH('b::len)"
  shows "unat (ucast (x :: 'a word) :: 'b word) = unat x"
proof -
  have "unat x < 2 ^ LENGTH('a)" by simp
  also have "(2 :: nat) ^ LENGTH('a) \<le> 2 ^ LENGTH('b)"
    using assms by (intro power_increasing) auto
  finally show ?thesis
    by (simp add: unsigned_ucast_eq take_bit_nat_eq_self)
qed

lemma unat_ucast_8 [simp]:
  "unat (ucast (x :: u8) :: u16) = unat x" "unat (ucast (x :: u8) :: u32) = unat x"
  "unat (ucast (x :: u8) :: u64) = unat x"
  by (simp_all add: unat_ucast_up)

lemma unat_ucast_16 [simp]:
  "unat (ucast (x :: u16) :: u32) = unat x" "unat (ucast (x :: u16) :: u64) = unat x"
  by (simp_all add: unat_ucast_up)

lemma unat_ucast_32 [simp]: "unat (ucast (x :: u32) :: u64) = unat x"
  by (simp_all add: unat_ucast_up)

section \<open>Little-endian encodings\<close>

definition le16 :: "u8 \<Rightarrow> u8 \<Rightarrow> u16" where
  "le16 lo hi = ucast lo OR push_bit 8 (ucast hi)"

definition le32 :: "u8 \<Rightarrow> u8 \<Rightarrow> u8 \<Rightarrow> u8 \<Rightarrow> u32" where
  "le32 b0 b1 b2 b3 =
     ucast b0 OR push_bit 8 (ucast b1) OR push_bit 16 (ucast b2) OR push_bit 24 (ucast b3)"

definition bytes16 :: "u16 \<Rightarrow> u8 list" where
  "bytes16 w = [ucast w, ucast (drop_bit 8 w)]"

definition bytes32 :: "u32 \<Rightarrow> u8 list" where
  "bytes32 w = [ucast w, ucast (drop_bit 8 w), ucast (drop_bit 16 w), ucast (drop_bit 24 w)]"

lemma length_bytes16 [simp]: "length (bytes16 w) = 2"
  by (simp add: bytes16_def)

lemma length_bytes32 [simp]: "length (bytes32 w) = 4"
  by (simp add: bytes32_def)

lemma le16_bytes16 [simp]: "le16 (ucast w) (ucast (drop_bit 8 w)) = w"
  by (rule bit_word_eqI) (auto simp: le16_def bit_simps)

lemma le32_bytes32 [simp]:
  "le32 (ucast w) (ucast (drop_bit 8 w)) (ucast (drop_bit 16 w)) (ucast (drop_bit 24 w)) = w"
proof (rule bit_word_eqI)
  fix n assume "n < LENGTH(32)"
  then consider "n < 8" | "8 \<le> n" "n < 16" | "16 \<le> n" "n < 24" | "24 \<le> n" "n < 32"
    by fastforce
  then show "bit (le32 (ucast w) (ucast (drop_bit 8 w)) (ucast (drop_bit 16 w))
      (ucast (drop_bit 24 w))) n = bit w n"
    by cases (auto simp: le32_def bit_simps)
qed

lemma le16_lo [simp]: "(ucast (le16 lo hi) :: u8) = lo"
  by (rule bit_word_eqI) (auto simp: le16_def bit_simps)

lemma le16_hi [simp]: "(ucast (drop_bit 8 (le16 lo hi)) :: u8) = hi"
  by (rule bit_word_eqI) (auto simp: le16_def bit_simps dest: bit_imp_le_length)

lemma ucast_8_32 [simp]: "(ucast (ucast x :: u32) :: u8) = (x :: u8)"
  by (rule bit_word_eqI) (auto simp: bit_simps dest: bit_imp_le_length)

lemma ucast_16_32 [simp]: "(ucast (ucast x :: u32) :: u16) = (x :: u16)"
  by (rule bit_word_eqI) (auto simp: bit_simps dest: bit_imp_le_length)

lemma ucast_32_64 [simp]: "(ucast (ucast x :: u64) :: u32) = (x :: u32)"
  by (rule bit_word_eqI) (auto simp: bit_simps dest: bit_imp_le_length)

lemma ucast_16_64 [simp]: "(ucast (ucast x :: u64) :: u16) = (x :: u16)"
  by (rule bit_word_eqI) (auto simp: bit_simps dest: bit_imp_le_length)

section \<open>C strings\<close>

text \<open>
  A name is kept as the bytes before its terminating NUL: every reader of a name in the
  program (\<^verbatim>\<open>strcmp\<close>, \<^verbatim>\<open>strdup\<close>, the test of the first byte, the dumps) stops there.
\<close>

type_synonym cstr = "u8 list"

definition bytes_of :: "string \<Rightarrow> u8 list" where
  "bytes_of s = map of_char s"

definition c_string :: "u8 list \<Rightarrow> cstr" where
  "c_string bs = takeWhile (\<lambda>b. b \<noteq> 0) bs"

lemma c_string_id: "0 \<notin> set bs \<Longrightarrow> c_string bs = bs"
  by (auto simp: c_string_def takeWhile_eq_all_conv)

lemma c_string_no_nul: "0 \<notin> set (c_string bs)"
  by (auto simp: c_string_def dest: set_takeWhileD)

lemma length_c_string: "length (c_string bs) \<le> length bs"
  by (simp add: c_string_def length_takeWhile_le)

text \<open>\<^verbatim>\<open>strcasecmp\<close> equal to 0.\<close>

definition to_lower :: "u8 \<Rightarrow> u8" where
  "to_lower c = (if 65 \<le> c \<and> c \<le> 90 then c + 32 else c)"

definition same_nocase :: "cstr \<Rightarrow> cstr \<Rightarrow> bool" where
  "same_nocase a b \<longleftrightarrow> map to_lower a = map to_lower b"

section \<open>Errors and memory\<close>

text \<open>
  The values a call leaves in \<^verbatim>\<open>errno\<close> when it returns \<^verbatim>\<open>-1\<close> or \<^verbatim>\<open>NULL\<close>; \<open>EPLAIN\<close> is a
  failing return that leaves \<^verbatim>\<open>errno\<close> as it was, and \<open>UNDEF\<close> marks a read of memory that
  was never written, whose value C leaves undefined.
\<close>

datatype c_error = EINVAL | ERANGE | ENOSPC | EIO | EFAULT | ENOMEM | EPLAIN | UNDEF

text \<open>
  The outcome of \<^verbatim>\<open>malloc\<close> is a parameter of the model: for each request it gives the bytes
  of the new block, or \<open>None\<close> for a \<^verbatim>\<open>NULL\<close> return. The request names the array the code
  asks for and its number of elements, so that no structure size is fixed.
\<close>

datatype malloc_req =
    Req_bytes nat
  | Req_lnames nat
  | Req_segdefs nat
  | Req_extdefs nat
  | Req_pubdefs nat
  | Req_grpdefs nat
  | Req_grp_segdefs nat
  | Req_fixupps nat
  | Req_exe_relocations nat
  | Req_link_symbols nat
  | Req_fragments nat

type_synonym allocator = "malloc_req \<Rightarrow> u8 list option"

text \<open>What the code relies on: a block asked for \<open>n\<close> bytes has \<open>n\<close> bytes.\<close>

definition malloc_ok :: "allocator \<Rightarrow> bool" where
  "malloc_ok mal \<longleftrightarrow> (\<forall>n d. mal (Req_bytes n) = Some d \<longrightarrow> length d = n)"

definition malloc_never_fails :: "allocator \<Rightarrow> bool" where
  "malloc_never_fails mal \<longleftrightarrow> malloc_ok mal \<and> (\<forall>r. mal r \<noteq> None)"

text \<open>A concrete allocator, for evaluation: zeroed blocks, never a failure.\<close>

fun zero_malloc :: allocator where
  "zero_malloc (Req_bytes n) = Some (replicate n 0)"
| "zero_malloc r = Some []"

lemma malloc_ok_zero_malloc [simp]: "malloc_ok zero_malloc"
  by (simp add: malloc_ok_def)

lemma malloc_never_fails_zero_malloc [simp]: "malloc_never_fails zero_malloc"
  unfolding malloc_never_fails_def
proof (intro conjI allI)
  fix r show "zero_malloc r \<noteq> None" by (cases r) simp_all
qed simp

text \<open>
  \<^verbatim>\<open>cstr_set_n\<close> of \<^verbatim>\<open>omfcstr.c\<close>: the old string is freed first, so that a failing call leaves
  the pointer NULL. The result is the new value of the pointer.
\<close>

definition cstr_free :: "cstr option \<Rightarrow> cstr option" where
  "cstr_free p = None"

definition cstr_set_n :: "allocator \<Rightarrow> cstr option \<Rightarrow> u8 list \<Rightarrow> (c_error + unit) \<times> cstr option" where
  "cstr_set_n mal p str =
     (let p = cstr_free p in
      case mal (Req_bytes (length str + 1)) of
        None \<Rightarrow> (Inl ENOMEM, p)
      | Some x \<Rightarrow> (Inr (), Some (c_string str)))"

lemma cstr_set_n_never_fails:
  "malloc_never_fails mal \<Longrightarrow> cstr_set_n mal p str = (Inr (), Some (c_string str))"
  by (auto simp: cstr_set_n_def malloc_never_fails_def Let_def split: option.splits)

section \<open>Lists\<close>

lemma take_Suc_nth_drop: "i < length xs \<Longrightarrow> drop i xs = xs ! i # drop (Suc i) xs"
  by (simp add: Cons_nth_drop_Suc)

lemma length_Cons_cases:
  "xs = [] \<or> (\<exists>a. xs = [a]) \<or> (\<exists>a b cs. xs = a # b # cs)"
  by (cases xs rule: remdups_adj.cases) auto

end
