(* ===== verification/OmfRecord.thy ===== *)
theory OmfRecord
  imports OmfPrelude
begin

text \<open>
  The OMF record buffer of \<^verbatim>\<open>fmt/omf/omfrec.c\<close> and \<^verbatim>\<open>fmt/omf/omfrecw.c\<close>: its state, the
  operations that read and write at the current position, the index encoding and the
  checksum. The abstract view of a record being read is \<open>remaining\<close>, the list of its
  unread bytes, and that of a record being written is \<open>written\<close>; every operation is shown
  to be a list operation on these views, and to keep the well-formedness \<open>wf_record\<close> under
  which no access leaves the buffer.
\<close>

section \<open>State\<close>

record omf_record_t =
  rectype :: u8
  reclen :: u16
  recpos :: u16
  data :: "u8 list option"       \<comment> \<open>\<open>None\<close> is NULL; the block has \<open>data_alloc\<close> bytes\<close>
  data_alloc :: nat
  rec_file_offset :: u64

definition omf_record_is_modend :: "omf_record_t \<Rightarrow> bool" where
  "omf_record_is_modend rec \<longleftrightarrow> rectype rec AND 0xFE = 0x8A"

text \<open>\<^verbatim>\<open>omf_record_init\<close> leaves \<^verbatim>\<open>recpos\<close> as it was.\<close>

definition omf_record_init :: "omf_record_t \<Rightarrow> omf_record_t" where
  "omf_record_init rec = rec\<lparr>rectype := 0, reclen := 0, data := None,
     data_alloc := 4096, rec_file_offset := - 1\<rparr>"

definition omf_record_data_free :: "omf_record_t \<Rightarrow> omf_record_t" where
  "omf_record_data_free rec = rec\<lparr>data := None, reclen := 0, rectype := 0\<rparr>"

definition omf_record_data_alloc ::
    "allocator \<Rightarrow> omf_record_t \<Rightarrow> nat \<Rightarrow> (c_error + unit) \<times> omf_record_t" where
  "omf_record_data_alloc mal rec sz =
     (if sz > 0xFF00 then (Inl ERANGE, rec)
      else if data rec \<noteq> None then
        (if sz = 0 \<or> sz = data_alloc rec then (Inr (), rec) else (Inl EINVAL, rec))
      else
        let sz = (if sz = 0 then 4096 else sz) in
        (case mal (Req_bytes sz) of
           None \<Rightarrow> (Inl ENOMEM, rec)
         | Some d \<Rightarrow> (Inr (), rec\<lparr>data := Some d, data_alloc := sz, reclen := 0, recpos := 0\<rparr>)))"

definition omf_record_clear :: "omf_record_t \<Rightarrow> omf_record_t" where
  "omf_record_clear rec = rec\<lparr>recpos := 0, reclen := 0\<rparr>"

definition omf_record_lseek :: "omf_record_t \<Rightarrow> u16 \<Rightarrow> u16 \<times> omf_record_t" where
  "omf_record_lseek rec pos =
     (let p = (if data rec = None then 0 else if pos > reclen rec then reclen rec else pos)
      in (p, rec\<lparr>recpos := p\<rparr>))"

definition omf_record_can_write :: "omf_record_t \<Rightarrow> nat" where
  "omf_record_can_write rec =
     (if data rec = None then 0
      else if unat (recpos rec) \<ge> data_alloc rec then 0
      else data_alloc rec - unat (recpos rec))"

definition omf_record_data_available :: "omf_record_t \<Rightarrow> nat" where
  "omf_record_data_available rec =
     (if data rec = None then 0
      else if recpos rec \<ge> reclen rec then 0
      else unat (reclen rec) - unat (recpos rec))"

definition omf_record_eof :: "omf_record_t \<Rightarrow> bool" where
  "omf_record_eof rec \<longleftrightarrow> omf_record_data_available rec = 0"

definition omf_record_free :: "omf_record_t \<Rightarrow> omf_record_t" where
  "omf_record_free rec = omf_record_data_free rec"

section \<open>Reading\<close>

text \<open>The byte at an offset from the read position; the callers below test the bounds.\<close>

definition data_at :: "omf_record_t \<Rightarrow> nat \<Rightarrow> u8" where
  "data_at rec k = the (data rec) ! (unat (recpos rec) + k)"

definition omf_record_get_byte_fast :: "omf_record_t \<Rightarrow> u8 \<times> omf_record_t" where
  "omf_record_get_byte_fast rec = (data_at rec 0, rec\<lparr>recpos := recpos rec + 1\<rparr>)"

definition omf_record_get_byte :: "omf_record_t \<Rightarrow> u8 \<times> omf_record_t" where
  "omf_record_get_byte rec =
     (if data rec = None then (0xFF, rec)
      else if unat (recpos rec) + 1 > unat (reclen rec) then (0xFF, rec)
      else omf_record_get_byte_fast rec)"

definition omf_record_get_word_fast :: "omf_record_t \<Rightarrow> u16 \<times> omf_record_t" where
  "omf_record_get_word_fast rec =
     (le16 (data_at rec 0) (data_at rec 1), rec\<lparr>recpos := recpos rec + 2\<rparr>)"

definition omf_record_get_word :: "omf_record_t \<Rightarrow> u16 \<times> omf_record_t" where
  "omf_record_get_word rec =
     (if data rec = None then (0xFFFF, rec)
      else if unat (recpos rec) + 2 > unat (reclen rec) then (0xFFFF, rec)
      else omf_record_get_word_fast rec)"

definition omf_record_get_dword_fast :: "omf_record_t \<Rightarrow> u64 \<times> omf_record_t" where
  "omf_record_get_dword_fast rec =
     (ucast (le32 (data_at rec 0) (data_at rec 1) (data_at rec 2) (data_at rec 3)),
      rec\<lparr>recpos := recpos rec + 4\<rparr>)"

text \<open>Past the end of the record the dword reader returns \<open>0xFFFF\<close>, as the word reader does.\<close>

definition omf_record_get_dword :: "omf_record_t \<Rightarrow> u64 \<times> omf_record_t" where
  "omf_record_get_dword rec =
     (if data rec = None then (0xFFFF, rec)
      else if unat (recpos rec) + 4 > unat (reclen rec) then (0xFFFF, rec)
      else omf_record_get_dword_fast rec)"

definition omf_record_get_index :: "omf_record_t \<Rightarrow> u32 \<times> omf_record_t" where
  "omf_record_get_index rec =
     (if omf_record_eof rec then (0, rec)
      else
        let (b, rec) = omf_record_get_byte_fast rec; t = (ucast b :: u32) in
        if t AND 0x80 \<noteq> 0 then
          let t = push_bit 8 (t AND 0x7F) in
          if omf_record_eof rec then (0, rec)
          else let (b, rec) = omf_record_get_byte_fast rec in (t + ucast b, rec)
        else (t, rec))"

text \<open>\<^verbatim>\<open>omf_record_read_data\<close> returns the bytes it copied; their number is the C return value.\<close>

definition omf_record_read_data :: "nat \<Rightarrow> omf_record_t \<Rightarrow> u8 list \<times> omf_record_t" where
  "omf_record_read_data len rec =
     (let avail = omf_record_data_available rec; len = (if len > avail then avail else len) in
      if len \<noteq> 0 then
        (take len (drop (unat (recpos rec)) (the (data rec))),
         rec\<lparr>recpos := recpos rec + of_nat len\<rparr>)
      else ([], rec))"

definition omf_record_get_lenstr ::
    "nat \<Rightarrow> omf_record_t \<Rightarrow> (c_error + u8 list) \<times> omf_record_t" where
  "omf_record_get_lenstr dstmax rec =
     (let (len, rec) = omf_record_get_byte rec in
      if unat len + 1 > dstmax then (Inl ENOSPC, rec)
      else
        let (bs, rec) = omf_record_read_data (unat len) rec in
        if length bs < unat len then (Inl EIO, rec)
        else (Inr bs, rec))"

section \<open>Writing\<close>

definition omf_record_write_byte_fast :: "omf_record_t \<Rightarrow> u8 \<Rightarrow> omf_record_t" where
  "omf_record_write_byte_fast rec c =
     rec\<lparr>data := map_option (\<lambda>d. d[unat (recpos rec) := c]) (data rec),
         recpos := recpos rec + 1\<rparr>"

definition omf_record_write_byte :: "omf_record_t \<Rightarrow> u8 \<Rightarrow> (c_error + unit) \<times> omf_record_t" where
  "omf_record_write_byte rec c =
     (if data rec = None then (Inl EPLAIN, rec)
      else if unat (recpos rec) + 1 + 1 > data_alloc rec then (Inl EPLAIN, rec)
      else (Inr (), omf_record_write_byte_fast rec c))"

definition omf_record_write_word_fast :: "omf_record_t \<Rightarrow> u16 \<Rightarrow> omf_record_t" where
  "omf_record_write_word_fast rec c =
     rec\<lparr>data := map_option (\<lambda>d. d[unat (recpos rec) := ucast c,
                                   unat (recpos rec) + 1 := ucast (drop_bit 8 c)]) (data rec),
         recpos := recpos rec + 2\<rparr>"

definition omf_record_write_word :: "omf_record_t \<Rightarrow> u16 \<Rightarrow> (c_error + unit) \<times> omf_record_t" where
  "omf_record_write_word rec c =
     (if data rec = None then (Inl EPLAIN, rec)
      else if unat (recpos rec) + 1 + 2 > data_alloc rec then (Inl EPLAIN, rec)
      else (Inr (), omf_record_write_word_fast rec c))"

definition omf_record_write_dword_fast :: "omf_record_t \<Rightarrow> u64 \<Rightarrow> omf_record_t" where
  "omf_record_write_dword_fast rec c =
     (let p = unat (recpos rec); w = (ucast c :: u32) in
      rec\<lparr>data := map_option (\<lambda>d. d[p := ucast w, p + 1 := ucast (drop_bit 8 w),
            p + 2 := ucast (drop_bit 16 w), p + 3 := ucast (drop_bit 24 w)]) (data rec),
          recpos := recpos rec + 4\<rparr>)"

definition omf_record_write_dword :: "omf_record_t \<Rightarrow> u64 \<Rightarrow> (c_error + unit) \<times> omf_record_t" where
  "omf_record_write_dword rec c =
     (if data rec = None then (Inl EPLAIN, rec)
      else if unat (recpos rec) + 1 + 4 > data_alloc rec then (Inl EPLAIN, rec)
      else (Inr (), omf_record_write_dword_fast rec c))"

definition omf_record_write_index :: "omf_record_t \<Rightarrow> u16 \<Rightarrow> (c_error + unit) \<times> omf_record_t" where
  "omf_record_write_index rec c =
     (if data rec = None then (Inl EPLAIN, rec)
      else if unat (recpos rec) + 1 + 2 > data_alloc rec then (Inl EPLAIN, rec)
      else if c \<ge> 0x80 then
        (Inr (), omf_record_write_byte_fast
                   (omf_record_write_byte_fast rec (ucast (0x80 + (drop_bit 8 c AND 0x7F))))
                   (ucast (c AND 0xFF)))
      else (Inr (), omf_record_write_byte_fast rec (ucast c)))"

definition omf_record_write_update_reclen :: "omf_record_t \<Rightarrow> omf_record_t" where
  "omf_record_write_update_reclen rec = rec\<lparr>reclen := recpos rec\<rparr>"

text \<open>The checksum makes the bytes of the record, its header included, sum to 0 modulo 256.\<close>

definition omf_record_write_update_checksum :: "omf_record_t \<Rightarrow> omf_record_t" where
  "omf_record_write_update_checksum rec =
     (let l = reclen rec + 1;
          sum = rectype rec + ucast (l AND 0xFF) + ucast (drop_bit 8 l)
                + sum_list (take (unat (reclen rec)) (the (data rec)))
      in rec\<lparr>data := map_option (\<lambda>d. d[unat (reclen rec) := - sum]) (data rec)\<rparr>)"


section \<open>Well-formed buffers and the abstract view of a reader\<close>

definition wf_record :: "omf_record_t \<Rightarrow> bool" where
  "wf_record rec \<longleftrightarrow>
     (case data rec of None \<Rightarrow> True
      | Some d \<Rightarrow> length d = data_alloc rec \<and> unat (reclen rec) \<le> length d
                 \<and> recpos rec \<le> reclen rec)"

definition remaining :: "omf_record_t \<Rightarrow> u8 list" where
  "remaining rec =
     (case data rec of None \<Rightarrow> []
      | Some d \<Rightarrow> drop (unat (recpos rec)) (take (unat (reclen rec)) d))"

definition adv :: "nat \<Rightarrow> omf_record_t \<Rightarrow> omf_record_t" where
  "adv k rec = rec\<lparr>recpos := recpos rec + of_nat k\<rparr>"

lemma adv_0 [simp]: "adv 0 rec = rec"
  by (simp add: adv_def)

lemma adv_adv [simp]: "adv j (adv k rec) = adv (k + j) rec"
  by (simp add: adv_def algebra_simps)

lemma adv_fields [simp]:
  "rectype (adv k rec) = rectype rec" "reclen (adv k rec) = reclen rec"
  "data (adv k rec) = data rec" "data_alloc (adv k rec) = data_alloc rec"
  "rec_file_offset (adv k rec) = rec_file_offset rec"
  by (simp_all add: adv_def)

lemma length_remaining:
  "wf_record rec \<Longrightarrow> length (remaining rec) = omf_record_data_available rec"
  by (auto simp: wf_record_def remaining_def omf_record_data_available_def word_le_nat_alt
      split: option.splits)

lemma eof_iff_remaining: "wf_record rec \<Longrightarrow> omf_record_eof rec \<longleftrightarrow> remaining rec = []"
  by (simp add: omf_record_eof_def flip: length_remaining)

text \<open>With \<open>k\<close> bytes left, the position moves by \<open>k\<close> without wrap-around.\<close>

lemma unat_recpos_adv:
  assumes "wf_record rec" and "k \<le> length (remaining rec)"
  shows "unat (recpos rec + of_nat k) = unat (recpos rec) + k"
proof (cases "data rec")
  case None
  with assms have "k = 0" by (simp add: remaining_def)
  then show ?thesis by simp
next
  case (Some d)
  with assms have "unat (recpos rec) + k \<le> unat (reclen rec)"
    by (auto simp: wf_record_def remaining_def word_le_nat_alt)
  then show ?thesis by (rule unat_add_of_nat_fits)
qed

lemma wf_record_adv:
  assumes "wf_record rec" and "k \<le> length (remaining rec)"
  shows "wf_record (adv k rec)"
  using assms unat_recpos_adv [OF assms]
  by (auto simp: wf_record_def remaining_def adv_def word_le_nat_alt split: option.splits)

lemma remaining_adv:
  assumes "wf_record rec" and "k \<le> length (remaining rec)"
  shows "remaining (adv k rec) = drop k (remaining rec)"
  using unat_recpos_adv [OF assms]
  by (simp add: remaining_def adv_def add.commute split: option.splits)

text \<open>A byte that the bounds tests let through is a byte of the record, inside the block.\<close>

lemma data_at_remaining:
  assumes "wf_record rec" and "k < length (remaining rec)"
  shows "data_at rec k = remaining rec ! k"
    and "\<exists>d. data rec = Some d \<and> unat (recpos rec) + k < length d"
  using assms by (auto simp: wf_record_def remaining_def data_at_def split: option.splits)

lemma remaining_bound:
  assumes "wf_record rec" and "data rec \<noteq> None"
  shows "unat (recpos rec) + k > unat (reclen rec) \<longleftrightarrow> k > length (remaining rec)"
  using assms by (auto simp: wf_record_def remaining_def word_le_nat_alt)

lemma remaining_None: "data rec = None \<Longrightarrow> remaining rec = []"
  by (simp add: remaining_def)

section \<open>The readers as list operations\<close>

lemma get_byte_remaining:
  assumes "wf_record rec"
  shows "omf_record_get_byte rec =
    (case remaining rec of [] \<Rightarrow> (0xFF, rec) | b # _ \<Rightarrow> (b, adv 1 rec))"
proof (cases "data rec = None")
  case True
  then show ?thesis by (simp add: omf_record_get_byte_def remaining_None)
next
  case False
  with assms remaining_bound [of rec 1] show ?thesis
    using data_at_remaining(1) [of rec 0]
    by (cases "remaining rec")
      (auto simp: omf_record_get_byte_def omf_record_get_byte_fast_def adv_def)
qed

lemma get_word_remaining:
  assumes "wf_record rec"
  shows "omf_record_get_word rec =
    (case remaining rec of a # b # _ \<Rightarrow> (le16 a b, adv 2 rec) | _ \<Rightarrow> (0xFFFF, rec))"
proof (cases "data rec = None")
  case True
  then show ?thesis by (simp add: omf_record_get_word_def remaining_None)
next
  case False
  with assms remaining_bound [of rec 2] show ?thesis
    using data_at_remaining(1) [of rec 0] data_at_remaining(1) [of rec 1]
    by (auto simp: omf_record_get_word_def omf_record_get_word_fast_def adv_def
        split: list.splits)
qed

definition get_dword_list :: "u8 list \<Rightarrow> u64" where
  "get_dword_list bs = ucast (le32 (bs ! 0) (bs ! 1) (bs ! 2) (bs ! 3))"

lemma get_dword_remaining:
  assumes "wf_record rec"
  shows "omf_record_get_dword rec =
    (if length (remaining rec) \<ge> 4 then (get_dword_list (remaining rec), adv 4 rec)
     else (0xFFFF, rec))"
proof (cases "data rec = None")
  case True
  then show ?thesis by (simp add: omf_record_get_dword_def remaining_None)
next
  case False
  have "data_at rec 0 = remaining rec ! 0" if "4 \<le> length (remaining rec)"
    using assms that by (intro data_at_remaining(1)) auto
  with False assms remaining_bound [of rec 4] show ?thesis
    by (auto simp: omf_record_get_dword_def omf_record_get_dword_fast_def adv_def
        get_dword_list_def data_at_remaining(1))
qed

text \<open>The index encoding on lists: the value and the number of bytes consumed.\<close>

fun get_index_list :: "u8 list \<Rightarrow> u32 \<times> nat" where
  "get_index_list [] = (0, 0)"
| "get_index_list (b # bs) =
     (if b AND 0x80 \<noteq> 0 then
        (case bs of [] \<Rightarrow> (0, 1)
         | c # _ \<Rightarrow> (push_bit 8 (ucast b AND 0x7F) + ucast c, 2))
      else (ucast b, 1))"

lemma get_index_list_consumed: "snd (get_index_list bs) \<le> length bs"
  by (cases bs) (auto split: list.splits)

lemma ucast_and_0x80: "(ucast (b :: u8) :: u32) AND 0x80 = 0 \<longleftrightarrow> b AND 0x80 = 0"
proof -
  have "(ucast b :: u32) AND 0x80 = ucast (b AND 0x80)"
    by (rule bit_word_eqI) (auto simp: bit_simps dest: bit_imp_le_length)
  moreover have "(ucast x :: u32) = 0 \<longleftrightarrow> x = 0" for x :: u8
    using ucast_8_32 [of x] by (metis ucast_0)
  ultimately show ?thesis by simp
qed

lemma get_byte_fast_remaining:
  assumes "wf_record rec" and "remaining rec = b # bs"
  shows "omf_record_get_byte_fast rec = (b, adv 1 rec)"
  using assms data_at_remaining(1) [of rec 0]
  by (simp add: omf_record_get_byte_fast_def adv_def)

lemma get_index_remaining:
  assumes wf: "wf_record rec"
  shows "omf_record_get_index rec =
    (let (v, k) = get_index_list (remaining rec) in (v, adv k rec))"
proof (cases "remaining rec")
  case Nil
  with wf show ?thesis by (simp add: omf_record_get_index_def eof_iff_remaining)
next
  case (Cons b bs)
  have wf1: "wf_record (adv 1 rec)" and rem1: "remaining (adv 1 rec) = bs"
    using wf Cons by (simp_all add: wf_record_adv remaining_adv)
  show ?thesis
  proof (cases bs)
    case Nil
    with wf Cons wf1 rem1 show ?thesis
      by (simp add: omf_record_get_index_def eof_iff_remaining get_byte_fast_remaining
          ucast_and_0x80)
  next
    case (Cons c cs)
    with wf \<open>remaining rec = b # bs\<close> wf1 rem1 show ?thesis
      by (simp add: omf_record_get_index_def eof_iff_remaining get_byte_fast_remaining
          ucast_and_0x80 numeral_2_eq_2)
  qed
qed

lemma read_data_remaining:
  assumes "wf_record rec"
  shows "omf_record_read_data len rec =
    (take len (remaining rec), adv (min len (length (remaining rec))) rec)"
proof -
  have "take n (drop (unat (recpos rec)) (the (data rec))) = take n (remaining rec)"
    if "n \<le> length (remaining rec)" "0 < n" for n
  proof (cases "data rec")
    case None
    with that show ?thesis by (simp add: remaining_None)
  next
    case (Some d)
    with that have "n + unat (recpos rec) \<le> unat (reclen rec)"
      by (auto simp: remaining_def)
    with Some show ?thesis by (simp add: remaining_def take_drop min_def)
  qed
  then show ?thesis
    using assms by (auto simp: omf_record_read_data_def Let_def min_def adv_def
        simp flip: length_remaining)
qed

lemma get_lenstr_remaining:
  assumes wf: "wf_record rec"
  shows "omf_record_get_lenstr dstmax rec =
    (case remaining rec of
       [] \<Rightarrow> (if 256 > dstmax then (Inl ENOSPC, rec) else (Inl EIO, rec))
     | n # bs \<Rightarrow>
         if unat n + 1 > dstmax then (Inl ENOSPC, adv 1 rec)
         else if length bs < unat n then (Inl EIO, adv (1 + length bs) rec)
         else (Inr (take (unat n) bs), adv (1 + unat n) rec))"
proof (cases "remaining rec")
  case Nil
  with wf show ?thesis
    by (simp add: omf_record_get_lenstr_def get_byte_remaining read_data_remaining)
next
  case (Cons n bs)
  with wf have "wf_record (adv 1 rec)" and "remaining (adv 1 rec) = bs"
    by (simp_all add: wf_record_adv remaining_adv)
  with wf Cons show ?thesis
    by (simp add: omf_record_get_lenstr_def get_byte_remaining read_data_remaining min_def)
qed

end
