(* ===== verification/OmfTables.thy ===== *)
theory OmfTables
  imports OmfPrelude
begin

text \<open>
  The name, segment, group, external, public and fixup tables of an OMF module
  (\<^verbatim>\<open>olnames.c\<close>, \<^verbatim>\<open>osegdefs.c\<close>, \<^verbatim>\<open>ogrpdefs.c\<close>, \<^verbatim>\<open>oextdefs.c\<close>, \<^verbatim>\<open>opubdefs.c\<close>,
  \<^verbatim>\<open>ofixupps.c\<close>). Each table is an array allocated on first use with a fixed capacity. The
  array is the list of its \<^verbatim>\<open>count\<close> valid entries, \<open>None\<close> before it is allocated, so that
  \<^verbatim>\<open>count\<close> is the length of the list. An index counts from 1, as in the OMF format. Capacities
  are those of the LINUX build.
\<close>

section \<open>The contract of an indexed table\<close>

definition entries_of :: "'e list option \<Rightarrow> 'e list" where
  "entries_of a = (case a of None \<Rightarrow> [] | Some es \<Rightarrow> es)"

lemma entries_of_simps [simp]: "entries_of None = []" "entries_of (Some es) = es"
  by (simp_all add: entries_of_def)

text \<open>
  What the parsers and the linker rely on: \<open>add\<close> appends a blank entry and returns its place,
  or changes nothing; \<open>get\<close> finds entry \<open>i\<close> of \<open>1 \<dots> count\<close> and nothing else; \<open>free\<close> empties
  the table.
\<close>

locale omf_table =
  fixes arr :: "'t \<Rightarrow> 'e list option"
    and cap :: "'t \<Rightarrow> nat"
    and add :: "allocator \<Rightarrow> 't \<Rightarrow> (c_error + nat) \<times> 't"
    and get :: "'t \<Rightarrow> nat \<Rightarrow> c_error + 'e"
    and free :: "'t \<Rightarrow> 't"
    and blank :: 'e
  assumes add_Inr: "add mal t = (Inr k, t') \<Longrightarrow>
        k = length (entries_of (arr t)) \<and> k < cap t
        \<and> arr t' = Some (entries_of (arr t) @ [blank]) \<and> cap t' = cap t"
    and add_Inl: "add mal t = (Inl e, t') \<Longrightarrow>
        entries_of (arr t') = entries_of (arr t) \<and> cap t' = cap t"
    and add_progress: "malloc_never_fails mal \<Longrightarrow> length (entries_of (arr t)) < cap t \<Longrightarrow>
        \<exists>k t'. add mal t = (Inr k, t')"
    and get_eq: "get t i =
        (if 0 < i \<and> i \<le> length (entries_of (arr t)) then Inr (entries_of (arr t) ! (i - 1))
         else Inl ERANGE)"
    and free_empty: "entries_of (arr (free t)) = []"
begin

lemma get_new:
  assumes "add mal t = (Inr k, t')"
  shows "get t' (k + 1) = Inr blank"
  using add_Inr [OF assms] by (simp add: get_eq)

lemma get_old:
  assumes "add mal t = (r, t')" and "0 < i" and "i \<le> length (entries_of (arr t))"
  shows "get t' i = get t i"
  using assms add_Inr [of mal t _ t'] add_Inl [of mal t _ t']
  by (cases r) (auto simp: get_eq nth_append)

lemma get_zero: "get t 0 = Inl ERANGE"
  by (simp add: get_eq)

lemma get_defined_iff:
  "(\<exists>e. get t i = Inr e) \<longleftrightarrow> 0 < i \<and> i \<le> length (entries_of (arr t))"
  by (auto simp: get_eq)

lemma within_capacity:
  assumes "add mal t = (r, t')" and "length (entries_of (arr t)) \<le> cap t"
  shows "length (entries_of (arr t')) \<le> cap t'"
  using assms add_Inr [of mal t _ t'] add_Inl [of mal t _ t'] by (cases r) auto

lemma full_rejects:
  assumes "cap t \<le> length (entries_of (arr t))"
  shows "\<exists>e. fst (add mal t) = Inl e"
proof (cases "add mal t")
  case (Pair r t')
  with assms add_Inr [of mal t _ t'] show ?thesis by (cases r) auto
qed

lemma get_after_free: "get (free t) i = Inl ERANGE"
  by (auto simp: get_eq free_empty)

end


section \<open>SEGDEF: segments (\<^verbatim>\<open>osegdefs.c\<close>)\<close>

text \<open>\<^verbatim>\<open>attr.f.raw\<close> holds the bit fields of \<^verbatim>\<open>attr.f.f\<close>, the least significant first.\<close>

record omf_segdef_attr_t =
  raw :: u8
  frame_number :: u16
  offset :: u8

definition attr_use32 :: "omf_segdef_attr_t \<Rightarrow> bool" where
  "attr_use32 a \<longleftrightarrow> bit (raw a) 0"

definition attr_big_segment :: "omf_segdef_attr_t \<Rightarrow> bool" where
  "attr_big_segment a \<longleftrightarrow> bit (raw a) 1"

definition attr_combination :: "omf_segdef_attr_t \<Rightarrow> 3 word" where
  "attr_combination a = ucast (drop_bit 2 (raw a))"

definition attr_alignment :: "omf_segdef_attr_t \<Rightarrow> 3 word" where
  "attr_alignment a = ucast (drop_bit 5 (raw a))"

definition set_attr_alignment :: "3 word \<Rightarrow> omf_segdef_attr_t \<Rightarrow> omf_segdef_attr_t" where
  "set_attr_alignment x a = a\<lparr>raw := take_bit 5 (raw a) OR push_bit 5 (ucast x)\<rparr>"

record omf_segdef_t =
  attr :: omf_segdef_attr_t
  segment_length :: u32
  segment_name_index :: u16
  class_name_index :: u16
  overlay_name_index :: u16

record omf_segdefs_context_t =
  omf_SEGDEFS :: "omf_segdef_t list option"
  omf_SEGDEFS_alloc :: nat

definition omf_segdefs_context_init_segdef :: omf_segdef_t where
  "omf_segdefs_context_init_segdef = \<lparr>attr = \<lparr>raw = 0, frame_number = 0, offset = 0\<rparr>,
     segment_length = 0, segment_name_index = 0, class_name_index = 0, overlay_name_index = 0\<rparr>"

definition omf_SEGDEFS_count :: "omf_segdefs_context_t \<Rightarrow> nat" where
  "omf_SEGDEFS_count ctx = length (entries_of (omf_SEGDEFS ctx))"

definition omf_segdefs_context_init :: "omf_segdefs_context_t \<Rightarrow> omf_segdefs_context_t" where
  "omf_segdefs_context_init ctx = ctx\<lparr>omf_SEGDEFS := None, omf_SEGDEFS_alloc := 32768\<rparr>"

definition omf_segdefs_context_alloc_segdefs ::
    "allocator \<Rightarrow> omf_segdefs_context_t \<Rightarrow> (c_error + unit) \<times> omf_segdefs_context_t" where
  "omf_segdefs_context_alloc_segdefs mal ctx =
     (if omf_SEGDEFS ctx \<noteq> None then (Inr (), ctx)
      else if omf_SEGDEFS_alloc ctx = 0 then (Inl EINVAL, ctx)
      else case mal (Req_segdefs (omf_SEGDEFS_alloc ctx)) of
             None \<Rightarrow> (Inl ENOMEM, ctx)
           | Some _ \<Rightarrow> (Inr (), ctx\<lparr>omf_SEGDEFS := Some []\<rparr>))"

definition omf_segdefs_context_free_entries :: "omf_segdefs_context_t \<Rightarrow> omf_segdefs_context_t" where
  "omf_segdefs_context_free_entries ctx = ctx\<lparr>omf_SEGDEFS := None\<rparr>"

definition omf_segdefs_context_free :: "omf_segdefs_context_t \<Rightarrow> omf_segdefs_context_t" where
  "omf_segdefs_context_free ctx = omf_segdefs_context_free_entries ctx"

text \<open>\<^verbatim>\<open>add\<close> returns the place of the new entry in the array, counted from 0.\<close>

definition omf_segdefs_context_add_segdef ::
    "allocator \<Rightarrow> omf_segdefs_context_t \<Rightarrow> (c_error + nat) \<times> omf_segdefs_context_t" where
  "omf_segdefs_context_add_segdef mal ctx =
     (case omf_segdefs_context_alloc_segdefs mal ctx of
        (Inl e, ctx) \<Rightarrow> (Inl e, ctx)
      | (Inr _, ctx) \<Rightarrow>
          if omf_SEGDEFS_count ctx \<ge> omf_SEGDEFS_alloc ctx then (Inl ERANGE, ctx)
          else (Inr (omf_SEGDEFS_count ctx),
                ctx\<lparr>omf_SEGDEFS := Some (entries_of (omf_SEGDEFS ctx) @ [omf_segdefs_context_init_segdef])\<rparr>))"

definition omf_segdefs_context_get_segdef :: "omf_segdefs_context_t \<Rightarrow> nat \<Rightarrow> c_error + omf_segdef_t" where
  "omf_segdefs_context_get_segdef ctx i =
     (case omf_SEGDEFS ctx of
        None \<Rightarrow> Inl ERANGE
      | Some es \<Rightarrow>
          if i = 0 then Inl ERANGE
          else let i = i - 1 in
            if i \<ge> omf_SEGDEFS_count ctx then Inl ERANGE else Inr (es ! i))"

definition omf_segdefs_context_get_highest_index :: "omf_segdefs_context_t \<Rightarrow> nat" where
  "omf_segdefs_context_get_highest_index ctx = omf_SEGDEFS_count ctx"

definition omf_segdefs_context_get_next_add_index :: "omf_segdefs_context_t \<Rightarrow> nat" where
  "omf_segdefs_context_get_next_add_index ctx = omf_SEGDEFS_count ctx + 1"

interpretation segdefs: omf_table omf_SEGDEFS omf_SEGDEFS_alloc
    omf_segdefs_context_add_segdef omf_segdefs_context_get_segdef
    omf_segdefs_context_free_entries "omf_segdefs_context_init_segdef"
proof (unfold_locales, goal_cases)
  case (1 mal t k t')
  then show ?case
    by (auto simp: omf_segdefs_context_add_segdef_def omf_segdefs_context_alloc_segdefs_def
        omf_SEGDEFS_count_def split: if_splits option.splits sum.splits prod.splits)
next
  case (2 mal t e t')
  then show ?case
    by (auto simp: omf_segdefs_context_add_segdef_def omf_segdefs_context_alloc_segdefs_def
        omf_SEGDEFS_count_def split: if_splits option.splits sum.splits prod.splits)
next
  case (3 mal t)
  then have "mal (Req_segdefs (omf_SEGDEFS_alloc t)) \<noteq> None"
    by (simp add: malloc_never_fails_def)
  with 3 show ?case
    by (auto simp: omf_segdefs_context_add_segdef_def omf_segdefs_context_alloc_segdefs_def
        omf_SEGDEFS_count_def split: option.splits)
next
  case (4 t i)
  then show ?case
    by (auto simp: omf_segdefs_context_get_segdef_def omf_SEGDEFS_count_def Let_def split: option.splits)
next
  case (5 t)
  then show ?case by (simp add: omf_segdefs_context_free_entries_def)
qed

section \<open>EXTDEF: external names (\<^verbatim>\<open>oextdefs.c\<close>)\<close>

datatype omf_scope = GLOBAL | LOCAL

record omf_extdef_t =
  ed_name_string :: "cstr option"
  ed_type_index :: u32
  ed_type :: omf_scope

record omf_extdefs_context_t =
  omf_EXTDEFS :: "omf_extdef_t list option"
  omf_EXTDEFS_alloc :: nat

definition omf_extdefs_context_init_extdef :: omf_extdef_t where
  "omf_extdefs_context_init_extdef =
     \<lparr>ed_name_string = None, ed_type_index = 0, ed_type = LOCAL\<rparr>"

definition omf_EXTDEFS_count :: "omf_extdefs_context_t \<Rightarrow> nat" where
  "omf_EXTDEFS_count ctx = length (entries_of (omf_EXTDEFS ctx))"

definition omf_extdefs_context_init :: "omf_extdefs_context_t \<Rightarrow> omf_extdefs_context_t" where
  "omf_extdefs_context_init ctx = ctx\<lparr>omf_EXTDEFS := None, omf_EXTDEFS_alloc := 32768\<rparr>"

definition omf_extdefs_context_alloc_extdefs ::
    "allocator \<Rightarrow> omf_extdefs_context_t \<Rightarrow> (c_error + unit) \<times> omf_extdefs_context_t" where
  "omf_extdefs_context_alloc_extdefs mal ctx =
     (if omf_EXTDEFS ctx \<noteq> None then (Inr (), ctx)
      else if omf_EXTDEFS_alloc ctx = 0 then (Inl EINVAL, ctx)
      else case mal (Req_extdefs (omf_EXTDEFS_alloc ctx)) of
             None \<Rightarrow> (Inl ENOMEM, ctx)
           | Some _ \<Rightarrow> (Inr (), ctx\<lparr>omf_EXTDEFS := Some []\<rparr>))"

definition omf_extdefs_context_free_entries :: "omf_extdefs_context_t \<Rightarrow> omf_extdefs_context_t" where
  "omf_extdefs_context_free_entries ctx = ctx\<lparr>omf_EXTDEFS := None\<rparr>"

definition omf_extdefs_context_free :: "omf_extdefs_context_t \<Rightarrow> omf_extdefs_context_t" where
  "omf_extdefs_context_free ctx = omf_extdefs_context_free_entries ctx"

text \<open>\<^verbatim>\<open>add\<close> returns the place of the new entry in the array, counted from 0.\<close>

definition omf_extdefs_context_add_extdef ::
    "allocator \<Rightarrow> omf_extdefs_context_t \<Rightarrow> (c_error + nat) \<times> omf_extdefs_context_t" where
  "omf_extdefs_context_add_extdef mal ctx =
     (case omf_extdefs_context_alloc_extdefs mal ctx of
        (Inl e, ctx) \<Rightarrow> (Inl e, ctx)
      | (Inr _, ctx) \<Rightarrow>
          if omf_EXTDEFS_count ctx \<ge> omf_EXTDEFS_alloc ctx then (Inl ERANGE, ctx)
          else (Inr (omf_EXTDEFS_count ctx),
                ctx\<lparr>omf_EXTDEFS := Some (entries_of (omf_EXTDEFS ctx) @ [omf_extdefs_context_init_extdef])\<rparr>))"

definition omf_extdefs_context_get_extdef :: "omf_extdefs_context_t \<Rightarrow> nat \<Rightarrow> c_error + omf_extdef_t" where
  "omf_extdefs_context_get_extdef ctx i =
     (case omf_EXTDEFS ctx of
        None \<Rightarrow> Inl ERANGE
      | Some es \<Rightarrow>
          if i = 0 then Inl ERANGE
          else let i = i - 1 in
            if i \<ge> omf_EXTDEFS_count ctx then Inl ERANGE else Inr (es ! i))"

definition omf_extdefs_context_get_highest_index :: "omf_extdefs_context_t \<Rightarrow> nat" where
  "omf_extdefs_context_get_highest_index ctx = omf_EXTDEFS_count ctx"

definition omf_extdefs_context_get_next_add_index :: "omf_extdefs_context_t \<Rightarrow> nat" where
  "omf_extdefs_context_get_next_add_index ctx = omf_EXTDEFS_count ctx + 1"

interpretation extdefs: omf_table omf_EXTDEFS omf_EXTDEFS_alloc
    omf_extdefs_context_add_extdef omf_extdefs_context_get_extdef
    omf_extdefs_context_free_entries "omf_extdefs_context_init_extdef"
proof (unfold_locales, goal_cases)
  case (1 mal t k t')
  then show ?case
    by (auto simp: omf_extdefs_context_add_extdef_def omf_extdefs_context_alloc_extdefs_def
        omf_EXTDEFS_count_def split: if_splits option.splits sum.splits prod.splits)
next
  case (2 mal t e t')
  then show ?case
    by (auto simp: omf_extdefs_context_add_extdef_def omf_extdefs_context_alloc_extdefs_def
        omf_EXTDEFS_count_def split: if_splits option.splits sum.splits prod.splits)
next
  case (3 mal t)
  then have "mal (Req_extdefs (omf_EXTDEFS_alloc t)) \<noteq> None"
    by (simp add: malloc_never_fails_def)
  with 3 show ?case
    by (auto simp: omf_extdefs_context_add_extdef_def omf_extdefs_context_alloc_extdefs_def
        omf_EXTDEFS_count_def split: option.splits)
next
  case (4 t i)
  then show ?case
    by (auto simp: omf_extdefs_context_get_extdef_def omf_EXTDEFS_count_def Let_def split: option.splits)
next
  case (5 t)
  then show ?case by (simp add: omf_extdefs_context_free_entries_def)
qed

section \<open>PUBDEF: public names (\<^verbatim>\<open>opubdefs.c\<close>)\<close>

record omf_pubdef_t =
  pd_name_string :: "cstr option"
  pd_group_index :: u32
  pd_segment_index :: u32
  public_offset :: u64
  pd_type_index :: u32
  pd_type :: omf_scope

record omf_pubdefs_context_t =
  omf_PUBDEFS :: "omf_pubdef_t list option"
  omf_PUBDEFS_alloc :: nat

definition omf_pubdefs_context_init_pubdef :: omf_pubdef_t where
  "omf_pubdefs_context_init_pubdef =
     \<lparr>pd_name_string = None, pd_group_index = 0, pd_segment_index = 0, public_offset = 0,
      pd_type_index = 0, pd_type = LOCAL\<rparr>"

definition omf_PUBDEFS_count :: "omf_pubdefs_context_t \<Rightarrow> nat" where
  "omf_PUBDEFS_count ctx = length (entries_of (omf_PUBDEFS ctx))"

definition omf_pubdefs_context_init :: "omf_pubdefs_context_t \<Rightarrow> omf_pubdefs_context_t" where
  "omf_pubdefs_context_init ctx = ctx\<lparr>omf_PUBDEFS := None, omf_PUBDEFS_alloc := 32768\<rparr>"

definition omf_pubdefs_context_alloc_pubdefs ::
    "allocator \<Rightarrow> omf_pubdefs_context_t \<Rightarrow> (c_error + unit) \<times> omf_pubdefs_context_t" where
  "omf_pubdefs_context_alloc_pubdefs mal ctx =
     (if omf_PUBDEFS ctx \<noteq> None then (Inr (), ctx)
      else if omf_PUBDEFS_alloc ctx = 0 then (Inl EINVAL, ctx)
      else case mal (Req_pubdefs (omf_PUBDEFS_alloc ctx)) of
             None \<Rightarrow> (Inl ENOMEM, ctx)
           | Some _ \<Rightarrow> (Inr (), ctx\<lparr>omf_PUBDEFS := Some []\<rparr>))"

definition omf_pubdefs_context_free_entries :: "omf_pubdefs_context_t \<Rightarrow> omf_pubdefs_context_t" where
  "omf_pubdefs_context_free_entries ctx = ctx\<lparr>omf_PUBDEFS := None\<rparr>"

definition omf_pubdefs_context_free :: "omf_pubdefs_context_t \<Rightarrow> omf_pubdefs_context_t" where
  "omf_pubdefs_context_free ctx = omf_pubdefs_context_free_entries ctx"

text \<open>\<^verbatim>\<open>add\<close> returns the place of the new entry in the array, counted from 0.\<close>

definition omf_pubdefs_context_add_pubdef ::
    "allocator \<Rightarrow> omf_pubdefs_context_t \<Rightarrow> (c_error + nat) \<times> omf_pubdefs_context_t" where
  "omf_pubdefs_context_add_pubdef mal ctx =
     (case omf_pubdefs_context_alloc_pubdefs mal ctx of
        (Inl e, ctx) \<Rightarrow> (Inl e, ctx)
      | (Inr _, ctx) \<Rightarrow>
          if omf_PUBDEFS_count ctx \<ge> omf_PUBDEFS_alloc ctx then (Inl ERANGE, ctx)
          else (Inr (omf_PUBDEFS_count ctx),
                ctx\<lparr>omf_PUBDEFS := Some (entries_of (omf_PUBDEFS ctx) @ [omf_pubdefs_context_init_pubdef])\<rparr>))"

definition omf_pubdefs_context_get_pubdef :: "omf_pubdefs_context_t \<Rightarrow> nat \<Rightarrow> c_error + omf_pubdef_t" where
  "omf_pubdefs_context_get_pubdef ctx i =
     (case omf_PUBDEFS ctx of
        None \<Rightarrow> Inl ERANGE
      | Some es \<Rightarrow>
          if i = 0 then Inl ERANGE
          else let i = i - 1 in
            if i \<ge> omf_PUBDEFS_count ctx then Inl ERANGE else Inr (es ! i))"

definition omf_pubdefs_context_get_highest_index :: "omf_pubdefs_context_t \<Rightarrow> nat" where
  "omf_pubdefs_context_get_highest_index ctx = omf_PUBDEFS_count ctx"

definition omf_pubdefs_context_get_next_add_index :: "omf_pubdefs_context_t \<Rightarrow> nat" where
  "omf_pubdefs_context_get_next_add_index ctx = omf_PUBDEFS_count ctx + 1"

interpretation pubdefs: omf_table omf_PUBDEFS omf_PUBDEFS_alloc
    omf_pubdefs_context_add_pubdef omf_pubdefs_context_get_pubdef
    omf_pubdefs_context_free_entries "omf_pubdefs_context_init_pubdef"
proof (unfold_locales, goal_cases)
  case (1 mal t k t')
  then show ?case
    by (auto simp: omf_pubdefs_context_add_pubdef_def omf_pubdefs_context_alloc_pubdefs_def
        omf_PUBDEFS_count_def split: if_splits option.splits sum.splits prod.splits)
next
  case (2 mal t e t')
  then show ?case
    by (auto simp: omf_pubdefs_context_add_pubdef_def omf_pubdefs_context_alloc_pubdefs_def
        omf_PUBDEFS_count_def split: if_splits option.splits sum.splits prod.splits)
next
  case (3 mal t)
  then have "mal (Req_pubdefs (omf_PUBDEFS_alloc t)) \<noteq> None"
    by (simp add: malloc_never_fails_def)
  with 3 show ?case
    by (auto simp: omf_pubdefs_context_add_pubdef_def omf_pubdefs_context_alloc_pubdefs_def
        omf_PUBDEFS_count_def split: option.splits)
next
  case (4 t i)
  then show ?case
    by (auto simp: omf_pubdefs_context_get_pubdef_def omf_PUBDEFS_count_def Let_def split: option.splits)
next
  case (5 t)
  then show ?case by (simp add: omf_pubdefs_context_free_entries_def)
qed

section \<open>FIXUPP: fixups and their threads (\<^verbatim>\<open>ofixupps.c\<close>)\<close>

text \<open>Bit fields of the C structure are words of the field's width.\<close>

record omf_fixupp_t =
  segment_relative :: bool
  location :: "4 word"
  frame_method :: "3 word"
  target_method :: "3 word"
  alloc :: bool
  data_record_offset :: u16
  frame_index :: u16
  target_index :: u16
  fixup_segdef_index :: u16
  target_displacement :: u64
  omf_rec_file_offset :: u64
  omf_rec_file_enoffs :: u64
  omf_rec_file_header :: u8

record omf_fixupp_thread_t =
  th_method :: "3 word"
  th_alloc :: bool
  th_index :: u32

record omf_fixupps_context_t =
  frame_thread :: "omf_fixupp_thread_t list"    \<comment> \<open>4 entries\<close>
  target_thread :: "omf_fixupp_thread_t list"   \<comment> \<open>4 entries\<close>
  omf_FIXUPPS :: "omf_fixupp_t list option"
  omf_FIXUPPS_alloc :: nat

definition omf_fixupps_clear_thread :: omf_fixupp_thread_t where
  "omf_fixupps_clear_thread = \<lparr>th_method = 0, th_alloc = False, th_index = 0\<rparr>"

definition omf_fixupps_clear_threads :: "omf_fixupps_context_t \<Rightarrow> omf_fixupps_context_t" where
  "omf_fixupps_clear_threads ctx = ctx\<lparr>
     frame_thread := replicate 4 omf_fixupps_clear_thread,
     target_thread := replicate 4 omf_fixupps_clear_thread\<rparr>"

text \<open>A fixup entry as \<^verbatim>\<open>memset\<close> leaves it.\<close>

definition zero_fixupp :: omf_fixupp_t where
  "zero_fixupp = \<lparr>segment_relative = False, location = 0, frame_method = 0, target_method = 0,
     alloc = False, data_record_offset = 0, frame_index = 0, target_index = 0,
     fixup_segdef_index = 0, target_displacement = 0, omf_rec_file_offset = 0,
     omf_rec_file_enoffs = 0, omf_rec_file_header = 0\<rparr>"

definition omf_FIXUPPS_count :: "omf_fixupps_context_t \<Rightarrow> nat" where
  "omf_FIXUPPS_count ctx = length (entries_of (omf_FIXUPPS ctx))"

definition omf_fixupps_context_init :: "omf_fixupps_context_t \<Rightarrow> omf_fixupps_context_t" where
  "omf_fixupps_context_init ctx = omf_fixupps_clear_threads (ctx\<lparr>omf_FIXUPPS := None, omf_FIXUPPS_alloc := 32768\<rparr>)"

definition omf_fixupps_context_alloc_fixupps ::
    "allocator \<Rightarrow> omf_fixupps_context_t \<Rightarrow> (c_error + unit) \<times> omf_fixupps_context_t" where
  "omf_fixupps_context_alloc_fixupps mal ctx =
     (if omf_FIXUPPS ctx \<noteq> None then (Inr (), ctx)
      else if omf_FIXUPPS_alloc ctx = 0 then (Inl EINVAL, ctx)
      else case mal (Req_fixupps (omf_FIXUPPS_alloc ctx)) of
             None \<Rightarrow> (Inl ENOMEM, ctx)
           | Some _ \<Rightarrow> (Inr (), ctx\<lparr>omf_FIXUPPS := Some []\<rparr>))"

definition omf_fixupps_context_free_entries :: "omf_fixupps_context_t \<Rightarrow> omf_fixupps_context_t" where
  "omf_fixupps_context_free_entries ctx = omf_fixupps_clear_threads (ctx\<lparr>omf_FIXUPPS := None\<rparr>)"

definition omf_fixupps_context_free :: "omf_fixupps_context_t \<Rightarrow> omf_fixupps_context_t" where
  "omf_fixupps_context_free ctx = omf_fixupps_context_free_entries ctx"

text \<open>\<^verbatim>\<open>add\<close> returns the place of the new entry in the array, counted from 0.\<close>

definition omf_fixupps_context_add_fixupp ::
    "allocator \<Rightarrow> omf_fixupps_context_t \<Rightarrow> (c_error + nat) \<times> omf_fixupps_context_t" where
  "omf_fixupps_context_add_fixupp mal ctx =
     (case omf_fixupps_context_alloc_fixupps mal ctx of
        (Inl e, ctx) \<Rightarrow> (Inl e, ctx)
      | (Inr _, ctx) \<Rightarrow>
          if omf_FIXUPPS_count ctx \<ge> omf_FIXUPPS_alloc ctx then (Inl ERANGE, ctx)
          else (Inr (omf_FIXUPPS_count ctx),
                ctx\<lparr>omf_FIXUPPS := Some (entries_of (omf_FIXUPPS ctx) @ [zero_fixupp])\<rparr>))"

definition omf_fixupps_context_get_fixupp :: "omf_fixupps_context_t \<Rightarrow> nat \<Rightarrow> c_error + omf_fixupp_t" where
  "omf_fixupps_context_get_fixupp ctx i =
     (case omf_FIXUPPS ctx of
        None \<Rightarrow> Inl ERANGE
      | Some es \<Rightarrow>
          if i = 0 then Inl ERANGE
          else let i = i - 1 in
            if i \<ge> omf_FIXUPPS_count ctx then Inl ERANGE else Inr (es ! i))"

definition omf_fixupps_context_get_highest_index :: "omf_fixupps_context_t \<Rightarrow> nat" where
  "omf_fixupps_context_get_highest_index ctx = omf_FIXUPPS_count ctx"

definition omf_fixupps_context_get_next_add_index :: "omf_fixupps_context_t \<Rightarrow> nat" where
  "omf_fixupps_context_get_next_add_index ctx = omf_FIXUPPS_count ctx + 1"

interpretation fixupps: omf_table omf_FIXUPPS omf_FIXUPPS_alloc
    omf_fixupps_context_add_fixupp omf_fixupps_context_get_fixupp
    omf_fixupps_context_free_entries "zero_fixupp"
proof (unfold_locales, goal_cases)
  case (1 mal t k t')
  then show ?case
    by (auto simp: omf_fixupps_context_add_fixupp_def omf_fixupps_context_alloc_fixupps_def
        omf_FIXUPPS_count_def split: if_splits option.splits sum.splits prod.splits)
next
  case (2 mal t e t')
  then show ?case
    by (auto simp: omf_fixupps_context_add_fixupp_def omf_fixupps_context_alloc_fixupps_def
        omf_FIXUPPS_count_def split: if_splits option.splits sum.splits prod.splits)
next
  case (3 mal t)
  then have "mal (Req_fixupps (omf_FIXUPPS_alloc t)) \<noteq> None"
    by (simp add: malloc_never_fails_def)
  with 3 show ?case
    by (auto simp: omf_fixupps_context_add_fixupp_def omf_fixupps_context_alloc_fixupps_def
        omf_FIXUPPS_count_def split: option.splits)
next
  case (4 t i)
  then show ?case
    by (auto simp: omf_fixupps_context_get_fixupp_def omf_FIXUPPS_count_def Let_def split: option.splits)
next
  case (5 t)
  then show ?case by (simp add: omf_fixupps_context_free_entries_def omf_fixupps_clear_threads_def)
qed


section \<open>LNAMES: names (\<^verbatim>\<open>olnames.c\<close>)\<close>

record omf_lnames_context_t =
  omf_LNAMES :: "cstr option list option"
  omf_LNAMES_alloc :: nat

definition omf_LNAMES_count :: "omf_lnames_context_t \<Rightarrow> nat" where
  "omf_LNAMES_count ctx = length (entries_of (omf_LNAMES ctx))"

definition omf_lnames_context_init :: "omf_lnames_context_t \<Rightarrow> omf_lnames_context_t" where
  "omf_lnames_context_init ctx = ctx\<lparr>omf_LNAMES := None, omf_LNAMES_alloc := 32768\<rparr>"

definition omf_lnames_context_alloc_names ::
    "allocator \<Rightarrow> omf_lnames_context_t \<Rightarrow> (c_error + unit) \<times> omf_lnames_context_t" where
  "omf_lnames_context_alloc_names mal ctx =
     (if omf_LNAMES ctx \<noteq> None then (Inr (), ctx)
      else if omf_LNAMES_alloc ctx = 0 then (Inl EINVAL, ctx)
      else case mal (Req_lnames (omf_LNAMES_alloc ctx)) of
             None \<Rightarrow> (Inl ENOMEM, ctx)
           | Some _ \<Rightarrow> (Inr (), ctx\<lparr>omf_LNAMES := Some []\<rparr>))"

definition omf_lnames_context_clear_name ::
    "omf_lnames_context_t \<Rightarrow> nat \<Rightarrow> (c_error + unit) \<times> omf_lnames_context_t" where
  "omf_lnames_context_clear_name ctx i =
     (if i = 0 then (Inl ERANGE, ctx)
      else let i = i - 1 in
        if i \<ge> omf_LNAMES_count ctx then (Inl ERANGE, ctx)
        else (Inr (), ctx\<lparr>omf_LNAMES := map_option (\<lambda>es. es[i := None]) (omf_LNAMES ctx)\<rparr>))"

definition omf_lnames_context_get_name :: "omf_lnames_context_t \<Rightarrow> nat \<Rightarrow> cstr option" where
  "omf_lnames_context_get_name ctx i =
     (if i = 0 then None
      else let i = i - 1 in
        if i \<ge> omf_LNAMES_count ctx then None else entries_of (omf_LNAMES ctx) ! i)"

definition erange_name :: cstr where
  "erange_name = bytes_of ''[ERANGE]''"

definition omf_lnames_context_get_name_safe :: "omf_lnames_context_t \<Rightarrow> nat \<Rightarrow> cstr" where
  "omf_lnames_context_get_name_safe ctx i =
     (case omf_lnames_context_get_name ctx i of Some r \<Rightarrow> r | None \<Rightarrow> erange_name)"

text \<open>The name comes as its bytes \<^verbatim>\<open>name[0..namelen)\<close>, or \<open>None\<close> for a NULL pointer.\<close>

definition omf_lnames_context_set_name ::
    "allocator \<Rightarrow> omf_lnames_context_t \<Rightarrow> nat \<Rightarrow> u8 list option
     \<Rightarrow> (c_error + unit) \<times> omf_lnames_context_t" where
  "omf_lnames_context_set_name mal ctx i name =
     (case name of
        None \<Rightarrow> (Inl EFAULT, ctx)
      | Some bs \<Rightarrow>
          if i = 0 then (Inl ERANGE, ctx)
          else let i = i - 1 in
            if i \<ge> omf_LNAMES_alloc ctx then (Inl ERANGE, ctx)
            else case omf_lnames_context_alloc_names mal ctx of
                (Inl e, ctx) \<Rightarrow> (Inl e, ctx)
              | (Inr _, ctx) \<Rightarrow>
                  let es = entries_of (omf_LNAMES ctx);
                      es = es @ replicate (i + 1 - length es) None
                  in case cstr_set_n mal (es ! i) bs of
                       (r, p) \<Rightarrow> (r, ctx\<lparr>omf_LNAMES := Some (es[i := p])\<rparr>))"

definition omf_lnames_context_add_name ::
    "allocator \<Rightarrow> omf_lnames_context_t \<Rightarrow> u8 list option
     \<Rightarrow> (c_error + nat) \<times> omf_lnames_context_t" where
  "omf_lnames_context_add_name mal ctx name =
     (let idx = (if omf_LNAMES ctx \<noteq> None then omf_LNAMES_count ctx + 1 else 1) in
      case omf_lnames_context_set_name mal ctx idx name of
        (Inl e, ctx) \<Rightarrow> (Inl e, ctx)
      | (Inr _, ctx) \<Rightarrow> (Inr idx, ctx))"

definition omf_lnames_context_clear_names :: "omf_lnames_context_t \<Rightarrow> omf_lnames_context_t" where
  "omf_lnames_context_clear_names ctx = ctx\<lparr>omf_LNAMES := map_option (\<lambda>_. []) (omf_LNAMES ctx)\<rparr>"

definition omf_lnames_context_free_names :: "omf_lnames_context_t \<Rightarrow> omf_lnames_context_t" where
  "omf_lnames_context_free_names ctx =
     (if omf_LNAMES ctx \<noteq> None
      then (omf_lnames_context_clear_names ctx)\<lparr>omf_LNAMES := None\<rparr> else ctx)"

definition omf_lnames_context_free :: "omf_lnames_context_t \<Rightarrow> omf_lnames_context_t" where
  "omf_lnames_context_free ctx = omf_lnames_context_free_names ctx"

definition omf_lnames_context_get_highest_index :: "omf_lnames_context_t \<Rightarrow> nat" where
  "omf_lnames_context_get_highest_index ctx = omf_LNAMES_count ctx"

definition omf_lnames_context_get_next_add_index :: "omf_lnames_context_t \<Rightarrow> nat" where
  "omf_lnames_context_get_next_add_index ctx = omf_LNAMES_count ctx + 1"

lemma add_name_Inr:
  assumes "omf_lnames_context_add_name mal ctx (Some bs) = (Inr k, ctx')"
  shows "k = omf_LNAMES_count ctx + 1 \<and> k \<le> omf_LNAMES_alloc ctx
    \<and> entries_of (omf_LNAMES ctx') = entries_of (omf_LNAMES ctx) @ [Some (c_string bs)]
    \<and> omf_LNAMES_alloc ctx' = omf_LNAMES_alloc ctx"
  using assms
  by (auto simp: omf_lnames_context_add_name_def omf_lnames_context_set_name_def
      omf_lnames_context_alloc_names_def cstr_set_n_def omf_LNAMES_count_def Let_def
      split: if_splits option.splits sum.splits prod.splits)

lemma add_name_progress:
  assumes "malloc_never_fails mal" and "omf_LNAMES_count ctx < omf_LNAMES_alloc ctx"
  shows "\<exists>ctx'. omf_lnames_context_add_name mal ctx (Some bs)
    = (Inr (omf_LNAMES_count ctx + 1), ctx')"
proof -
  have "mal (Req_lnames (omf_LNAMES_alloc ctx)) \<noteq> None"
    using assms(1) by (simp add: malloc_never_fails_def)
  with assms show ?thesis
    by (auto simp: omf_lnames_context_add_name_def omf_lnames_context_set_name_def
        omf_lnames_context_alloc_names_def cstr_set_n_never_fails omf_LNAMES_count_def Let_def
        split: if_splits option.splits sum.splits prod.splits)
qed

lemma get_name_eq:
  "omf_lnames_context_get_name ctx i =
     (if 0 < i \<and> i \<le> length (entries_of (omf_LNAMES ctx))
      then entries_of (omf_LNAMES ctx) ! (i - 1) else None)"
  by (auto simp: omf_lnames_context_get_name_def omf_LNAMES_count_def Let_def)

section \<open>GRPDEF: groups (\<^verbatim>\<open>ogrpdefs.c\<close>)\<close>

text \<open>
  The members of all groups stand in one array \<^verbatim>\<open>segdefs\<close>; a group is the range of its first
  member and its number of members.
\<close>

record omf_grpdef_t =
  group_name_index :: u32
  gd_index :: nat
  gd_count :: nat

record omf_grpdefs_context_t =
  segdefs :: "u16 list option"
  segdefs_alloc :: nat
  omf_GRPDEFS :: "omf_grpdef_t list option"
  omf_GRPDEFS_alloc :: nat

definition segdefs_count :: "omf_grpdefs_context_t \<Rightarrow> nat" where
  "segdefs_count ctx = length (entries_of (segdefs ctx))"

definition omf_GRPDEFS_count :: "omf_grpdefs_context_t \<Rightarrow> nat" where
  "omf_GRPDEFS_count ctx = length (entries_of (omf_GRPDEFS ctx))"

definition omf_grpdefs_context_init :: "omf_grpdefs_context_t \<Rightarrow> omf_grpdefs_context_t" where
  "omf_grpdefs_context_init ctx = ctx\<lparr>segdefs := None, segdefs_alloc := 32768,
     omf_GRPDEFS := None, omf_GRPDEFS_alloc := 32768\<rparr>"

definition omf_grpdefs_context_free_entries :: "omf_grpdefs_context_t \<Rightarrow> omf_grpdefs_context_t" where
  "omf_grpdefs_context_free_entries ctx = ctx\<lparr>segdefs := None, omf_GRPDEFS := None\<rparr>"

definition omf_grpdefs_context_free :: "omf_grpdefs_context_t \<Rightarrow> omf_grpdefs_context_t" where
  "omf_grpdefs_context_free ctx = omf_grpdefs_context_free_entries ctx"

definition omf_grpdefs_context_alloc_grpdefs ::
    "allocator \<Rightarrow> omf_grpdefs_context_t \<Rightarrow> (c_error + unit) \<times> omf_grpdefs_context_t" where
  "omf_grpdefs_context_alloc_grpdefs mal ctx =
     (if omf_GRPDEFS ctx \<noteq> None \<or> segdefs ctx \<noteq> None then (Inr (), ctx)
      else if omf_GRPDEFS_alloc ctx = 0 \<or> segdefs_alloc ctx = 0 then (Inl EINVAL, ctx)
      else case mal (Req_grpdefs (omf_GRPDEFS_alloc ctx)) of
             None \<Rightarrow> (Inl ENOMEM, ctx)
           | Some _ \<Rightarrow>
               let ctx = ctx\<lparr>omf_GRPDEFS := Some []\<rparr> in
               case mal (Req_grp_segdefs (segdefs_alloc ctx)) of
                 None \<Rightarrow> (Inl ENOMEM, omf_grpdefs_context_free_entries ctx)
               | Some _ \<Rightarrow> (Inr (), ctx\<lparr>segdefs := Some []\<rparr>))"

text \<open>
  The bound on the shared array lets the place just past its last entry through; what is
  read there was never written.
\<close>

definition omf_grpdefs_context_get_grpdef_segdef ::
    "omf_grpdefs_context_t \<Rightarrow> omf_grpdef_t \<Rightarrow> nat \<Rightarrow> c_error + u16" where
  "omf_grpdefs_context_get_grpdef_segdef ctx grp i =
     (case segdefs ctx of
        None \<Rightarrow> Inl ERANGE
      | Some sd \<Rightarrow>
          if i \<ge> gd_count grp then Inl ERANGE
          else if gd_index grp + i > segdefs_count ctx then Inl ERANGE
          else if gd_index grp + i = segdefs_count ctx then Inl UNDEF
          else Inr (sd ! (gd_index grp + i)))"

text \<open>The group pointer is the place of the group in the array, counted from 0.\<close>

definition omf_grpdefs_context_add_grpdef_segdef ::
    "omf_grpdefs_context_t \<Rightarrow> nat \<Rightarrow> u32 \<Rightarrow> (c_error + unit) \<times> omf_grpdefs_context_t" where
  "omf_grpdefs_context_add_grpdef_segdef ctx k segdef =
     (if segdef = 0 then (Inl EINVAL, ctx)
      else if segdefs ctx = None then (Inl ENOSPC, ctx)
      else if segdefs_count ctx \<ge> segdefs_alloc ctx then (Inl ENOSPC, ctx)
      else if omf_GRPDEFS_count ctx = 0 \<or> k \<noteq> omf_GRPDEFS_count ctx - 1 then (Inl EINVAL, ctx)
      else let gs = entries_of (omf_GRPDEFS ctx); grp = gs ! k in
        if gd_index grp > segdefs_count ctx \<or> gd_count grp > segdefs_count ctx
           \<or> gd_index grp + gd_count grp > segdefs_count ctx then (Inl EINVAL, ctx)
        else (Inr (), ctx\<lparr>
               segdefs := Some (entries_of (segdefs ctx) @ [ucast segdef]),
               omf_GRPDEFS := Some (gs[k := grp\<lparr>gd_count := gd_count grp + 1\<rparr>])\<rparr>))"

definition omf_grpdefs_context_add_grpdef ::
    "allocator \<Rightarrow> omf_grpdefs_context_t \<Rightarrow> (c_error + nat) \<times> omf_grpdefs_context_t" where
  "omf_grpdefs_context_add_grpdef mal ctx =
     (case omf_grpdefs_context_alloc_grpdefs mal ctx of
        (Inl e, ctx) \<Rightarrow> (Inl e, ctx)
      | (Inr _, ctx) \<Rightarrow>
          if omf_GRPDEFS_count ctx \<ge> omf_GRPDEFS_alloc ctx
             \<or> segdefs_count ctx \<ge> segdefs_alloc ctx then (Inl ERANGE, ctx)
          else (Inr (omf_GRPDEFS_count ctx),
                ctx\<lparr>omf_GRPDEFS := Some (entries_of (omf_GRPDEFS ctx) @
                  [\<lparr>group_name_index = 0, gd_index = segdefs_count ctx, gd_count = 0\<rparr>])\<rparr>))"

definition omf_grpdefs_context_get_grpdef ::
    "omf_grpdefs_context_t \<Rightarrow> nat \<Rightarrow> c_error + omf_grpdef_t" where
  "omf_grpdefs_context_get_grpdef ctx i =
     (case omf_GRPDEFS ctx of
        None \<Rightarrow> Inl ERANGE
      | Some gs \<Rightarrow>
          if i = 0 then Inl ERANGE
          else let i = i - 1 in
            if i \<ge> omf_GRPDEFS_count ctx then Inl ERANGE else Inr (gs ! i))"

definition omf_grpdefs_context_get_highest_index :: "omf_grpdefs_context_t \<Rightarrow> nat" where
  "omf_grpdefs_context_get_highest_index ctx = omf_GRPDEFS_count ctx"

definition omf_grpdefs_context_get_next_add_index :: "omf_grpdefs_context_t \<Rightarrow> nat" where
  "omf_grpdefs_context_get_next_add_index ctx = omf_GRPDEFS_count ctx + 1"

section \<open>Creating and destroying the tables\<close>

text \<open>
  \<^verbatim>\<open>malloc\<close> gives the new structure arbitrary contents: the argument \<open>fresh\<close>, or \<open>None\<close> for a
  failing allocation. A destroyed table is gone; the result is NULL.
\<close>

definition omf_segdefs_context_create :: "omf_segdefs_context_t option \<Rightarrow> omf_segdefs_context_t option" where
  "omf_segdefs_context_create fresh = map_option omf_segdefs_context_init fresh"

definition omf_segdefs_context_destroy :: "omf_segdefs_context_t option \<Rightarrow> omf_segdefs_context_t option" where
  "omf_segdefs_context_destroy ctx = None"

definition omf_extdefs_context_create :: "omf_extdefs_context_t option \<Rightarrow> omf_extdefs_context_t option" where
  "omf_extdefs_context_create fresh = map_option omf_extdefs_context_init fresh"

definition omf_extdefs_context_destroy :: "omf_extdefs_context_t option \<Rightarrow> omf_extdefs_context_t option" where
  "omf_extdefs_context_destroy ctx = None"

definition omf_pubdefs_context_create :: "omf_pubdefs_context_t option \<Rightarrow> omf_pubdefs_context_t option" where
  "omf_pubdefs_context_create fresh = map_option omf_pubdefs_context_init fresh"

definition omf_pubdefs_context_destroy :: "omf_pubdefs_context_t option \<Rightarrow> omf_pubdefs_context_t option" where
  "omf_pubdefs_context_destroy ctx = None"

definition omf_fixupps_context_create :: "omf_fixupps_context_t option \<Rightarrow> omf_fixupps_context_t option" where
  "omf_fixupps_context_create fresh = map_option omf_fixupps_context_init fresh"

definition omf_fixupps_context_destroy :: "omf_fixupps_context_t option \<Rightarrow> omf_fixupps_context_t option" where
  "omf_fixupps_context_destroy ctx = None"

definition omf_lnames_context_create :: "omf_lnames_context_t option \<Rightarrow> omf_lnames_context_t option" where
  "omf_lnames_context_create fresh = map_option omf_lnames_context_init fresh"

definition omf_lnames_context_destroy :: "omf_lnames_context_t option \<Rightarrow> omf_lnames_context_t option" where
  "omf_lnames_context_destroy ctx = None"

definition omf_grpdefs_context_create :: "omf_grpdefs_context_t option \<Rightarrow> omf_grpdefs_context_t option" where
  "omf_grpdefs_context_create fresh = map_option omf_grpdefs_context_init fresh"

definition omf_grpdefs_context_destroy :: "omf_grpdefs_context_t option \<Rightarrow> omf_grpdefs_context_t option" where
  "omf_grpdefs_context_destroy ctx = None"

end
