(* ===== verification/OmfGroups.thy ===== *)
theory OmfGroups
  imports OmfTables
begin

text \<open>
  The invariant of the group table of \<^verbatim>\<open>ogrpdefs.c\<close>: the groups tile the shared array of
  members, one after the other and without gaps. Every operation keeps it, and under it no
  member is read outside the written part of the array.
\<close>

fun tiles :: "nat \<Rightarrow> omf_grpdef_t list \<Rightarrow> nat \<Rightarrow> bool" where
  "tiles s [] n \<longleftrightarrow> s = n"
| "tiles s (g # gs) n \<longleftrightarrow> gd_index g = s \<and> tiles (s + gd_count g) gs n"

definition wf_grpdefs :: "omf_grpdefs_context_t \<Rightarrow> bool" where
  "wf_grpdefs ctx \<longleftrightarrow> (omf_GRPDEFS ctx = None \<longleftrightarrow> segdefs ctx = None)
     \<and> tiles 0 (entries_of (omf_GRPDEFS ctx)) (segdefs_count ctx)"

definition group_members :: "omf_grpdefs_context_t \<Rightarrow> omf_grpdef_t \<Rightarrow> u16 list" where
  "group_members ctx g = take (gd_count g) (drop (gd_index g) (entries_of (segdefs ctx)))"

lemma tiles_le: "tiles s gs n \<Longrightarrow> s \<le> n"
  by (induction gs arbitrary: s) fastforce+

lemma tiles_range: "tiles s gs n \<Longrightarrow> g \<in> set gs \<Longrightarrow> s \<le> gd_index g \<and> gd_index g + gd_count g \<le> n"
proof (induction gs arbitrary: s)
  case (Cons h gs)
  show ?case
  proof (cases "g = h")
    case True
    with Cons.prems(1) tiles_le show ?thesis by auto
  next
    case False
    with Cons.prems Cons.IH [of "s + gd_count h"] show ?thesis by auto
  qed
qed simp

lemma tiles_append: "tiles s (gs @ hs) n \<longleftrightarrow> (\<exists>m. tiles s gs m \<and> tiles m hs n)"
  by (induction gs arbitrary: s) auto

lemma tiles_snoc_new: "tiles s gs n \<Longrightarrow> gd_index g = n \<Longrightarrow> gd_count g = 0 \<Longrightarrow> tiles s (gs @ [g]) n"
  by (auto simp: tiles_append)

lemma tiles_last_grows:
  assumes "tiles s (gs @ [g]) n"
  shows "tiles s (gs @ [g\<lparr>gd_count := gd_count g + 1\<rparr>]) (n + 1)"
    and "gd_index g + gd_count g = n"
  using assms by (auto simp: tiles_append)

lemma tiles_members:
  assumes "tiles s gs n" and "length sd = n"
  shows "concat (map (\<lambda>g. take (gd_count g) (drop (gd_index g) sd)) gs) = drop s sd"
  using assms
proof (induction gs arbitrary: s)
  case (Cons g gs)
  then have "concat (map (\<lambda>g. take (gd_count g) (drop (gd_index g) sd)) gs)
      = drop (s + gd_count g) sd" by simp
  moreover have "take (gd_count g) (drop s sd) @ drop (s + gd_count g) sd = drop s sd"
    using append_take_drop_id [of "gd_count g" "drop s sd"]
    by (simp only: drop_drop add.commute)
  ultimately show ?case
    using Cons.prems by simp
qed simp

lemma wf_grpdefs_init: "wf_grpdefs (omf_grpdefs_context_init ctx)"
  by (simp add: wf_grpdefs_def omf_grpdefs_context_init_def segdefs_count_def)

lemma wf_grpdefs_free: "wf_grpdefs (omf_grpdefs_context_free_entries ctx)"
  by (simp add: wf_grpdefs_def omf_grpdefs_context_free_entries_def segdefs_count_def)

lemma alloc_grpdefs_wf:
  assumes "wf_grpdefs ctx" and "omf_grpdefs_context_alloc_grpdefs mal ctx = (r, ctx')"
  shows "wf_grpdefs ctx' \<and> entries_of (omf_GRPDEFS ctx') = entries_of (omf_GRPDEFS ctx)
    \<and> entries_of (segdefs ctx') = entries_of (segdefs ctx)
    \<and> omf_GRPDEFS_alloc ctx' = omf_GRPDEFS_alloc ctx \<and> segdefs_alloc ctx' = segdefs_alloc ctx
    \<and> (r = Inr () \<longrightarrow> omf_GRPDEFS ctx' \<noteq> None \<and> segdefs ctx' \<noteq> None)"
  using assms
  by (auto simp: omf_grpdefs_context_alloc_grpdefs_def omf_grpdefs_context_free_entries_def
      wf_grpdefs_def segdefs_count_def Let_def split: if_splits option.splits)

lemma add_grpdef_Inr:
  assumes "wf_grpdefs ctx" and "omf_grpdefs_context_add_grpdef mal ctx = (Inr k, ctx')"
  shows "k = omf_GRPDEFS_count ctx
    \<and> entries_of (omf_GRPDEFS ctx') = entries_of (omf_GRPDEFS ctx)
        @ [\<lparr>group_name_index = 0, gd_index = segdefs_count ctx, gd_count = 0\<rparr>]
    \<and> entries_of (segdefs ctx') = entries_of (segdefs ctx)
    \<and> segdefs ctx' \<noteq> None \<and> omf_GRPDEFS ctx' \<noteq> None"
proof -
  obtain r c where a: "omf_grpdefs_context_alloc_grpdefs mal ctx = (r, c)"
    by (cases "omf_grpdefs_context_alloc_grpdefs mal ctx") auto
  show ?thesis
    using assms(2) alloc_grpdefs_wf [OF assms(1) a] a
    by (auto simp: omf_grpdefs_context_add_grpdef_def omf_GRPDEFS_count_def segdefs_count_def
        split: sum.splits if_splits)
qed

lemma add_grpdef_Inl:
  assumes "wf_grpdefs ctx" and "omf_grpdefs_context_add_grpdef mal ctx = (Inl e, ctx')"
  shows "wf_grpdefs ctx'"
proof -
  obtain r c where a: "omf_grpdefs_context_alloc_grpdefs mal ctx = (r, c)"
    by (cases "omf_grpdefs_context_alloc_grpdefs mal ctx") auto
  show ?thesis
    using assms(2) alloc_grpdefs_wf [OF assms(1) a] a
    by (auto simp: omf_grpdefs_context_add_grpdef_def split: sum.splits if_splits)
qed

lemma add_grpdef_wf:
  assumes "wf_grpdefs ctx" and "omf_grpdefs_context_add_grpdef mal ctx = (r, ctx')"
  shows "wf_grpdefs ctx'"
proof (cases r)
  case (Inr k)
  with assms add_grpdef_Inr [of ctx mal k ctx'] show ?thesis
    by (auto simp: wf_grpdefs_def segdefs_count_def intro!: tiles_snoc_new)
qed (use assms add_grpdef_Inl in blast)

lemma last_group_split:
  assumes "gs \<noteq> []" and "k = length gs - 1"
  shows "gs = take k gs @ [gs ! k]" and "gs[k := g] = take k gs @ [g]"
  using assms
  by (auto simp: take_Suc_conv_app_nth list_update_beyond upd_conv_take_nth_drop
      simp flip: take_Suc_conv_app_nth)

text \<open>On the last group, with room, adding a member succeeds and appends it to that group.\<close>

lemma add_grpdef_segdef_eq:
  assumes wf: "wf_grpdefs ctx" and "omf_GRPDEFS_count ctx \<noteq> 0" and "k = omf_GRPDEFS_count ctx - 1"
    and "segdef \<noteq> 0" and "segdefs_count ctx < segdefs_alloc ctx"
  shows "omf_grpdefs_context_add_grpdef_segdef ctx k segdef =
    (Inr (), ctx\<lparr>segdefs := Some (entries_of (segdefs ctx) @ [ucast segdef]),
       omf_GRPDEFS := Some (take k (entries_of (omf_GRPDEFS ctx)) @
         [(entries_of (omf_GRPDEFS ctx) ! k)
            \<lparr>gd_count := gd_count (entries_of (omf_GRPDEFS ctx) ! k) + 1\<rparr>])\<rparr>)"
proof -
  let ?gs = "entries_of (omf_GRPDEFS ctx)"
  have gs: "?gs \<noteq> []" and k: "k = length ?gs - 1"
    using assms(2,3) by (auto simp: omf_GRPDEFS_count_def)
  from wf have "tiles 0 (take k ?gs @ [?gs ! k]) (segdefs_count ctx)"
    using last_group_split(1) [OF gs k] by (simp add: wf_grpdefs_def)
  from tiles_last_grows(2) [OF this]
  have "gd_index (?gs ! k) + gd_count (?gs ! k) = segdefs_count ctx" .
  moreover have "segdefs ctx \<noteq> None"
    using wf gs by (auto simp: wf_grpdefs_def)
  ultimately show ?thesis
    using assms last_group_split(2) [OF gs k]
    by (auto simp: omf_grpdefs_context_add_grpdef_segdef_def Let_def)
qed

lemma add_grpdef_segdef_wf:
  assumes wf: "wf_grpdefs ctx" and op: "omf_grpdefs_context_add_grpdef_segdef ctx k segdef = (r, ctx')"
  shows "wf_grpdefs ctx'"
proof (cases r)
  case (Inl e)
  with wf op show ?thesis
    by (auto simp: omf_grpdefs_context_add_grpdef_segdef_def Let_def split: if_splits)
next
  case (Inr u)
  with op have g: "omf_GRPDEFS_count ctx \<noteq> 0" "k = omf_GRPDEFS_count ctx - 1" "segdef \<noteq> 0"
      "segdefs_count ctx < segdefs_alloc ctx"
    by (auto simp: omf_grpdefs_context_add_grpdef_segdef_def Let_def split: if_splits)
  let ?gs = "entries_of (omf_GRPDEFS ctx)"
  have "tiles 0 (take k ?gs @ [?gs ! k]) (segdefs_count ctx)"
    using wf g last_group_split(1) [of ?gs k] by (simp add: wf_grpdefs_def omf_GRPDEFS_count_def)
  from tiles_last_grows(1) [OF this] show ?thesis
    using op add_grpdef_segdef_eq [OF wf g(1,2,3,4)]
    by (auto simp: wf_grpdefs_def segdefs_count_def)
qed

text \<open>Under the invariant no member is read past the written part of the array.\<close>

lemma get_grpdef_segdef_eq:
  assumes "wf_grpdefs ctx" and "g \<in> set (entries_of (omf_GRPDEFS ctx))"
  shows "omf_grpdefs_context_get_grpdef_segdef ctx g i =
    (if i < gd_count g then Inr (group_members ctx g ! i) else Inl ERANGE)"
proof -
  have "gd_index g + gd_count g \<le> segdefs_count ctx"
    using assms tiles_range by (auto simp: wf_grpdefs_def)
  moreover obtain sd where "segdefs ctx = Some sd"
    using assms by (auto simp: wf_grpdefs_def)
  ultimately show ?thesis
    by (auto simp: omf_grpdefs_context_get_grpdef_segdef_def group_members_def segdefs_count_def)
qed

lemma groups_partition:
  assumes "wf_grpdefs ctx"
  shows "concat (map (group_members ctx) (entries_of (omf_GRPDEFS ctx))) = entries_of (segdefs ctx)"
proof -
  have "group_members ctx = (\<lambda>g. take (gd_count g) (drop (gd_index g) (entries_of (segdefs ctx))))"
    by (rule ext) (simp add: group_members_def)
  moreover have "concat (map (\<lambda>g. take (gd_count g) (drop (gd_index g) (entries_of (segdefs ctx))))
      (entries_of (omf_GRPDEFS ctx))) = drop 0 (entries_of (segdefs ctx))"
    using assms by (intro tiles_members) (auto simp: wf_grpdefs_def segdefs_count_def)
  ultimately show ?thesis by simp
qed

lemma get_grpdef_eq:
  "omf_grpdefs_context_get_grpdef ctx i =
     (if 0 < i \<and> i \<le> length (entries_of (omf_GRPDEFS ctx))
      then Inr (entries_of (omf_GRPDEFS ctx) ! (i - 1)) else Inl ERANGE)"
  by (auto simp: omf_grpdefs_context_get_grpdef_def omf_GRPDEFS_count_def Let_def
      split: option.splits)

end
