(* ===== verification/OmfContext.thy ===== *)
theory OmfContext
  imports OmfRecord OmfGroups
begin

text \<open>
  The parser state of an OMF module, \<^verbatim>\<open>struct omf_context_t\<close>, with the operations of
  \<^verbatim>\<open>omfctx.c\<close> that create, clear and free it and those of \<^verbatim>\<open>omfctxnm.c\<close> that look names up
  through the tables.
\<close>

section \<open>State\<close>

record omf_context_t =
  last_error :: "string option"
  LNAMEs :: omf_lnames_context_t
  SEGDEFs :: omf_segdefs_context_t
  GRPDEFs :: omf_grpdefs_context_t
  EXTDEFs :: omf_extdefs_context_t
  PUBDEFs :: omf_pubdefs_context_t
  FIXUPPs :: omf_fixupps_context_t
  ctx_record :: omf_record_t
  library_block_size :: u16
  last_LEDATA_seg :: u16
  last_LEDATA_rec :: u64
  last_LEDATA_eno :: u64
  last_LEDATA_hdr :: u8
  THEADR :: "cstr option"
  flags_verbose :: bool

definition omf_context_init :: "omf_context_t \<Rightarrow> omf_context_t" where
  "omf_context_init ctx = ctx\<lparr>
     FIXUPPs := omf_fixupps_context_init (FIXUPPs ctx),
     PUBDEFs := omf_pubdefs_context_init (PUBDEFs ctx),
     EXTDEFs := omf_extdefs_context_init (EXTDEFs ctx),
     GRPDEFs := omf_grpdefs_context_init (GRPDEFs ctx),
     SEGDEFs := omf_segdefs_context_init (SEGDEFs ctx),
     LNAMEs := omf_lnames_context_init (LNAMEs ctx),
     ctx_record := omf_record_init (ctx_record ctx),
     last_LEDATA_seg := 0, last_LEDATA_rec := 0, last_LEDATA_eno := 0, last_LEDATA_hdr := 0,
     last_error := None, flags_verbose := False, library_block_size := 0, THEADR := None\<rparr>"

definition omf_context_free :: "omf_context_t \<Rightarrow> omf_context_t" where
  "omf_context_free ctx = ctx\<lparr>
     FIXUPPs := omf_fixupps_context_free (FIXUPPs ctx),
     PUBDEFs := omf_pubdefs_context_free (PUBDEFs ctx),
     EXTDEFs := omf_extdefs_context_free (EXTDEFs ctx),
     GRPDEFs := omf_grpdefs_context_free (GRPDEFs ctx),
     SEGDEFs := omf_segdefs_context_free (SEGDEFs ctx),
     LNAMEs := omf_lnames_context_free (LNAMEs ctx),
     ctx_record := omf_record_free (ctx_record ctx),
     THEADR := cstr_free (THEADR ctx),
     last_LEDATA_seg := 0, last_LEDATA_rec := 0, last_LEDATA_eno := 0, last_LEDATA_hdr := 0\<rparr>"

text \<open>
  \<^verbatim>\<open>malloc\<close> gives the new structure arbitrary contents: the argument \<open>fresh\<close>, or \<open>None\<close> for a
  failing allocation.
\<close>

definition omf_context_create :: "omf_context_t option \<Rightarrow> omf_context_t option" where
  "omf_context_create fresh = map_option omf_context_init fresh"

definition omf_context_destroy :: "omf_context_t option \<Rightarrow> omf_context_t option" where
  "omf_context_destroy ctx = None"

definition omf_context_clear_for_module :: "omf_context_t \<Rightarrow> omf_context_t" where
  "omf_context_clear_for_module ctx = ctx\<lparr>
     FIXUPPs := omf_fixupps_context_free_entries (FIXUPPs ctx),
     PUBDEFs := omf_pubdefs_context_free_entries (PUBDEFs ctx),
     EXTDEFs := omf_extdefs_context_free_entries (EXTDEFs ctx),
     GRPDEFs := omf_grpdefs_context_free_entries (GRPDEFs ctx),
     SEGDEFs := omf_segdefs_context_free_entries (SEGDEFs ctx),
     LNAMEs := omf_lnames_context_free_names (LNAMEs ctx),
     ctx_record := omf_record_clear (ctx_record ctx),
     last_LEDATA_seg := 0, last_LEDATA_rec := 0, last_LEDATA_eno := 0, last_LEDATA_hdr := 0,
     THEADR := cstr_free (THEADR ctx)\<rparr>"

definition omf_context_clear :: "omf_context_t \<Rightarrow> omf_context_t" where
  "omf_context_clear ctx = (omf_context_clear_for_module ctx)\<lparr>library_block_size := 0\<rparr>"

definition omf_context_begin_file :: "omf_context_t \<Rightarrow> omf_context_t" where
  "omf_context_begin_file ctx = omf_context_clear ctx"

definition omf_context_begin_module :: "omf_context_t \<Rightarrow> omf_context_t" where
  "omf_context_begin_module ctx = omf_context_clear_for_module ctx"

section \<open>Names (\<^verbatim>\<open>omfctxnm.c\<close>)\<close>

text \<open>A group index of 0 means that the segment is in no group: the empty name.\<close>

definition omf_context_get_grpdef_name :: "omf_context_t \<Rightarrow> nat \<Rightarrow> cstr option" where
  "omf_context_get_grpdef_name ctx i =
     (if i > 0 then
        (case omf_grpdefs_context_get_grpdef (GRPDEFs ctx) i of
           Inl _ \<Rightarrow> None
         | Inr grpdef \<Rightarrow> omf_lnames_context_get_name (LNAMEs ctx) (unat (group_name_index grpdef)))
      else Some [])"

definition omf_context_get_grpdef_name_safe :: "omf_context_t \<Rightarrow> nat \<Rightarrow> cstr" where
  "omf_context_get_grpdef_name_safe ctx i =
     (case omf_context_get_grpdef_name ctx i of Some r \<Rightarrow> r | None \<Rightarrow> erange_name)"

definition omf_context_get_segdef_name :: "omf_context_t \<Rightarrow> nat \<Rightarrow> cstr option" where
  "omf_context_get_segdef_name ctx i =
     (case omf_segdefs_context_get_segdef (SEGDEFs ctx) i of
        Inl _ \<Rightarrow> None
      | Inr segdef \<Rightarrow> omf_lnames_context_get_name (LNAMEs ctx) (unat (segment_name_index segdef)))"

definition omf_context_get_segdef_name_safe :: "omf_context_t \<Rightarrow> nat \<Rightarrow> cstr" where
  "omf_context_get_segdef_name_safe ctx i =
     (case omf_context_get_segdef_name ctx i of Some r \<Rightarrow> r | None \<Rightarrow> erange_name)"

definition omf_context_get_extdef_name :: "omf_context_t \<Rightarrow> nat \<Rightarrow> cstr option" where
  "omf_context_get_extdef_name ctx i =
     (case omf_extdefs_context_get_extdef (EXTDEFs ctx) i of
        Inl _ \<Rightarrow> None
      | Inr extdef \<Rightarrow> ed_name_string extdef)"

definition omf_context_get_extdef_name_safe :: "omf_context_t \<Rightarrow> nat \<Rightarrow> cstr" where
  "omf_context_get_extdef_name_safe ctx i =
     (case omf_context_get_extdef_name ctx i of Some r \<Rightarrow> r | None \<Rightarrow> erange_name)"

section \<open>Well-formed contexts\<close>

text \<open>
  Every table is within its capacity, the groups tile their array, and there are four
  threads of each kind: what the parsers keep from one record to the next.
\<close>

definition wf_context :: "omf_context_t \<Rightarrow> bool" where
  "wf_context ctx \<longleftrightarrow>
     omf_LNAMES_count (LNAMEs ctx) \<le> omf_LNAMES_alloc (LNAMEs ctx)
   \<and> omf_SEGDEFS_count (SEGDEFs ctx) \<le> omf_SEGDEFS_alloc (SEGDEFs ctx)
   \<and> omf_EXTDEFS_count (EXTDEFs ctx) \<le> omf_EXTDEFS_alloc (EXTDEFs ctx)
   \<and> omf_PUBDEFS_count (PUBDEFs ctx) \<le> omf_PUBDEFS_alloc (PUBDEFs ctx)
   \<and> omf_FIXUPPS_count (FIXUPPs ctx) \<le> omf_FIXUPPS_alloc (FIXUPPs ctx)
   \<and> length (frame_thread (FIXUPPs ctx)) = 4 \<and> length (target_thread (FIXUPPs ctx)) = 4
   \<and> wf_grpdefs (GRPDEFs ctx)"

lemmas table_count_defs =
  omf_LNAMES_count_def omf_SEGDEFS_count_def omf_EXTDEFS_count_def omf_PUBDEFS_count_def
  omf_FIXUPPS_count_def

lemmas table_free_defs =
  omf_fixupps_context_free_entries_def omf_fixupps_clear_threads_def
  omf_pubdefs_context_free_entries_def omf_extdefs_context_free_entries_def
  omf_segdefs_context_free_entries_def
  omf_lnames_context_free_names_def omf_lnames_context_clear_names_def

lemma free_names_empty [simp]: "entries_of (omf_LNAMES (omf_lnames_context_free_names t)) = []"
  by (simp add: omf_lnames_context_free_names_def omf_lnames_context_clear_names_def entries_of_def)

lemma wf_context_init: "wf_context (omf_context_init ctx)"
  by (simp add: wf_context_def omf_context_init_def table_count_defs wf_grpdefs_init
      omf_fixupps_context_init_def omf_fixupps_clear_threads_def omf_pubdefs_context_init_def
      omf_extdefs_context_init_def omf_segdefs_context_init_def omf_lnames_context_init_def)

lemma wf_context_clear_for_module: "wf_context (omf_context_clear_for_module ctx)"
  by (simp add: wf_context_def omf_context_clear_for_module_def table_count_defs wf_grpdefs_free
      omf_fixupps_context_free_entries_def omf_fixupps_clear_threads_def
      omf_pubdefs_context_free_entries_def omf_extdefs_context_free_entries_def
      omf_segdefs_context_free_entries_def)

text \<open>Between modules nothing of the previous module can be looked up.\<close>

lemma clear_for_module_names:
  assumes "0 < i"
  shows "omf_context_get_segdef_name (omf_context_clear_for_module ctx) i = None"
    and "omf_context_get_extdef_name (omf_context_clear_for_module ctx) i = None"
    and "omf_context_get_grpdef_name (omf_context_clear_for_module ctx) i = None"
    and "omf_lnames_context_get_name (LNAMEs (omf_context_clear_for_module ctx)) i = None"
  using assms
  by (simp_all add: omf_context_get_segdef_name_def omf_context_get_extdef_name_def
      omf_context_get_grpdef_name_def omf_context_clear_for_module_def segdefs.get_after_free
      extdefs.get_after_free get_grpdef_eq omf_grpdefs_context_free_entries_def get_name_eq)

end
