(* ===== verification/OmfWriter.thy ===== *)
theory OmfWriter
  imports OmfRecord
begin

text \<open>
  The record writers of \<^verbatim>\<open>fmt/omf/omfrecw.c\<close> as list operations: under \<open>wf_writer\<close> each of
  them appends its bytes to \<open>written\<close> or, when they do not fit, fails and writes nothing. The
  encodings are inverse to the readers of \<open>OmfRecord\<close>, and the checksum makes a record sum
  to 0.
\<close>

section \<open>The abstract view of a writer\<close>

definition wf_writer :: "omf_record_t \<Rightarrow> bool" where
  "wf_writer rec \<longleftrightarrow>
     (case data rec of None \<Rightarrow> False
      | Some d \<Rightarrow> length d = data_alloc rec \<and> data_alloc rec \<le> 0xFF00
                 \<and> unat (recpos rec) < data_alloc rec)"

definition written :: "omf_record_t \<Rightarrow> u8 list" where
  "written rec = take (unat (recpos rec)) (the (data rec))"

text \<open>Room for \<open>k\<close> more bytes, one byte being kept for the checksum.\<close>

definition room :: "omf_record_t \<Rightarrow> nat" where
  "room rec = data_alloc rec - unat (recpos rec) - 1"

definition emit :: "u8 list \<Rightarrow> omf_record_t \<Rightarrow> omf_record_t" where
  "emit bs rec = rec\<lparr>
     data := map_option (\<lambda>d. take (unat (recpos rec)) d @ bs
                             @ drop (unat (recpos rec) + length bs) d) (data rec),
     recpos := recpos rec + of_nat (length bs)\<rparr>"

lemma emit_fields [simp]:
  "rectype (emit bs rec) = rectype rec" "reclen (emit bs rec) = reclen rec"
  "data_alloc (emit bs rec) = data_alloc rec"
  "rec_file_offset (emit bs rec) = rec_file_offset rec"
  by (simp_all add: emit_def)

lemma unat_recpos_emit:
  assumes "wf_writer rec" and "length bs \<le> room rec"
  shows "unat (recpos (emit bs rec)) = unat (recpos rec) + length bs"
proof -
  have "unat (recpos rec) + length bs < 65536"
    using assms by (auto simp: wf_writer_def room_def split: option.splits)
  then show ?thesis
    by (simp add: emit_def unat_word_ariths unat_of_nat)
qed

lemma wf_writer_emit:
  assumes "wf_writer rec" and "length bs \<le> room rec"
  shows "wf_writer (emit bs rec)"
  using assms unat_recpos_emit [OF assms]
  by (auto simp: wf_writer_def room_def emit_def split: option.splits)

lemma room_emit:
  assumes "wf_writer rec" and "length bs \<le> room rec"
  shows "room (emit bs rec) = room rec - length bs"
  using unat_recpos_emit [OF assms] by (simp add: room_def)

lemma written_emit:
  assumes "wf_writer rec" and "length bs \<le> room rec"
  shows "written (emit bs rec) = written rec @ bs"
  using assms unat_recpos_emit [OF assms]
  by (auto simp: wf_writer_def written_def emit_def split: option.splits)

lemma emit_Nil [simp]: "emit [] rec = rec"
  by (simp add: emit_def option.map_ident)

lemma emit_emit:
  assumes "wf_writer rec" and "length bs + length cs \<le> room rec"
  shows "emit cs (emit bs rec) = emit (bs @ cs) rec"
proof -
  have p: "unat (recpos rec + of_nat (length bs)) = unat (recpos rec) + length bs"
    using unat_recpos_emit [of rec bs] assms by (simp add: emit_def)
  obtain d where "data rec = Some d" "unat (recpos rec) + length bs + length cs \<le> length d"
    using assms by (auto simp: wf_writer_def room_def split: option.splits)
  then show ?thesis
    by (simp add: emit_def p add.assoc algebra_simps)
qed

section \<open>The writers append\<close>

lemma list_update_as_append:
  "i < length d \<Longrightarrow> d[i := c] = take i d @ [c] @ drop (Suc i) d"
  by (simp add: upd_conv_take_nth_drop)

lemma write_byte_fast_emit:
  assumes "wf_writer rec"
  shows "omf_record_write_byte_fast rec c = emit [c] rec"
  using assms
  by (auto simp: wf_writer_def omf_record_write_byte_fast_def emit_def list_update_as_append
      split: option.splits)

lemma write_byte_emit:
  assumes "wf_writer rec"
  shows "omf_record_write_byte rec c =
    (if room rec \<ge> 1 then (Inr (), emit [c] rec) else (Inl EPLAIN, rec))"
  using assms write_byte_fast_emit [OF assms, of c]
  by (auto simp: wf_writer_def omf_record_write_byte_def room_def split: option.splits)

lemma write_word_emit:
  assumes "wf_writer rec"
  shows "omf_record_write_word rec c =
    (if room rec \<ge> 2 then (Inr (), emit (bytes16 c) rec) else (Inl EPLAIN, rec))"
  using assms
  by (auto simp: wf_writer_def omf_record_write_word_def omf_record_write_word_fast_def
      room_def emit_def bytes16_def upd_conv_take_nth_drop take_Suc_conv_app_nth
      split: option.splits)


lemma list_update4_append:
  assumes "p + 3 < length d"
  shows "d[p := a, p + 1 := b, p + 2 := c, p + 3 := e] = take p d @ [a, b, c, e] @ drop (p + 4) d"
proof (rule nth_equalityI)
  fix i assume "i < length (d[p := a, p + 1 := b, p + 2 := c, p + 3 := e])"
  then have i: "i < length d" by simp
  consider "i < p" | "i = p" | "i = p + 1" | "i = p + 2" | "i = p + 3" | "p + 4 \<le> i"
    by linarith
  then show "d[p := a, p + 1 := b, p + 2 := c, p + 3 := e] ! i
      = (take p d @ [a, b, c, e] @ drop (p + 4) d) ! i"
  proof cases
    case 6
    then obtain k where "i = p + 4 + k" using le_Suc_ex by blast
    with i show ?thesis by (simp add: nth_append)
  qed (use assms i in \<open>simp_all add: nth_append nth_list_update\<close>)
qed (use assms in simp)

lemma write_dword_emit:
  assumes "wf_writer rec"
  shows "omf_record_write_dword rec c =
    (if room rec \<ge> 4 then (Inr (), emit (bytes32 (ucast c)) rec) else (Inl EPLAIN, rec))"
proof -
  obtain d where d: "data rec = Some d" "length d = data_alloc rec"
    using assms by (auto simp: wf_writer_def split: option.splits)
  have s4: "Suc (Suc (Suc (Suc n))) = n + 4" for n
    by simp
  from d have "omf_record_write_dword_fast rec c = emit (bytes32 (ucast c)) rec"
    if "unat (recpos rec) + 3 < length d"
    by (simp add: omf_record_write_dword_fast_def Let_def emit_def bytes32_def
        list_update4_append [OF that, simplified] s4)
  with d show ?thesis
    by (auto simp: omf_record_write_dword_def room_def)
qed

definition bytes_index :: "u16 \<Rightarrow> u8 list" where
  "bytes_index c =
     (if c \<ge> 0x80 then [ucast (0x80 + (drop_bit 8 c AND 0x7F)), ucast (c AND 0xFF)]
      else [ucast c])"

lemma length_bytes_index: "length (bytes_index c) \<in> {1, 2}"
  by (simp add: bytes_index_def)

lemma write_index_emit:
  assumes wf: "wf_writer rec"
  shows "omf_record_write_index rec c =
    (if room rec \<ge> 2 then (Inr (), emit (bytes_index c) rec) else (Inl EPLAIN, rec))"
proof (cases "room rec \<ge> 2")
  case True
  then have "wf_writer (emit [b] rec)" for b
    using wf by (simp add: wf_writer_emit)
  with True wf show ?thesis
    using emit_emit [of rec "[_]" "[_]"]
    by (auto simp: wf_writer_def omf_record_write_index_def room_def bytes_index_def
        write_byte_fast_emit emit_emit split: option.splits)
next
  case False
  with wf show ?thesis
    by (auto simp: wf_writer_def omf_record_write_index_def room_def split: option.splits)
qed

section \<open>Round trips of the encodings\<close>

lemma index_hi_byte:
  "(ucast (0x80 + take_bit 7 x :: u16) :: u8) = set_bit 7 (ucast (take_bit 7 x))"
proof -
  have "(0x80 :: u16) + take_bit 7 x = 0x80 OR take_bit 7 x"
    by (rule disjunctive_add) (auto simp: word_conv bit_take_bit_iff)
  then show ?thesis
    by (intro bit_word_eqI) (auto simp: word_conv bit_simps)
qed

lemma get_index_list_bytes_index:
  assumes "c < 0x8000"
  shows "get_index_list (bytes_index c @ rest) = (ucast c, length (bytes_index c))"
proof (cases "c \<ge> 0x80")
  case True
  have high: "\<not> bit c n" if "15 \<le> n" for n
    using word_less_pow_bit [of c 15 n] assms that by simp
  have *: "push_bit 8 (take_bit 7 (ucast (set_bit 7 (ucast (take_bit 7 (drop_bit 8 c)) :: u8))))
      + ucast (ucast (take_bit 8 c) :: u8) = (ucast c :: u32)" (is "?hi + ?lo = _")
  proof -
    have "?hi + ?lo = ?hi OR ?lo"
      by (rule disjunctive_add) (auto simp: bit_simps)
    also have "\<dots> = ucast c"
    proof (rule bit_word_eqI)
      fix n assume "n < LENGTH(32)"
      show "bit (?hi OR ?lo) n = bit (ucast c :: u32) n"
        using high [of n] by (cases "n < 8"; cases "n < 15") (auto simp: bit_simps)
    qed
    finally show ?thesis .
  qed
  have "bit (set_bit 7 (x :: u8)) 7" for x
    by (simp add: bit_simps)
  with True * show ?thesis
    by (simp add: bytes_index_def index_hi_byte word_conv)
next
  case False
  then have "c < 2 ^ 7" by simp
  then have bits: "n < 7" if "bit c n" for n
    using word_less_pow_bit [of c 7 n] that by (cases "n < 7") auto
  then have "\<not> bit (ucast c :: u8) 7" "(ucast (ucast c :: u8) :: u32) = ucast c"
    by (auto simp: bit_simps intro!: bit_word_eqI dest!: bits)
  with False show ?thesis by (simp add: bytes_index_def word_conv)
qed

lemma get_dword_list_bytes32 [simp]: "get_dword_list (bytes32 w @ rest) = ucast w"
  by (simp add: get_dword_list_def bytes32_def)

section \<open>The checksum\<close>

text \<open>A record as it stands in a file: type, length with the checksum, contents, checksum.\<close>

definition record_bytes :: "omf_record_t \<Rightarrow> u8 list" where
  "record_bytes rec = rectype rec # bytes16 (reclen rec + 1)
     @ take (unat (reclen rec) + 1) (the (data rec))"

lemma ucast_low_byte: "(ucast (l AND 0xFF) :: u8) = ucast (l :: u16)"
  by (rule bit_word_eqI) (auto simp: word_conv bit_simps)

lemma update_checksum_fields [simp]:
  "rectype (omf_record_write_update_checksum rec) = rectype rec"
  "reclen (omf_record_write_update_checksum rec) = reclen rec"
  "recpos (omf_record_write_update_checksum rec) = recpos rec"
  "data_alloc (omf_record_write_update_checksum rec) = data_alloc rec"
  by (simp_all add: omf_record_write_update_checksum_def Let_def)

lemma update_checksum_sum:
  assumes "data rec = Some d" and "unat (reclen rec) < length d"
  shows "sum_list (record_bytes (omf_record_write_update_checksum rec)) = 0"
  using assms
  by (simp add: record_bytes_def omf_record_write_update_checksum_def Let_def bytes16_def
      ucast_low_byte take_Suc_conv_app_nth)

text \<open>The contents below the checksum byte are left alone.\<close>

lemma update_checksum_contents:
  "take (unat (reclen rec)) (the (data (omf_record_write_update_checksum rec)))
   = take (unat (reclen rec)) (the (data rec))" if "data rec = Some d"
  using that by (simp add: omf_record_write_update_checksum_def Let_def)

end
