(* ===== verification/OmfFile.thy ===== *)
theory OmfFile
  imports OmfContext OmfWriter
begin

text \<open>
  Records in a file: \<^verbatim>\<open>omfctxrf.c\<close> (read the next record and check it), \<^verbatim>\<open>omfctxlf.c\<close> (seek to
  the next module of a library) and \<^verbatim>\<open>omfctxwf.c\<close> (write a record), over a model of an open
  file.
\<close>

section \<open>Open files\<close>

text \<open>
  A file is its bytes and the current position. \<open>fd_bad\<close> tells the positions at which
  \<^verbatim>\<open>read\<close> fails, \<open>fd_limit\<close> the size past which \<^verbatim>\<open>write\<close> comes back short.
\<close>

record fd_t =
  fd_bytes :: "u8 list"
  fd_pos :: nat
  fd_bad :: "nat \<Rightarrow> bool"
  fd_limit :: nat

definition fd_read :: "nat \<Rightarrow> fd_t \<Rightarrow> (c_error + u8 list) \<times> fd_t" where
  "fd_read n fd =
     (if fd_bad fd (fd_pos fd) then (Inl EIO, fd)
      else let bs = take n (drop (fd_pos fd) (fd_bytes fd))
           in (Inr bs, fd\<lparr>fd_pos := fd_pos fd + length bs\<rparr>))"

text \<open>\<^verbatim>\<open>write\<close> returns the number of bytes it wrote; a gap below the position is zero-filled.\<close>

definition fd_write :: "u8 list \<Rightarrow> fd_t \<Rightarrow> nat \<times> fd_t" where
  "fd_write bs fd =
     (let bs = take (fd_limit fd - fd_pos fd) bs;
          old = fd_bytes fd @ replicate (fd_pos fd - length (fd_bytes fd)) 0
      in (length bs, fd\<lparr>
            fd_bytes := (if bs = [] then fd_bytes fd
                         else take (fd_pos fd) old @ bs @ drop (fd_pos fd + length bs) old),
            fd_pos := fd_pos fd + length bs\<rparr>))"

text \<open>\<^verbatim>\<open>lseek(fd,ofs,SEEK_SET)\<close>: an offset that is negative as \<^verbatim>\<open>off_t\<close> is refused.\<close>

definition fd_seek_set :: "u64 \<Rightarrow> fd_t \<Rightarrow> bool \<times> fd_t" where
  "fd_seek_set ofs fd =
     (if bit ofs 63 then (False, fd) else (True, fd\<lparr>fd_pos := unat ofs\<rparr>))"

section \<open>Reading a record (\<^verbatim>\<open>omfctxrf.c\<close>)\<close>

definition read_checksum_ok :: "u8 list \<Rightarrow> u8 list \<Rightarrow> bool" where
  "read_checksum_ok tmp contents \<longleftrightarrow>
     last contents = 0 \<or> sum_list tmp + sum_list contents = 0"

definition rec_update :: "(omf_record_t \<Rightarrow> omf_record_t) \<Rightarrow> omf_context_t \<Rightarrow> omf_context_t" where
  "rec_update f ctx = ctx\<lparr>ctx_record := f (ctx_record ctx)\<rparr>"

text \<open>What follows the checksum: a LIBHEAD sets the block size, once; the checksum is dropped.\<close>

definition read_fd_accept :: "omf_context_t \<Rightarrow> (c_error + bool) \<times> omf_context_t" where
  "read_fd_accept ctx =
     (if rectype (ctx_record ctx) = 0xF0 \<and> library_block_size ctx \<noteq> 0 then
        (Inl EIO, ctx\<lparr>last_error := Some ''LIBHEAD defined again''\<rparr>)
      else
        let ctx = (if rectype (ctx_record ctx) = 0xF0
                   then ctx\<lparr>library_block_size := reclen (ctx_record ctx) + 3\<rparr> else ctx)
        in (Inr True, rec_update (\<lambda>r. r\<lparr>reclen := reclen r - 1\<rparr>) ctx))"

definition read_fd_contents ::
    "u8 list \<Rightarrow> omf_context_t \<Rightarrow> fd_t \<Rightarrow> (c_error + bool) \<times> omf_context_t \<times> fd_t" where
  "read_fd_contents tmp ctx fd =
     (let len = unat (reclen (ctx_record ctx)) in
      if len > data_alloc (ctx_record ctx) then
        (Inl ERANGE, ctx\<lparr>last_error :=
           Some ''Reading OMF record failed because record too large for buffer''\<rparr>, fd)
      else
        (case fd_read len fd of
           (Inl e, fd) \<Rightarrow>
             (Inl e, ctx\<lparr>last_error := Some ''Reading OMF record contents failed''\<rparr>, fd)
         | (Inr bs, fd) \<Rightarrow>
             let ctx = rec_update (\<lambda>r. r\<lparr>data :=
                   map_option (\<lambda>d. bs @ drop (length bs) d) (data r)\<rparr>) ctx in
             if length bs \<noteq> len then
               (Inl EIO, ctx\<lparr>last_error := Some ''Reading OMF record contents failed''\<rparr>, fd)
             else if \<not> read_checksum_ok tmp bs then
               (Inl EIO, ctx\<lparr>last_error := Some ''Reading OMF record checksum failed''\<rparr>, fd)
             else (case read_fd_accept ctx of (r, ctx) \<Rightarrow> (r, ctx, fd))))"

definition read_fd_header ::
    "omf_context_t \<Rightarrow> fd_t \<Rightarrow> (c_error + bool) \<times> omf_context_t \<times> fd_t" where
  "read_fd_header ctx fd =
     (let ctx = rec_update (\<lambda>r. r\<lparr>rec_file_offset := of_nat (fd_pos fd)\<rparr>) ctx in
      case fd_read 3 fd of
        (Inl e, fd) \<Rightarrow> (Inl e, ctx\<lparr>last_error := Some ''Reading OMF record header failed''\<rparr>, fd)
      | (Inr tmp, fd) \<Rightarrow>
          if length tmp \<noteq> 3 then (Inr False, ctx, fd)
          else
            let ctx = rec_update (\<lambda>r. r\<lparr>rectype := tmp ! 0,
                                         reclen := le16 (tmp ! 1) (tmp ! 2)\<rparr>) ctx in
            if rectype (ctx_record ctx) = 0 \<or> reclen (ctx_record ctx) = 0 then
              (Inr False, ctx, fd)
            else read_fd_contents tmp ctx fd)"

text \<open>The result \<open>Inr True\<close> is the C value 1 (a record was read), \<open>Inr False\<close> is 0 (no more).\<close>

definition omf_context_read_fd ::
    "allocator \<Rightarrow> omf_context_t \<Rightarrow> fd_t \<Rightarrow> (c_error + bool) \<times> omf_context_t \<times> fd_t" where
  "omf_context_read_fd mal ctx fd =
     (if rectype (ctx_record ctx) = 0xF1 then (Inr False, ctx, fd)
      else if rectype (ctx_record ctx) AND 0xFE = 0x8A then (Inr False, ctx, fd)
      else
        let ctx = rec_update omf_record_clear (ctx\<lparr>last_error := None\<rparr>);
            (r, rec) = (if data (ctx_record ctx) = None
                        then omf_record_data_alloc mal (ctx_record ctx) 0
                        else (Inr (), ctx_record ctx));
            ctx = ctx\<lparr>ctx_record := rec\<rparr>
        in (case r of
              Inl e \<Rightarrow> (Inl e, ctx, fd)
            | Inr _ \<Rightarrow>
                if data_alloc (ctx_record ctx) < 16 then
                  (Inl EINVAL, ctx\<lparr>last_error := Some ''Record buffer too small''\<rparr>, fd)
                else read_fd_header ctx fd))"

section \<open>The next module of a library (\<^verbatim>\<open>omfctxlf.c\<close>)\<close>

definition next_module_offset :: "omf_context_t \<Rightarrow> u64" where
  "next_module_offset ctx =
     (let ofs = rec_file_offset (ctx_record ctx) + 3 + ucast (reclen (ctx_record ctx));
          ofs = ofs + (ucast (library_block_size ctx) - 1)
      in ofs - ofs mod ucast (library_block_size ctx))"

definition omf_context_next_lib_module_fd ::
    "omf_context_t \<Rightarrow> fd_t \<Rightarrow> (c_error + bool) \<times> omf_context_t \<times> fd_t" where
  "omf_context_next_lib_module_fd ctx fd =
     (if rectype (ctx_record ctx) = 0xF1 then (Inr False, ctx, fd)
      else if rectype (ctx_record ctx) AND 0xFE \<noteq> 0x8A then (Inl EIO, ctx, fd)
      else if library_block_size ctx = 0 then (Inr False, ctx, fd)
      else let ofs = next_module_offset ctx in
        case fd_seek_set ofs fd of
          (False, fd) \<Rightarrow> (Inr False, ctx, fd)
        | (True, fd) \<Rightarrow>
            (Inr True,
             rec_update (\<lambda>r. r\<lparr>rec_file_offset := ofs, rectype := 0, reclen := 0\<rparr>) ctx, fd))"

section \<open>Writing a record (\<^verbatim>\<open>omfctxwf.c\<close>)\<close>

text \<open>The checksum byte is taken as it stands in the buffer; \<open>UNDEF\<close> if it lies outside.\<close>

definition omf_context_record_write_fd :: "fd_t \<Rightarrow> omf_record_t \<Rightarrow> (c_error + unit) \<times> fd_t" where
  "omf_context_record_write_fd fd rec =
     (case fd_write (rectype rec # bytes16 (reclen rec + 1)) fd of
        (n, fd) \<Rightarrow>
          if n \<noteq> 3 then (Inl EPLAIN, fd)
          else
            (case data rec of
               None \<Rightarrow> (Inl EFAULT, fd)
             | Some d \<Rightarrow>
                 if unat (reclen rec) + 1 > length d then (Inl UNDEF, fd)
                 else
                   (case fd_write (take (unat (reclen rec) + 1) d) fd of
                      (m, fd) \<Rightarrow> if m \<noteq> unat (reclen rec) + 1 then (Inl EPLAIN, fd)
                                 else (Inr (), fd))))"

section \<open>Reading what was written\<close>

lemma rec_update_simps [simp]:
  "ctx_record (rec_update f ctx) = f (ctx_record ctx)"
  "library_block_size (rec_update f ctx) = library_block_size ctx"
  "rec_update f (rec_update g ctx) = rec_update (\<lambda>r. f (g r)) ctx"
  by (simp_all add: rec_update_def)

text \<open>A record as a sequence of bytes: type, length, contents with the checksum last.\<close>

definition frame :: "u8 \<Rightarrow> u8 list \<Rightarrow> u8 list" where
  "frame ty contents = ty # bytes16 (of_nat (length contents)) @ contents"

lemma record_bytes_frame:
  assumes "data rec = Some d" and "unat (reclen rec) < length d"
  shows "record_bytes rec = frame (rectype rec) (take (unat (reclen rec) + 1) d)"
proof -
  have "min (length d) (unat (reclen rec) + 1) = unat (reclen rec) + 1"
    using assms by simp
  then show ?thesis
    using assms by (simp add: record_bytes_def frame_def add.commute)
qed

definition can_read :: "omf_context_t \<Rightarrow> bool" where
  "can_read ctx \<longleftrightarrow> rectype (ctx_record ctx) \<noteq> 0xF1 \<and> rectype (ctx_record ctx) AND 0xFE \<noteq> 0x8A
     \<and> (\<exists>d. data (ctx_record ctx) = Some d \<and> length d = data_alloc (ctx_record ctx))
     \<and> 16 \<le> data_alloc (ctx_record ctx)"

text \<open>The context after a record has been read.\<close>

definition after_read :: "u8 \<Rightarrow> u8 list \<Rightarrow> nat \<Rightarrow> omf_context_t \<Rightarrow> omf_context_t" where
  "after_read ty contents pos ctx =
     (if ty = 0xF0 then (\<lambda>c. c\<lparr>library_block_size := of_nat (length contents) + 3\<rparr>) else id)
     (ctx\<lparr>last_error := None, ctx_record := (ctx_record ctx)\<lparr>
        rectype := ty, reclen := of_nat (length contents) - 1, recpos := 0,
        data := map_option (\<lambda>d. contents @ drop (length contents) d) (data (ctx_record ctx)),
        rec_file_offset := of_nat pos\<rparr>\<rparr>)"

lemma le16_of_bytes16: "le16 (bytes16 w ! 0) (bytes16 w ! Suc 0) = w"
  by (simp add: bytes16_def)

text \<open>On a file that continues with a frame, the header is read and the contents are next.\<close>

definition after_header :: "u8 \<Rightarrow> nat \<Rightarrow> nat \<Rightarrow> omf_context_t \<Rightarrow> omf_context_t" where
  "after_header ty len pos ctx = ctx\<lparr>last_error := None, ctx_record := (ctx_record ctx)\<lparr>
     recpos := 0, rec_file_offset := of_nat pos, rectype := ty, reclen := of_nat len\<rparr>\<rparr>"

lemma read_fd_to_contents:
  assumes ctx: "can_read ctx"
    and fd: "drop (fd_pos fd) (fd_bytes fd) = frame ty contents @ rest" "\<not> fd_bad fd (fd_pos fd)"
    and ty: "ty \<noteq> 0" and len: "contents \<noteq> []" "length contents < 65536"
  shows "omf_context_read_fd mal ctx fd =
      read_fd_contents (ty # bytes16 (of_nat (length contents)))
        (after_header ty (length contents) (fd_pos fd) ctx) (fd\<lparr>fd_pos := fd_pos fd + 3\<rparr>)"
proof -
  let ?l = "of_nat (length contents) :: u16"
  have "unat ?l = length contents"
    using len by (simp add: unat_of_nat)
  with len have l0: "?l \<noteq> 0" by force
  have r1: "fd_read 3 fd = (Inr (ty # bytes16 ?l), fd\<lparr>fd_pos := fd_pos fd + 3\<rparr>)"
    using fd by (simp add: fd_read_def frame_def Let_def)
  show ?thesis
    using ctx ty l0 le16_of_bytes16 [of ?l]
    by (auto simp: omf_context_read_fd_def can_read_def read_fd_header_def r1
        after_header_def rec_update_def omf_record_clear_def Let_def numeral_2_eq_2)
qed

lemma fd_read_frame_contents:
  assumes "drop (fd_pos fd) (fd_bytes fd) = frame ty contents @ rest" "\<not> fd_bad fd (fd_pos fd + 3)"
  shows "fd_read (length contents) (fd\<lparr>fd_pos := fd_pos fd + 3\<rparr>)
      = (Inr contents, fd\<lparr>fd_pos := fd_pos fd + 3 + length contents\<rparr>)"
proof -
  have "drop (fd_pos fd + 3) (fd_bytes fd) = contents @ rest"
    using arg_cong [OF assms(1), of "drop 3"] by (simp add: frame_def add.commute numeral_3_eq_3)
  with assms(2) show ?thesis by (simp add: fd_read_def Let_def)
qed

lemma checksum_ok_frame:
  "read_checksum_ok (ty # bytes16 (of_nat (length contents))) contents
     \<longleftrightarrow> last contents = 0 \<or> sum_list (frame ty contents) = 0"
  by (auto simp: read_checksum_ok_def frame_def add.assoc)

lemma read_fd_frame:
  assumes ctx: "can_read ctx"
    and fd: "drop (fd_pos fd) (fd_bytes fd) = frame ty contents @ rest"
      "\<not> fd_bad fd (fd_pos fd)" "\<not> fd_bad fd (fd_pos fd + 3)"
    and ty: "ty \<noteq> 0" "ty = 0xF0 \<Longrightarrow> library_block_size ctx = 0"
    and len: "contents \<noteq> []" "length contents < 65536"
      "length contents \<le> data_alloc (ctx_record ctx)"
    and sum: "last contents = 0 \<or> sum_list (frame ty contents) = 0"
  shows "omf_context_read_fd mal ctx fd =
    (Inr True, after_read ty contents (fd_pos fd) ctx, fd\<lparr>fd_pos := fd_pos fd + 3 + length contents\<rparr>)"
proof -
  have "unat (of_nat (length contents) :: u16) = length contents"
    using len by (simp add: unat_of_nat)
  with ty len show ?thesis
    by (simp add: read_fd_to_contents [OF ctx fd(1,2) ty(1) len(1,2)] read_fd_contents_def
        fd_read_frame_contents [OF fd(1,3)] checksum_ok_frame sum after_header_def
        read_fd_accept_def after_read_def rec_update_def Let_def)
qed

lemma after_read_record:
  assumes "can_read ctx" and "contents \<noteq> []" and "length contents \<le> data_alloc (ctx_record ctx)"
    and "length contents < 65536"
  shows "wf_record (ctx_record (after_read ty contents pos ctx))"
    and "remaining (ctx_record (after_read ty contents pos ctx)) = butlast contents"
    and "rectype (ctx_record (after_read ty contents pos ctx)) = ty"
proof -
  have "unat (of_nat (length contents) :: u16) = length contents"
    using assms by (simp add: unat_of_nat)
  moreover have "(of_nat (length contents) :: u16) \<noteq> 0"
    using calculation assms(2) by force
  ultimately have "unat (of_nat (length contents) - 1 :: u16) = length contents - 1"
    by (simp add: unat_minus_one)
  with assms show "wf_record (ctx_record (after_read ty contents pos ctx))"
    and "remaining (ctx_record (after_read ty contents pos ctx)) = butlast contents"
    by (auto simp: after_read_def wf_record_def remaining_def can_read_def butlast_conv_take
        min_def)
qed (simp add: after_read_def)

text \<open>Writing at the end of a file, with room for it, appends.\<close>

lemma fd_write_append:
  assumes "fd_pos fd = length (fd_bytes fd)" and "fd_pos fd + length bs \<le> fd_limit fd"
  shows "fd_write bs fd = (length bs, fd\<lparr>fd_bytes := fd_bytes fd @ bs,
           fd_pos := fd_pos fd + length bs\<rparr>)"
  using assms by (simp add: fd_write_def Let_def)

lemma record_write_append:
  assumes "data rec = Some d" and "unat (reclen rec) < length d"
    and "fd_pos fd = length (fd_bytes fd)"
    and "fd_pos fd + 4 + unat (reclen rec) \<le> fd_limit fd"
  shows "omf_context_record_write_fd fd rec =
    (Inr (), fd\<lparr>fd_bytes := fd_bytes fd @ record_bytes rec,
                fd_pos := fd_pos fd + 4 + unat (reclen rec)\<rparr>)"
  using assms
  by (simp add: omf_context_record_write_fd_def fd_write_append record_bytes_def min_def
      add.commute add.left_commute)

section \<open>Damaged records are refused\<close>

lemma read_fd_bad_sum:
  assumes ctx: "can_read ctx"
    and fd: "drop (fd_pos fd) (fd_bytes fd) = frame ty contents @ rest"
      "\<not> fd_bad fd (fd_pos fd)" "\<not> fd_bad fd (fd_pos fd + 3)"
    and ty: "ty \<noteq> 0"
    and len: "contents \<noteq> []" "length contents < 65536"
    and sum: "last contents \<noteq> 0" "sum_list (frame ty contents) \<noteq> 0"
  shows "\<exists>e. fst (omf_context_read_fd mal ctx fd) = Inl e"
proof -
  have "unat (of_nat (length contents) :: u16) = length contents"
    using len by (simp add: unat_of_nat)
  with sum show ?thesis
    by (simp add: read_fd_to_contents [OF ctx fd(1,2) ty(1) len(1,2)] read_fd_contents_def
        fd_read_frame_contents [OF fd(1,3)] checksum_ok_frame after_header_def Let_def)
qed

section \<open>Every record that is read is well-formed\<close>

lemma read_fd_contents_True:
  assumes "read_fd_contents tmp ctx fd = (Inr True, ctx', fd')"
    and "data (ctx_record ctx) = Some d" and "length d = data_alloc (ctx_record ctx)"
    and "reclen (ctx_record ctx) \<noteq> 0" and "recpos (ctx_record ctx) = 0"
  shows "wf_record (ctx_record ctx') \<and> remaining (ctx_record ctx')
      = take (unat (reclen (ctx_record ctx)) - 1) (drop (fd_pos fd) (fd_bytes fd))
    \<and> recpos (ctx_record ctx') = 0 \<and> rectype (ctx_record ctx') = rectype (ctx_record ctx)
    \<and> fd_pos fd' = fd_pos fd + unat (reclen (ctx_record ctx)) \<and> fd_pos fd' \<le> length (fd_bytes fd)
    \<and> data_alloc (ctx_record ctx') = data_alloc (ctx_record ctx)"
proof -
  let ?n = "unat (reclen (ctx_record ctx))"
  have n: "unat (reclen (ctx_record ctx) - 1) = ?n - 1"
    using assms(4) by (simp add: unat_minus_one)
  have "0 < ?n" using assms(4) by (simp add: unat_gt_0)
  then have n0: "p + ?n \<le> l" if "l - p = ?n" for p l :: nat
    using that by linarith
  from assms show ?thesis
    by (auto simp: read_fd_contents_def read_fd_accept_def fd_read_def Let_def n wf_record_def
        remaining_def min_def n0 split: if_splits)
qed

lemma read_fd_header_True:
  assumes "read_fd_header ctx fd = (Inr True, ctx', fd')"
    and "data (ctx_record ctx) = Some d" and "length d = data_alloc (ctx_record ctx)"
    and "recpos (ctx_record ctx) = 0"
  shows "wf_record (ctx_record ctx') \<and> recpos (ctx_record ctx') = 0
    \<and> fd_pos fd + 3 < fd_pos fd' \<and> fd_pos fd' \<le> length (fd_bytes fd)"
proof -
  let ?ctx = "rec_update (\<lambda>r. r\<lparr>rec_file_offset := of_nat (fd_pos fd)\<rparr>) ctx"
  obtain tmp where r: "fd_read 3 fd = (Inr tmp, fd\<lparr>fd_pos := fd_pos fd + 3\<rparr>)"
      and tmp: "tmp = take 3 (drop (fd_pos fd) (fd_bytes fd))" "length tmp = 3"
    using assms(1)
    by (auto simp: read_fd_header_def fd_read_def Let_def split: if_splits sum.splits prod.splits)
  let ?c = "rec_update (\<lambda>r. r\<lparr>rectype := tmp ! 0, reclen := le16 (tmp ! 1) (tmp ! 2)\<rparr>) ?ctx"
  have k: "read_fd_contents tmp ?c (fd\<lparr>fd_pos := fd_pos fd + 3\<rparr>) = (Inr True, ctx', fd')"
      and nz: "reclen (ctx_record ?c) \<noteq> 0"
    using assms(1) tmp(2) by (auto simp: read_fd_header_def r Let_def split: if_splits)
  from read_fd_contents_True [OF k, of d] nz assms(2-4)
  show ?thesis by (auto simp: unat_gt_0)
qed

lemma read_fd_True_wf:
  assumes "omf_context_read_fd mal ctx fd = (Inr True, ctx', fd')" and "malloc_ok mal"
    and "\<And>d. data (ctx_record ctx) = Some d \<Longrightarrow> length d = data_alloc (ctx_record ctx)"
  shows "wf_record (ctx_record ctx') \<and> recpos (ctx_record ctx') = 0
    \<and> fd_pos fd + 3 < fd_pos fd' \<and> fd_pos fd' \<le> length (fd_bytes fd)"
proof (cases "data (ctx_record ctx)")
  case (Some d)
  let ?c = "rec_update omf_record_clear (ctx\<lparr>last_error := None\<rparr>)"
  have "read_fd_header (?c\<lparr>ctx_record := ctx_record ?c\<rparr>) fd = (Inr True, ctx', fd')"
    using assms(1) Some
    by (auto simp: omf_context_read_fd_def Let_def omf_record_clear_def split: if_splits)
  from read_fd_header_True [OF this, of d] assms(3) Some show ?thesis
    by (simp add: omf_record_clear_def)
next
  case None
  obtain d where m: "mal (Req_bytes 4096) = Some d"
    using assms(1) None
    by (auto simp: omf_context_read_fd_def Let_def omf_record_clear_def omf_record_data_alloc_def
        split: if_splits option.splits)
  then have l: "length d = 4096" using assms(2) by (simp add: malloc_ok_def)
  let ?c = "rec_update omf_record_clear (ctx\<lparr>last_error := None\<rparr>)"
  let ?r = "(ctx_record ?c)\<lparr>data := Some d, data_alloc := 4096, reclen := 0, recpos := 0\<rparr>"
  have "read_fd_header (?c\<lparr>ctx_record := ?r\<rparr>) fd = (Inr True, ctx', fd')"
    using assms(1) None m
    by (auto simp: omf_context_read_fd_def Let_def omf_record_clear_def omf_record_data_alloc_def
        split: if_splits)
  from read_fd_header_True [OF this, of d] l show ?thesis by simp
qed

section \<open>The next module\<close>

text \<open>
  The target is the first multiple of the block size at or after the checksum byte of the
  MODEND record, whose place is \<open>rec_file_offset + 3 + reclen\<close>.
\<close>

definition modend_checksum_place :: "omf_context_t \<Rightarrow> nat" where
  "modend_checksum_place ctx =
     unat (rec_file_offset (ctx_record ctx)) + 3 + unat (reclen (ctx_record ctx))"

lemma unat_round_down: "unat (w - w mod b) = unat w - unat w mod unat (b :: 'a::len word)"
proof -
  have "w mod b \<le> w" by (simp add: word_le_nat_alt unat_mod mod_less_eq_dividend)
  then show ?thesis by (simp add: unat_sub unat_mod)
qed

lemma unat_next_module_offset:
  assumes "library_block_size ctx \<noteq> 0" and "modend_checksum_place ctx < 2 ^ 63"
  shows "unat (next_module_offset ctx) =
    (let b = unat (library_block_size ctx); e = modend_checksum_place ctx + (b - 1)
     in e - e mod b)"
proof -
  let ?b = "unat (library_block_size ctx)"
  let ?e = "modend_checksum_place ctx + (?b - 1)"
  have b: "0 < ?b" "?b < 65536"
    using assms(1) by (auto simp: unat_gt_0 intro: order.strict_trans2 [OF unsigned_less])
  have bw: "unat (ucast (library_block_size ctx) :: u64) = ?b" by simp
  have "(ucast (library_block_size ctx) :: u64) \<noteq> 0"
    using b bw by (metis less_irrefl unat_0)
  then have b1: "unat (ucast (library_block_size ctx) - 1 :: u64) = ?b - 1"
    by (simp add: unat_minus_one bw)
  have lw: "unat (ucast (reclen (ctx_record ctx)) :: u64) = unat (reclen (ctx_record ctx))" by simp
  have e: "unat (rec_file_offset (ctx_record ctx) + 3 + ucast (reclen (ctx_record ctx))
      + (ucast (library_block_size ctx) - 1) :: u64) = ?e"
    using assms(2) b
    by (simp add: unat_word_ariths(1) b1 lw modend_checksum_place_def mod_simps)
  show ?thesis
    by (simp only: next_module_offset_def Let_def unat_round_down bw e)
qed

section \<open>Progress\<close>

text \<open>Reading a record moves forward in the file: what the loops over records end by.\<close>

lemma fd_read_bytes: "fd_read n fd = (r, fd') \<Longrightarrow> fd_bytes fd' = fd_bytes fd"
  by (auto simp: fd_read_def Let_def split: if_splits)

lemma read_fd_contents_progress:
  assumes "read_fd_contents tmp ctx fd = (Inr True, ctx', fd')" and "reclen (ctx_record ctx) \<noteq> 0"
  shows "fd_pos fd < fd_pos fd' \<and> fd_pos fd' \<le> length (fd_bytes fd) \<and> fd_bytes fd' = fd_bytes fd"
proof -
  obtain k where "unat (reclen (ctx_record ctx)) = Suc k"
    using assms(2) by (cases "unat (reclen (ctx_record ctx))") (auto simp: unat_eq_zero)
  with assms(1) show ?thesis
    by (auto simp: read_fd_contents_def read_fd_accept_def fd_read_def Let_def split: if_splits)
qed

lemma read_fd_progress:
  assumes "omf_context_read_fd mal ctx fd = (Inr True, ctx', fd')"
  shows "fd_pos fd < fd_pos fd' \<and> fd_pos fd' \<le> length (fd_bytes fd) \<and> fd_bytes fd' = fd_bytes fd"
proof -
  obtain c where "read_fd_header c fd = (Inr True, ctx', fd')"
    using assms by (auto simp: omf_context_read_fd_def Let_def split: if_splits sum.splits prod.splits)
  then obtain tmp c2 fd2 n where "fd_read 3 fd = (Inr tmp, fd2)"
      "read_fd_contents tmp c2 fd2 = (Inr True, ctx', fd')" "reclen (ctx_record c2) \<noteq> 0"
    by (auto simp: read_fd_header_def Let_def split: if_splits sum.splits prod.splits)
  moreover from this have "fd_pos fd \<le> fd_pos fd2" "fd_bytes fd2 = fd_bytes fd"
    by (auto simp: fd_read_def Let_def split: if_splits)
  ultimately show ?thesis
    using read_fd_contents_progress [of tmp c2 fd2 ctx' fd'] by auto
qed

end
