(* ===== verification/OmfReaders.thy ===== *)
theory OmfReaders
  imports OmfRecord
begin

text \<open>
  The contract of a record reader, which the record parsers rely on: whatever the bytes are, a
  reader moves the position forward by at most what is available and changes nothing else.
  Every reader of \<^verbatim>\<open>omfrec.c\<close> meets it, and those that open a loop body also make progress,
  which is why the parse loops end.
\<close>

lemma avail_adv:
  assumes "k \<le> omf_record_data_available rec"
  shows "omf_record_data_available (adv k rec) = omf_record_data_available rec - k"
proof (cases "data rec = None \<or> recpos rec \<ge> reclen rec")
  case True
  with assms show ?thesis
    by (auto simp: omf_record_data_available_def adv_def)
next
  case False
  then have "unat (recpos rec) + k \<le> unat (reclen rec)"
    using assms by (auto simp: omf_record_data_available_def word_le_nat_alt split: if_splits)
  then have "unat (recpos rec + of_nat k) = unat (recpos rec) + k"
    by (rule unat_add_of_nat_fits)
  with False assms show ?thesis
    by (auto simp: omf_record_data_available_def adv_def word_le_nat_alt)
qed

locale omf_reader =
  fixes rd :: "omf_record_t \<Rightarrow> 'a \<times> omf_record_t"
  assumes advances: "\<exists>k \<le> omf_record_data_available rec. snd (rd rec) = adv k rec"
begin

lemma avail_le: "rd rec = (v, rec') \<Longrightarrow> omf_record_data_available rec' \<le> omf_record_data_available rec"
  using advances [of rec] by (auto simp: avail_adv)

lemma keeps:
  assumes "rd rec = (v, rec')"
  shows "rectype rec' = rectype rec" "reclen rec' = reclen rec" "data rec' = data rec"
    "data_alloc rec' = data_alloc rec" "rec_file_offset rec' = rec_file_offset rec"
  using advances [of rec] assms by auto

lemma wf: "rd rec = (v, rec') \<Longrightarrow> wf_record rec \<Longrightarrow> wf_record rec'"
  using advances [of rec] by (auto simp: wf_record_adv length_remaining)

lemma remaining_suffix:
  assumes "rd rec = (v, rec')" and "wf_record rec"
  shows "\<exists>k \<le> length (remaining rec). remaining rec' = drop k (remaining rec)"
proof -
  obtain k where "k \<le> length (remaining rec)" "rec' = adv k rec"
    using advances [of rec] assms by (auto simp: length_remaining)
  then show ?thesis using assms(2) remaining_adv by blast
qed

end

locale omf_progress_reader = omf_reader +
  assumes progress: "\<not> omf_record_eof rec
    \<Longrightarrow> omf_record_data_available (snd (rd rec)) < omf_record_data_available rec"
begin

lemma avail_less:
  "rd rec = (v, rec') \<Longrightarrow> \<not> omf_record_eof rec
    \<Longrightarrow> omf_record_data_available rec' < omf_record_data_available rec"
  using progress [of rec] by simp

end

lemma avail_ge_iff:
  "0 < k \<Longrightarrow> k \<le> omf_record_data_available rec
     \<longleftrightarrow> data rec \<noteq> None \<and> unat (recpos rec) + k \<le> unat (reclen rec)"
  by (auto simp: omf_record_data_available_def word_le_nat_alt)

lemma get_byte_adv:
  "snd (omf_record_get_byte rec) = (if 1 \<le> omf_record_data_available rec then adv 1 rec else rec)"
  by (simp add: avail_ge_iff omf_record_get_byte_def omf_record_get_byte_fast_def adv_def)

lemma get_word_adv:
  "snd (omf_record_get_word rec) = (if 2 \<le> omf_record_data_available rec then adv 2 rec else rec)"
  by (simp add: avail_ge_iff omf_record_get_word_def omf_record_get_word_fast_def adv_def)

lemma get_dword_adv:
  "snd (omf_record_get_dword rec) = (if 4 \<le> omf_record_data_available rec then adv 4 rec else rec)"
  by (simp add: avail_ge_iff omf_record_get_dword_def omf_record_get_dword_fast_def adv_def)

lemma get_index_adv:
  "\<exists>k \<le> omf_record_data_available rec. snd (omf_record_get_index rec) = adv k rec
     \<and> (\<not> omf_record_eof rec \<longrightarrow> 0 < k)"
proof (cases "omf_record_eof rec")
  case True
  then have "snd (omf_record_get_index rec) = adv 0 rec"
    by (simp add: omf_record_get_index_def)
  with True show ?thesis by blast
next
  case False
  then have a: "1 \<le> omf_record_data_available rec" by (simp add: omf_record_eof_def)
  have f: "omf_record_get_byte_fast r = (data_at r 0, adv 1 r)" for r
    by (simp add: omf_record_get_byte_fast_def adv_def)
  show ?thesis
  proof (cases "omf_record_eof (adv 1 rec)")
    case True
    with False have "snd (omf_record_get_index rec) = adv 1 rec"
      by (simp add: omf_record_get_index_def f Let_def)
    with a show ?thesis by auto
  next
    case False
    with a have "2 \<le> omf_record_data_available rec"
      by (simp add: omf_record_eof_def avail_adv)
    moreover have "snd (omf_record_get_index rec) = adv 1 rec
        \<or> snd (omf_record_get_index rec) = adv 2 rec"
      using False \<open>\<not> omf_record_eof rec\<close>
      by (simp add: omf_record_get_index_def f Let_def numeral_2_eq_2)
    ultimately show ?thesis using a by (metis zero_less_one zero_less_numeral)
  qed
qed

lemma read_data_adv:
  "omf_record_read_data n rec = (fst (omf_record_read_data n rec),
     adv (min n (omf_record_data_available rec)) rec)"
  by (auto simp: omf_record_read_data_def Let_def adv_def min_def)

lemma get_lenstr_adv:
  "\<exists>k \<le> omf_record_data_available rec. snd (omf_record_get_lenstr n rec) = adv k rec
     \<and> (\<not> omf_record_eof rec \<longrightarrow> 0 < k)"
proof -
  obtain len rec1 where b: "omf_record_get_byte rec = (len, rec1)"
    by (cases "omf_record_get_byte rec")
  obtain bs rec2 where d: "omf_record_read_data (unat len) rec1 = (bs, rec2)"
    by (cases "omf_record_read_data (unat len) rec1")
  have "snd (omf_record_get_lenstr n rec) \<in> {rec1, rec2}"
    by (simp add: omf_record_get_lenstr_def b d Let_def)
  moreover have "rec2 = adv (min (unat len) (omf_record_data_available rec1)) rec1"
    using read_data_adv [of "unat len" rec1] d by simp
  moreover have "rec1 = adv (if 1 \<le> omf_record_data_available rec then 1 else 0) rec"
    using get_byte_adv [of rec] b by simp
  ultimately show ?thesis
  proof (cases "1 \<le> omf_record_data_available rec")
    case True
    with \<open>rec1 = _\<close> have r1: "rec1 = adv 1 rec"
        "omf_record_data_available rec1 = omf_record_data_available rec - 1"
      by (simp_all add: avail_adv)
    with \<open>rec2 = _\<close> have "rec2 = adv (1 + min (unat len) (omf_record_data_available rec - 1)) rec"
      by simp
    with r1 \<open>snd _ \<in> _\<close> consider "snd (omf_record_get_lenstr n rec) = adv 1 rec"
      | "snd (omf_record_get_lenstr n rec)
           = adv (1 + min (unat len) (omf_record_data_available rec - 1)) rec"
      by auto
    then show ?thesis
    proof cases
      case 1
      with True show ?thesis by (intro exI [of _ 1]) simp
    next
      case 2
      with True show ?thesis
        by (intro exI [of _ "1 + min (unat len) (omf_record_data_available rec - 1)"]) auto
    qed
  next
    case False
    then have "omf_record_eof rec" "omf_record_data_available rec = 0"
      by (simp_all add: omf_record_eof_def)
    with False \<open>rec1 = _\<close> \<open>rec2 = _\<close> \<open>snd _ \<in> _\<close> show ?thesis
      by (intro exI [of _ 0]) auto
  qed
qed

interpretation get_byte: omf_progress_reader omf_record_get_byte
proof unfold_locales
  fix rec show "\<exists>k \<le> omf_record_data_available rec. snd (omf_record_get_byte rec) = adv k rec"
    by (auto simp: get_byte_adv intro: exI [of _ "if omf_record_data_available rec = 0 then 0 else 1"])
next
  fix rec assume "\<not> omf_record_eof rec"
  then show "omf_record_data_available (snd (omf_record_get_byte rec)) < omf_record_data_available rec"
    by (simp add: get_byte_adv omf_record_eof_def avail_adv)
qed

interpretation get_word: omf_reader omf_record_get_word
proof unfold_locales
  fix rec show "\<exists>k \<le> omf_record_data_available rec. snd (omf_record_get_word rec) = adv k rec"
    by (auto simp: get_word_adv intro: exI [of _ "if omf_record_data_available rec < 2 then 0 else 2"])
qed

interpretation get_dword: omf_reader omf_record_get_dword
proof unfold_locales
  fix rec show "\<exists>k \<le> omf_record_data_available rec. snd (omf_record_get_dword rec) = adv k rec"
    by (auto simp: get_dword_adv intro: exI [of _ "if omf_record_data_available rec < 4 then 0 else 4"])
qed

interpretation get_index: omf_progress_reader omf_record_get_index
proof unfold_locales
  fix rec show "\<exists>k \<le> omf_record_data_available rec. snd (omf_record_get_index rec) = adv k rec"
    using get_index_adv [of rec] by blast
next
  fix rec assume "\<not> omf_record_eof rec"
  then show "omf_record_data_available (snd (omf_record_get_index rec)) < omf_record_data_available rec"
    using get_index_adv [of rec] by (auto simp: avail_adv)
qed

interpretation read_data: omf_reader "omf_record_read_data n" for n
proof unfold_locales
  fix rec show "\<exists>k \<le> omf_record_data_available rec. snd (omf_record_read_data n rec) = adv k rec"
    using read_data_adv [of n rec] by (metis min.cobounded2 snd_conv)
qed

interpretation get_lenstr: omf_progress_reader "omf_record_get_lenstr n" for n
proof unfold_locales
  fix rec show "\<exists>k \<le> omf_record_data_available rec. snd (omf_record_get_lenstr n rec) = adv k rec"
    using get_lenstr_adv [of rec n] by blast
next
  fix rec assume "\<not> omf_record_eof rec"
  then show "omf_record_data_available (snd (omf_record_get_lenstr n rec)) < omf_record_data_available rec"
    using get_lenstr_adv [of rec n] by (auto simp: avail_adv)
qed

lemmas reader_le =
  get_byte.avail_le get_word.avail_le get_dword.avail_le get_index.avail_le
  read_data.avail_le get_lenstr.avail_le

lemmas reader_less = get_byte.avail_less get_index.avail_less get_lenstr.avail_less

text \<open>The form in which the equations stand in the goals of the termination proofs.\<close>

lemmas reader_shrinks =
  get_byte.avail_le [OF sym] get_word.avail_le [OF sym] get_dword.avail_le [OF sym]
  get_index.avail_le [OF sym] get_lenstr.avail_less [OF sym] get_byte.avail_less [OF sym]

lemmas reader_keeps =
  get_byte.keeps get_word.keeps get_dword.keeps get_index.keeps read_data.keeps get_lenstr.keeps

lemmas reader_wf =
  get_byte.wf get_word.wf get_dword.wf get_index.wf read_data.wf get_lenstr.wf

end
