(* ===== verification/OmfParse.thy ===== *)
theory OmfParse
  imports OmfContext OmfReaders
begin

text \<open>
  The record parsers: \<^verbatim>\<open>oplnames.c\<close>, \<^verbatim>\<open>opsegdef.c\<close>, \<^verbatim>\<open>opgrpdef.c\<close>, \<^verbatim>\<open>opextdef.c\<close>,
  \<^verbatim>\<open>oppubdef.c\<close>, \<^verbatim>\<open>opfixupp.c\<close>, \<^verbatim>\<open>optheadr.c\<close>, \<^verbatim>\<open>opledata.c\<close> and \<^verbatim>\<open>omledata.c\<close>. A parser
  consumes the record at its position and extends the tables of the context; the result is
  the index of the first entry it may have added. Each loop ends because the readers that
  open its body shorten what is available.
\<close>

section \<open>Shared steps\<close>

text \<open>The entry a pointer names is written in place.\<close>

definition set_entry :: "nat \<Rightarrow> ('e \<Rightarrow> 'e) \<Rightarrow> 'e list option \<Rightarrow> 'e list option" where
  "set_entry k f a = map_option (\<lambda>es. es[k := f (es ! k)]) a"

lemma length_set_entry [simp]: "length (entries_of (set_entry k f a)) = length (entries_of a)"
  by (cases a) (simp_all add: set_entry_def)

lemma entries_of_set_entry_last [simp]:
  "entries_of (set_entry (length es) f (Some (es @ [e]))) = es @ [f e]"
  by (simp add: set_entry_def)

text \<open>A 32-bit record type has dword offsets, a 16-bit one word offsets.\<close>

definition omf_record_get_offset :: "omf_record_t \<Rightarrow> u64 \<times> omf_record_t" where
  "omf_record_get_offset rec =
     (if rectype rec AND 1 \<noteq> 0 then omf_record_get_dword rec
      else case omf_record_get_word rec of (w, rec) \<Rightarrow> (ucast w, rec))"

interpretation get_offset: omf_reader omf_record_get_offset
proof unfold_locales
  fix rec show "\<exists>k \<le> omf_record_data_available rec. snd (omf_record_get_offset rec) = adv k rec"
    using get_word.advances [of rec] get_dword.advances [of rec]
    by (auto simp: omf_record_get_offset_def split: prod.splits)
qed

lemma get_offset_remaining:
  assumes "wf_record rec"
  shows "omf_record_get_offset rec =
    (if rectype rec AND 1 \<noteq> 0 then
       (if length (remaining rec) \<ge> 4 then (get_dword_list (remaining rec), adv 4 rec) else (0xFFFF, rec))
     else (case remaining rec of a # b # _ \<Rightarrow> (ucast (le16 a b), adv 2 rec) | _ \<Rightarrow> (0xFFFF, rec)))"
  using assms
  by (auto simp: omf_record_get_offset_def get_word_remaining get_dword_remaining split: list.splits)

section \<open>The loop of a parser\<close>

text \<open>
  All list records are parsed by the same loop, \<^verbatim>\<open>while (!omf_record_eof(rec)) \<dots>\<close>, with one
  entry per turn. Its contract: the equation of the loop, and a body that consumes something
  on every turn that does not end it. An invariant of the body is one of the loop, and a body that decodes one
  entry makes the loop decode a list of them.
\<close>

locale parse_loop =
  fixes body :: "'t \<Rightarrow> omf_record_t \<Rightarrow> (c_error + unit) \<times> 't \<times> omf_record_t"
    and loop :: "'t \<Rightarrow> omf_record_t \<Rightarrow> (c_error + unit) \<times> 't \<times> omf_record_t"
  assumes loop_eq: "loop t rec =
      (if omf_record_eof rec then (Inr (), t, rec)
       else case body t rec of
          (Inl e, t1, rec1) \<Rightarrow> (Inl e, t1, rec1)
        | (Inr _, t1, rec1) \<Rightarrow> loop t1 rec1)"
    and body_less: "body t rec = (Inr u, t', rec') \<Longrightarrow> \<not> omf_record_eof rec
      \<Longrightarrow> omf_record_data_available rec' < omf_record_data_available rec"
begin

lemma invariant:
  assumes step: "\<And>t rec r t' rec'. I t rec \<Longrightarrow> \<not> omf_record_eof rec
      \<Longrightarrow> body t rec = (r, t', rec') \<Longrightarrow> I t' rec'"
    and "loop t rec = (r, t', rec')" and "I t rec"
  shows "I t' rec'"
  using assms(2,3)
proof (induction "omf_record_data_available rec" arbitrary: t rec rule: less_induct)
  case less
  show ?case
  proof (cases "omf_record_eof rec")
    case True
    with less.prems loop_eq [of t rec] show ?thesis by simp
  next
    case False
    obtain r1 t1 rec1 where b: "body t rec = (r1, t1, rec1)"
      by (cases "body t rec") auto
    with False less.prems step have "I t1 rec1" by blast
    with False less b body_less [of t rec _ t1 rec1] loop_eq [of t rec] show ?thesis
      by (cases r1) auto
  qed
qed

lemma success_consumes_all:
  assumes "loop t rec = (Inr u, t', rec')"
  shows "omf_record_eof rec'"
  using assms
proof (induction "omf_record_data_available rec" arbitrary: t rec rule: less_induct)
  case less
  show ?case
  proof (cases "omf_record_eof rec")
    case True
    with less.prems loop_eq [of t rec] show ?thesis by simp
  next
    case False
    obtain r1 t1 rec1 where b: "body t rec = (r1, t1, rec1)"
      by (cases "body t rec") auto
    with False less b body_less [of t rec _ t1 rec1] loop_eq [of t rec] show ?thesis
      by (cases r1) auto
  qed
qed

text \<open>\<open>P t xs\<close> says that the table \<open>t\<close> can take the entries \<open>xs\<close>.\<close>

lemma decodes:
  assumes step: "\<And>x xs t rec rest. P t (x # xs) \<Longrightarrow> wf_record rec \<Longrightarrow> rectype rec = ty
      \<Longrightarrow> remaining rec = enc x @ rest
      \<Longrightarrow> body t rec = (Inr (), upd x t, adv (length (enc x)) rec)"
    and P: "\<And>x xs t. P t (x # xs) \<Longrightarrow> P (upd x t) xs" and enc: "\<And>x. enc x \<noteq> []"
    and "wf_record rec" and "rectype rec = ty" and "remaining rec = concat (map enc xs)" and "P t xs"
  shows "loop t rec = (Inr (), fold upd xs t, adv (length (concat (map enc xs))) rec)"
  using assms(4-7)
proof (induction xs arbitrary: t rec)
  case Nil
  then show ?case by (simp add: loop_eq [of t rec] eof_iff_remaining)
next
  case (Cons x xs)
  let ?r = "adv (length (enc x)) rec"
  have "\<not> omf_record_eof rec"
    using Cons.prems enc [of x] by (simp add: eof_iff_remaining)
  moreover have "body t rec = (Inr (), upd x t, ?r)"
    using Cons.prems step by simp
  ultimately have "loop t rec = loop (upd x t) ?r"
    by (simp add: loop_eq [of t rec])
  also have "\<dots> = (Inr (), fold upd xs (upd x t), adv (length (concat (map enc xs))) ?r)"
    using Cons.prems P by (intro Cons.IH) (auto simp: wf_record_adv remaining_adv)
  finally show ?case by (simp add: add.commute)
qed

end

section \<open>LNAMES and THEADR\<close>

definition parse_LNAMES_one ::
    "allocator \<Rightarrow> omf_lnames_context_t \<Rightarrow> omf_record_t
     \<Rightarrow> (c_error + unit) \<times> omf_lnames_context_t \<times> omf_record_t" where
  "parse_LNAMES_one mal t rec =
     (case omf_record_get_lenstr 256 rec of
        (Inl e, rec) \<Rightarrow> (Inl e, t, rec)
      | (Inr bs, rec) \<Rightarrow>
          (case omf_lnames_context_add_name mal t (Some bs) of
             (Inl e, t) \<Rightarrow> (Inl e, t, rec)
           | (Inr _, t) \<Rightarrow> (Inr (), t, rec)))"

lemma parse_LNAMES_one_less:
  "parse_LNAMES_one mal t rec = (Inr u, t', rec') \<Longrightarrow> \<not> omf_record_eof rec
     \<Longrightarrow> omf_record_data_available rec' < omf_record_data_available rec"
  by (auto simp: parse_LNAMES_one_def split: if_splits sum.splits prod.splits
      dest: get_lenstr.avail_less get_byte.avail_less)

function parse_LNAMES_loop ::
    "allocator \<Rightarrow> omf_lnames_context_t \<Rightarrow> omf_record_t
     \<Rightarrow> (c_error + unit) \<times> omf_lnames_context_t \<times> omf_record_t" where
  "parse_LNAMES_loop mal t rec =
     (if omf_record_eof rec then (Inr (), t, rec)
      else case parse_LNAMES_one mal t rec of
          (Inl e, t1, rec1) \<Rightarrow> (Inl e, t1, rec1)
        | (Inr _, t1, rec1) \<Rightarrow> parse_LNAMES_loop mal t1 rec1)"
  by pat_completeness auto
termination
  by (relation "measure (\<lambda>(mal, t, rec). omf_record_data_available rec)")
    (auto dest: parse_LNAMES_one_less [OF sym])

declare parse_LNAMES_loop.simps [simp del]

interpretation parse_LNAMES: parse_loop "parse_LNAMES_one mal" "parse_LNAMES_loop mal" for mal
  by unfold_locales (rule parse_LNAMES_loop.simps, rule parse_LNAMES_one_less)

definition omf_context_parse_LNAMES ::
    "allocator \<Rightarrow> omf_context_t \<Rightarrow> omf_record_t \<Rightarrow> (c_error + nat) \<times> omf_context_t \<times> omf_record_t" where
  "omf_context_parse_LNAMES mal ctx rec =
     (let first_entry = omf_lnames_context_get_next_add_index (LNAMEs ctx) in
      case parse_LNAMES_loop mal (LNAMEs ctx) rec of
        (Inl e, t, rec) \<Rightarrow> (Inl e, ctx\<lparr>LNAMEs := t\<rparr>, rec)
      | (Inr _, t, rec) \<Rightarrow> (Inr first_entry, ctx\<lparr>LNAMEs := t\<rparr>, rec))"

definition omf_context_parse_THEADR ::
    "allocator \<Rightarrow> omf_context_t \<Rightarrow> omf_record_t \<Rightarrow> (c_error + unit) \<times> omf_context_t \<times> omf_record_t" where
  "omf_context_parse_THEADR mal ctx rec =
     (case omf_record_get_lenstr 256 rec of
        (Inl e, rec) \<Rightarrow> (Inl e, ctx, rec)
      | (Inr bs, rec) \<Rightarrow>
          (case cstr_set_n mal (THEADR ctx) bs of (r, p) \<Rightarrow> (r, ctx\<lparr>THEADR := p\<rparr>, rec)))"

section \<open>SEGDEF\<close>

text \<open>What follows the attribute byte and the frame of an absolute segment.\<close>

definition parse_SEGDEF_tail ::
    "omf_segdef_t \<Rightarrow> omf_record_t \<Rightarrow> (c_error + unit) \<times> omf_segdef_t \<times> omf_record_t" where
  "parse_SEGDEF_tail segdef rec =
     (if omf_record_eof rec then (Inl EPLAIN, segdef, rec)
      else
        let (len, rec) = omf_record_get_offset rec;
            (ni, rec) = omf_record_get_index rec;
            (ci, rec) = omf_record_get_index rec;
            segdef = segdef\<lparr>segment_length := ucast len, segment_name_index := ucast ni,
                            class_name_index := ucast ci\<rparr>
        in if omf_record_eof rec then (Inl EPLAIN, segdef, rec)
           else
             let (oi, rec) = omf_record_get_index rec in
             (Inr (), segdef\<lparr>overlay_name_index := ucast oi\<rparr>, rec))"

definition parse_SEGDEF_entry ::
    "omf_segdef_t \<Rightarrow> omf_record_t \<Rightarrow> (c_error + unit) \<times> omf_segdef_t \<times> omf_record_t" where
  "parse_SEGDEF_entry segdef rec =
     (let (b, rec) = omf_record_get_byte rec;
          segdef = segdef\<lparr>attr := (attr segdef)\<lparr>raw := b\<rparr>\<rparr>
      in if attr_alignment (attr segdef) = 0 then
           let (w, rec) = omf_record_get_word rec;
               (ofs, rec) = omf_record_get_byte rec
           in parse_SEGDEF_tail
                (segdef\<lparr>attr := (attr segdef)\<lparr>frame_number := w, offset := ofs\<rparr>\<rparr>) rec
         else parse_SEGDEF_tail segdef rec)"

definition omf_context_parse_SEGDEF ::
    "allocator \<Rightarrow> omf_context_t \<Rightarrow> omf_record_t \<Rightarrow> (c_error + nat) \<times> omf_context_t \<times> omf_record_t" where
  "omf_context_parse_SEGDEF mal ctx rec =
     (let first_entry = omf_segdefs_context_get_next_add_index (SEGDEFs ctx) in
      case omf_segdefs_context_add_segdef mal (SEGDEFs ctx) of
        (Inl e, t) \<Rightarrow> (Inl e, ctx\<lparr>SEGDEFs := t\<rparr>, rec)
      | (Inr k, t) \<Rightarrow>
          (case parse_SEGDEF_entry (entries_of (omf_SEGDEFS t) ! k) rec of
             (r, segdef, rec) \<Rightarrow>
               (case r of Inl e \<Rightarrow> Inl e | Inr _ \<Rightarrow> Inr first_entry,
                ctx\<lparr>SEGDEFs := t\<lparr>omf_SEGDEFS := set_entry k (\<lambda>_. segdef) (omf_SEGDEFS t)\<rparr>\<rparr>,
                rec)))"

section \<open>GRPDEF\<close>

definition parse_GRPDEF_one ::
    "nat \<Rightarrow> omf_grpdefs_context_t \<Rightarrow> omf_record_t
     \<Rightarrow> (c_error + unit) \<times> omf_grpdefs_context_t \<times> omf_record_t" where
  "parse_GRPDEF_one k t rec =
     (case omf_record_get_byte rec of (index, rec) \<Rightarrow>
       (case omf_record_get_index rec of (segdef, rec) \<Rightarrow>
          if index \<noteq> 0xFF then (Inl EPLAIN, t, rec)
          else (case omf_grpdefs_context_add_grpdef_segdef t k segdef of
                  (Inl e, t) \<Rightarrow> (Inl e, t, rec)
                | (Inr _, t) \<Rightarrow> (Inr (), t, rec))))"

lemma parse_GRPDEF_one_less:
  "parse_GRPDEF_one k t rec = (Inr u, t', rec') \<Longrightarrow> \<not> omf_record_eof rec
     \<Longrightarrow> omf_record_data_available rec' < omf_record_data_available rec"
  by (fastforce simp: parse_GRPDEF_one_def split: if_splits sum.splits prod.splits
      dest: get_lenstr.avail_less get_byte.avail_less get_index.avail_le)

function parse_GRPDEF_loop ::
    "nat \<Rightarrow> omf_grpdefs_context_t \<Rightarrow> omf_record_t
     \<Rightarrow> (c_error + unit) \<times> omf_grpdefs_context_t \<times> omf_record_t" where
  "parse_GRPDEF_loop k t rec =
     (if omf_record_eof rec then (Inr (), t, rec)
      else case parse_GRPDEF_one k t rec of
          (Inl e, t1, rec1) \<Rightarrow> (Inl e, t1, rec1)
        | (Inr _, t1, rec1) \<Rightarrow> parse_GRPDEF_loop k t1 rec1)"
  by pat_completeness auto
termination
  by (relation "measure (\<lambda>(k, t, rec). omf_record_data_available rec)")
    (auto dest: parse_GRPDEF_one_less [OF sym])

declare parse_GRPDEF_loop.simps [simp del]

interpretation parse_GRPDEF: parse_loop "parse_GRPDEF_one k" "parse_GRPDEF_loop k" for k
  by unfold_locales (rule parse_GRPDEF_loop.simps, rule parse_GRPDEF_one_less)

definition omf_context_parse_GRPDEF ::
    "allocator \<Rightarrow> omf_context_t \<Rightarrow> omf_record_t \<Rightarrow> (c_error + nat) \<times> omf_context_t \<times> omf_record_t" where
  "omf_context_parse_GRPDEF mal ctx rec =
     (let first_entry = omf_grpdefs_context_get_next_add_index (GRPDEFs ctx) in
      case omf_grpdefs_context_add_grpdef mal (GRPDEFs ctx) of
        (Inl e, t) \<Rightarrow> (Inl e, ctx\<lparr>GRPDEFs := t\<rparr>, rec)
      | (Inr k, t) \<Rightarrow>
          if omf_record_eof rec then (Inl EPLAIN, ctx\<lparr>GRPDEFs := t\<rparr>, rec)
          else
            let (ni, rec) = omf_record_get_index rec;
                t = t\<lparr>omf_GRPDEFS := set_entry k (\<lambda>g. g\<lparr>group_name_index := ni\<rparr>) (omf_GRPDEFS t)\<rparr>
            in (case parse_GRPDEF_loop k t rec of
                  (Inl e, t, rec) \<Rightarrow> (Inl e, ctx\<lparr>GRPDEFs := t\<rparr>, rec)
                | (Inr _, t, rec) \<Rightarrow> (Inr first_entry, ctx\<lparr>GRPDEFs := t\<rparr>, rec)))"

section \<open>EXTDEF\<close>

definition omf_extdefs_context_set_extdef_name ::
    "allocator \<Rightarrow> omf_extdefs_context_t \<Rightarrow> nat \<Rightarrow> u8 list \<Rightarrow> (c_error + unit) \<times> omf_extdefs_context_t" where
  "omf_extdefs_context_set_extdef_name mal t k bs =
     (case cstr_set_n mal (ed_name_string (entries_of (omf_EXTDEFS t) ! k)) bs of
        (r, p) \<Rightarrow> (r, t\<lparr>omf_EXTDEFS := set_entry k (\<lambda>e. e\<lparr>ed_name_string := p\<rparr>) (omf_EXTDEFS t)\<rparr>))"

definition parse_EXTDEF_one ::
    "allocator \<Rightarrow> omf_scope \<Rightarrow> omf_extdefs_context_t \<Rightarrow> omf_record_t
     \<Rightarrow> (c_error + unit) \<times> omf_extdefs_context_t \<times> omf_record_t" where
  "parse_EXTDEF_one mal ty t rec =
     (case omf_extdefs_context_add_extdef mal t of
        (Inl e, t) \<Rightarrow> (Inl e, t, rec)
      | (Inr k, t) \<Rightarrow>
          (case omf_record_get_lenstr 256 rec of
             (Inl e, rec) \<Rightarrow> (Inl e, t, rec)
           | (Inr bs, rec) \<Rightarrow>
               (case omf_extdefs_context_set_extdef_name mal t k bs of
                  (Inl e, t) \<Rightarrow> (Inl e, t, rec)
                | (Inr _, t) \<Rightarrow>
                    if omf_record_eof rec then (Inl EPLAIN, t, rec)
                    else
                      (case omf_record_get_index rec of (ti, rec) \<Rightarrow>
                         (Inr (), t\<lparr>omf_EXTDEFS := set_entry k
                            (\<lambda>e. e\<lparr>ed_type := ty, ed_type_index := ti\<rparr>) (omf_EXTDEFS t)\<rparr>, rec)))))"

lemma parse_EXTDEF_one_less:
  "parse_EXTDEF_one mal ty t rec = (Inr u, t', rec') \<Longrightarrow> \<not> omf_record_eof rec
     \<Longrightarrow> omf_record_data_available rec' < omf_record_data_available rec"
  by (fastforce simp: parse_EXTDEF_one_def split: if_splits sum.splits prod.splits
      dest: get_lenstr.avail_less get_byte.avail_less get_index.avail_le)

function parse_EXTDEF_loop ::
    "allocator \<Rightarrow> omf_scope \<Rightarrow> omf_extdefs_context_t \<Rightarrow> omf_record_t
     \<Rightarrow> (c_error + unit) \<times> omf_extdefs_context_t \<times> omf_record_t" where
  "parse_EXTDEF_loop mal ty t rec =
     (if omf_record_eof rec then (Inr (), t, rec)
      else case parse_EXTDEF_one mal ty t rec of
          (Inl e, t1, rec1) \<Rightarrow> (Inl e, t1, rec1)
        | (Inr _, t1, rec1) \<Rightarrow> parse_EXTDEF_loop mal ty t1 rec1)"
  by pat_completeness auto
termination
  by (relation "measure (\<lambda>(mal, ty, t, rec). omf_record_data_available rec)")
    (auto dest: parse_EXTDEF_one_less [OF sym])

declare parse_EXTDEF_loop.simps [simp del]

interpretation parse_EXTDEF: parse_loop "parse_EXTDEF_one mal ty" "parse_EXTDEF_loop mal ty"
  for mal ty
  by unfold_locales (rule parse_EXTDEF_loop.simps, rule parse_EXTDEF_one_less)

definition omf_context_parse_EXTDEF ::
    "allocator \<Rightarrow> omf_context_t \<Rightarrow> omf_record_t \<Rightarrow> (c_error + nat) \<times> omf_context_t \<times> omf_record_t" where
  "omf_context_parse_EXTDEF mal ctx rec =
     (let first_entry = omf_extdefs_context_get_next_add_index (EXTDEFs ctx);
          ty = (if rectype rec AND 0xFE = 0xB4 then LOCAL else GLOBAL)
      in case parse_EXTDEF_loop mal ty (EXTDEFs ctx) rec of
           (Inl e, t, rec) \<Rightarrow> (Inl e, ctx\<lparr>EXTDEFs := t\<rparr>, rec)
         | (Inr _, t, rec) \<Rightarrow> (Inr first_entry, ctx\<lparr>EXTDEFs := t\<rparr>, rec))"

section \<open>PUBDEF\<close>

definition omf_pubdefs_context_set_pubdef_name ::
    "allocator \<Rightarrow> omf_pubdefs_context_t \<Rightarrow> nat \<Rightarrow> u8 list \<Rightarrow> (c_error + unit) \<times> omf_pubdefs_context_t" where
  "omf_pubdefs_context_set_pubdef_name mal t k bs =
     (case cstr_set_n mal (pd_name_string (entries_of (omf_PUBDEFS t) ! k)) bs of
        (r, p) \<Rightarrow> (r, t\<lparr>omf_PUBDEFS := set_entry k (\<lambda>e. e\<lparr>pd_name_string := p\<rparr>) (omf_PUBDEFS t)\<rparr>))"

definition parse_PUBDEF_one ::
    "allocator \<Rightarrow> omf_scope \<Rightarrow> u32 \<Rightarrow> u32 \<Rightarrow> omf_pubdefs_context_t \<Rightarrow> omf_record_t
     \<Rightarrow> (c_error + unit) \<times> omf_pubdefs_context_t \<times> omf_record_t" where
  "parse_PUBDEF_one mal ty gi si t rec =
     (case omf_pubdefs_context_add_pubdef mal t of
        (Inl e, t) \<Rightarrow> (Inl e, t, rec)
      | (Inr k, t) \<Rightarrow>
          (case omf_record_get_lenstr 256 rec of
             (Inl e, rec) \<Rightarrow> (Inl e, t, rec)
           | (Inr bs, rec) \<Rightarrow>
               (case omf_pubdefs_context_set_pubdef_name mal t k bs of
                  (Inl e, t) \<Rightarrow> (Inl e, t, rec)
                | (Inr _, t) \<Rightarrow>
                    if omf_record_eof rec then (Inl EPLAIN, t, rec)
                    else
                      (case omf_record_get_offset rec of (ofs, rec) \<Rightarrow>
                        (case omf_record_get_index rec of (ti, rec) \<Rightarrow>
                          (Inr (), t\<lparr>omf_PUBDEFS := set_entry k
                             (\<lambda>e. e\<lparr>pd_group_index := gi, pd_segment_index := si,
                                    public_offset := ofs, pd_type_index := ti, pd_type := ty\<rparr>)
                             (omf_PUBDEFS t)\<rparr>, rec))))))"

lemma parse_PUBDEF_one_less:
  "parse_PUBDEF_one mal ty gi si t rec = (Inr u, t', rec') \<Longrightarrow> \<not> omf_record_eof rec
     \<Longrightarrow> omf_record_data_available rec' < omf_record_data_available rec"
  by (fastforce simp: parse_PUBDEF_one_def split: if_splits sum.splits prod.splits
      dest: get_lenstr.avail_less get_byte.avail_less get_index.avail_le get_offset.avail_le)

function parse_PUBDEF_loop ::
    "allocator \<Rightarrow> omf_scope \<Rightarrow> u32 \<Rightarrow> u32 \<Rightarrow> omf_pubdefs_context_t \<Rightarrow> omf_record_t
     \<Rightarrow> (c_error + unit) \<times> omf_pubdefs_context_t \<times> omf_record_t" where
  "parse_PUBDEF_loop mal ty gi si t rec =
     (if omf_record_eof rec then (Inr (), t, rec)
      else case parse_PUBDEF_one mal ty gi si t rec of
          (Inl e, t1, rec1) \<Rightarrow> (Inl e, t1, rec1)
        | (Inr _, t1, rec1) \<Rightarrow> parse_PUBDEF_loop mal ty gi si t1 rec1)"
  by pat_completeness auto
termination
  by (relation "measure (\<lambda>(mal, ty, gi, si, t, rec). omf_record_data_available rec)")
    (auto dest: parse_PUBDEF_one_less [OF sym])

declare parse_PUBDEF_loop.simps [simp del]

interpretation parse_PUBDEF: parse_loop "parse_PUBDEF_one mal ty gi si" "parse_PUBDEF_loop mal ty gi si"
  for mal ty gi si
  by unfold_locales (rule parse_PUBDEF_loop.simps, rule parse_PUBDEF_one_less)

definition omf_context_parse_PUBDEF ::
    "allocator \<Rightarrow> omf_context_t \<Rightarrow> omf_record_t \<Rightarrow> (c_error + nat) \<times> omf_context_t \<times> omf_record_t" where
  "omf_context_parse_PUBDEF mal ctx rec =
     (let first_entry = omf_pubdefs_context_get_next_add_index (PUBDEFs ctx);
          ty = (if rectype rec AND 0xFE = 0xB6 then LOCAL else GLOBAL)
      in if omf_record_eof rec then (Inl EPLAIN, ctx, rec)
         else
           let (gi, rec) = omf_record_get_index rec;
               (si, rec) = omf_record_get_index rec;
               rec = (if si = 0 then snd (omf_record_get_word rec) else rec)
           in (case parse_PUBDEF_loop mal ty gi si (PUBDEFs ctx) rec of
                 (Inl e, t, rec) \<Rightarrow> (Inl e, ctx\<lparr>PUBDEFs := t\<rparr>, rec)
               | (Inr _, t, rec) \<Rightarrow> (Inr first_entry, ctx\<lparr>PUBDEFs := t\<rparr>, rec)))"

section \<open>LEDATA and LIDATA\<close>

text \<open>The data pointer of the C structure points into the record: here, the bytes it reaches.\<close>

record omf_ledata_info_t =
  segment_index :: u32
  enum_data_offset :: u64
  le_data :: "u8 list option"

definition data_length :: "omf_ledata_info_t \<Rightarrow> nat" where
  "data_length info = length (entries_of (le_data info))"

definition omf_ledata_parse_header ::
    "omf_ledata_info_t \<Rightarrow> omf_record_t \<Rightarrow> (c_error + unit) \<times> omf_ledata_info_t \<times> omf_record_t" where
  "omf_ledata_parse_header info rec =
     (let info = info\<lparr>le_data := None\<rparr> in
      if omf_record_eof rec then (Inl EPLAIN, info, rec)
      else
        let (si, rec) = omf_record_get_index rec; info = info\<lparr>segment_index := si\<rparr> in
        if omf_record_eof rec then (Inl EPLAIN, info, rec)
        else
          let (eno, rec) = omf_record_get_offset rec in
          (Inr (), info\<lparr>enum_data_offset := eno,
             le_data := Some (take (omf_record_data_available rec)
                               (drop (unat (recpos rec)) (the (data rec))))\<rparr>, rec))"

definition omf_context_update_last_LEDATA ::
    "omf_context_t \<Rightarrow> omf_ledata_info_t \<Rightarrow> omf_record_t \<Rightarrow> omf_context_t" where
  "omf_context_update_last_LEDATA ctx info rec = ctx\<lparr>
     last_LEDATA_eno := enum_data_offset info, last_LEDATA_rec := rec_file_offset rec,
     last_LEDATA_seg := ucast (segment_index info), last_LEDATA_hdr := ucast (recpos rec)\<rparr>"

definition omf_context_parse_LEDATA ::
    "omf_context_t \<Rightarrow> omf_ledata_info_t \<Rightarrow> omf_record_t
     \<Rightarrow> (c_error + unit) \<times> omf_context_t \<times> omf_ledata_info_t \<times> omf_record_t" where
  "omf_context_parse_LEDATA ctx info rec =
     (case omf_ledata_parse_header info rec of
        (Inl e, info, rec) \<Rightarrow> (Inl e, ctx, info, rec)
      | (Inr _, info, rec) \<Rightarrow> (Inr (), omf_context_update_last_LEDATA ctx info rec, info, rec))"

definition omf_context_parse_LIDATA ::
    "omf_context_t \<Rightarrow> omf_ledata_info_t \<Rightarrow> omf_record_t
     \<Rightarrow> (c_error + unit) \<times> omf_context_t \<times> omf_ledata_info_t \<times> omf_record_t" where
  "omf_context_parse_LIDATA ctx info rec =
     (case omf_ledata_parse_header info rec of
        (Inl e, info, rec) \<Rightarrow> (Inl e, ctx, info, rec)
      | (Inr _, info, rec) \<Rightarrow> (Inr (), omf_context_update_last_LEDATA ctx info rec, info, rec))"

section \<open>FIXUPP\<close>

text \<open>The frame datum: by a frame thread (bit 7), or a method with an index for methods 0 to 2.\<close>

definition parse_FIXUPP_frame ::
    "omf_fixupps_context_t \<Rightarrow> u8 \<Rightarrow> omf_record_t \<Rightarrow> 3 word \<times> u16 \<times> omf_record_t" where
  "parse_FIXUPP_frame t fb rec =
     (if fb AND 0x80 \<noteq> 0 then
        let thrd = frame_thread t ! unat (drop_bit 4 fb AND 3)
        in (th_method thrd, ucast (th_index thrd), rec)
      else
        let m = (ucast (drop_bit 4 fb AND 7) :: 3 word) in
        if m \<le> 2 then let (i, rec) = omf_record_get_index rec in (m, ucast i, rec)
        else (m, 0, rec))"

definition parse_FIXUPP_target ::
    "omf_fixupps_context_t \<Rightarrow> u8 \<Rightarrow> omf_record_t \<Rightarrow> 3 word \<times> u16 \<times> omf_record_t" where
  "parse_FIXUPP_target t fb rec =
     (if fb AND 0x08 \<noteq> 0 then
        let thrd = target_thread t ! unat (fb AND 3)
        in (th_method thrd, ucast (th_index thrd), rec)
      else let (i, rec) = omf_record_get_index rec in (ucast (fb AND 3), ucast i, rec))"

definition parse_FIXUPP_fixup ::
    "omf_context_t \<Rightarrow> u8 \<Rightarrow> omf_record_t \<Rightarrow> omf_fixupp_t \<times> omf_record_t" where
  "parse_FIXUPP_fixup ctx fb rec =
     (let (lo, rec) = omf_record_get_byte rec;
          (fd, rec) = omf_record_get_byte rec;
          (fm, fi, rec) = parse_FIXUPP_frame (FIXUPPs ctx) fd rec;
          (tm, ti, rec) = parse_FIXUPP_target (FIXUPPs ctx) fd rec;
          (disp, rec) = (if fd AND 0x04 \<noteq> 0 then (0, rec) else omf_record_get_offset rec)
      in (\<lparr>segment_relative = (fb AND 0x40 \<noteq> 0), location = ucast (drop_bit 2 fb AND 0xF),
           frame_method = (if fm = 4 then 0 else fm), target_method = tm, alloc = True,
           data_record_offset = push_bit 8 (ucast (fb AND 3)) + ucast lo,
           frame_index = (if fm = 4 then last_LEDATA_seg ctx else fi), target_index = ti,
           fixup_segdef_index = last_LEDATA_seg ctx, target_displacement = disp,
           omf_rec_file_offset = last_LEDATA_rec ctx, omf_rec_file_enoffs = last_LEDATA_eno ctx,
           omf_rec_file_header = last_LEDATA_hdr ctx\<rparr>, rec))"

definition parse_FIXUPP_thread ::
    "omf_fixupps_context_t \<Rightarrow> u8 \<Rightarrow> omf_record_t \<Rightarrow> (c_error + unit) \<times> omf_fixupps_context_t \<times> omf_record_t" where
  "parse_FIXUPP_thread t fb rec =
     (if fb AND 0xA0 \<noteq> 0 then (Inl EPLAIN, t, rec)
      else
        let isframe = (fb AND 0x40 \<noteq> 0); n = unat (fb AND 3);
            m = (ucast (if isframe then drop_bit 2 fb AND 7 else drop_bit 2 fb AND 3) :: 3 word);
            (i, rec) = (if m \<le> 2 then omf_record_get_index rec else (0, rec));
            thrd = \<lparr>th_method = m, th_alloc = True, th_index = i\<rparr>
        in (Inr (), (if isframe then t\<lparr>frame_thread := (frame_thread t)[n := thrd]\<rparr>
                     else t\<lparr>target_thread := (target_thread t)[n := thrd]\<rparr>), rec))"

definition omf_context_parse_FIXUPP_subrecord ::
    "allocator \<Rightarrow> omf_context_t \<Rightarrow> omf_record_t \<Rightarrow> (c_error + unit) \<times> omf_context_t \<times> omf_record_t" where
  "omf_context_parse_FIXUPP_subrecord mal ctx rec =
     (case omf_record_get_byte rec of (fb, rec) \<Rightarrow>
        if fb AND 0x80 \<noteq> 0 then
          (case omf_fixupps_context_add_fixupp mal (FIXUPPs ctx) of
             (Inl e, t) \<Rightarrow> (Inl e, ctx\<lparr>FIXUPPs := t\<rparr>, rec)
           | (Inr k, t) \<Rightarrow>
               (case parse_FIXUPP_fixup (ctx\<lparr>FIXUPPs := t\<rparr>) fb rec of
                  (ent, rec) \<Rightarrow>
                    (Inr (), ctx\<lparr>FIXUPPs := t\<lparr>omf_FIXUPPS := set_entry k (\<lambda>_. ent) (omf_FIXUPPS t)\<rparr>\<rparr>, rec)))
        else
          (case parse_FIXUPP_thread (FIXUPPs ctx) fb rec of
             (r, t, rec) \<Rightarrow> (r, ctx\<lparr>FIXUPPs := t\<rparr>, rec)))"

lemma parse_FIXUPP_frame_le:
  "parse_FIXUPP_frame t fb rec = (m, i, rec') \<Longrightarrow> omf_record_data_available rec' \<le> omf_record_data_available rec"
  by (auto simp: parse_FIXUPP_frame_def Let_def split: if_splits prod.splits dest: get_index.avail_le)

lemma parse_FIXUPP_target_le:
  "parse_FIXUPP_target t fb rec = (m, i, rec') \<Longrightarrow> omf_record_data_available rec' \<le> omf_record_data_available rec"
  by (auto simp: parse_FIXUPP_target_def Let_def split: if_splits prod.splits dest: get_index.avail_le)

lemma parse_FIXUPP_fixup_le:
  "parse_FIXUPP_fixup ctx fb rec = (ent, rec') \<Longrightarrow> omf_record_data_available rec' \<le> omf_record_data_available rec"
  by (force simp: parse_FIXUPP_fixup_def Let_def split: if_splits prod.splits
      dest!: get_byte.avail_le get_offset.avail_le parse_FIXUPP_frame_le parse_FIXUPP_target_le)

lemma parse_FIXUPP_thread_le:
  "parse_FIXUPP_thread t fb rec = (r, t', rec') \<Longrightarrow> omf_record_data_available rec' \<le> omf_record_data_available rec"
  by (auto simp: parse_FIXUPP_thread_def Let_def split: if_splits prod.splits dest: get_index.avail_le)

lemma parse_FIXUPP_subrecord_less:
  assumes "omf_context_parse_FIXUPP_subrecord mal ctx rec = (r, ctx', rec')" and "\<not> omf_record_eof rec"
  shows "omf_record_data_available rec' < omf_record_data_available rec"
proof -
  obtain fb rec1 where b: "omf_record_get_byte rec = (fb, rec1)"
    by (cases "omf_record_get_byte rec")
  have "omf_record_data_available rec' \<le> omf_record_data_available rec1"
    using assms(1)
    by (auto simp: omf_context_parse_FIXUPP_subrecord_def b split: if_splits sum.splits prod.splits
        dest: parse_FIXUPP_fixup_le parse_FIXUPP_thread_le)
  with get_byte.avail_less [OF b assms(2)] show ?thesis by simp
qed

function parse_FIXUPP_loop ::
    "allocator \<Rightarrow> omf_context_t \<Rightarrow> omf_record_t
     \<Rightarrow> (c_error + unit) \<times> omf_context_t \<times> omf_record_t" where
  "parse_FIXUPP_loop mal ctx rec =
     (if omf_record_eof rec then (Inr (), ctx, rec)
      else case omf_context_parse_FIXUPP_subrecord mal ctx rec of
          (Inl e, ctx1, rec1) \<Rightarrow> (Inl e, ctx1, rec1)
        | (Inr _, ctx1, rec1) \<Rightarrow> parse_FIXUPP_loop mal ctx1 rec1)"
  by pat_completeness auto
termination
  by (relation "measure (\<lambda>(mal, ctx, rec). omf_record_data_available rec)")
    (auto dest: parse_FIXUPP_subrecord_less [OF sym])

declare parse_FIXUPP_loop.simps [simp del]

interpretation parse_FIXUPP: parse_loop "omf_context_parse_FIXUPP_subrecord mal" "parse_FIXUPP_loop mal"
  for mal
  by unfold_locales (rule parse_FIXUPP_loop.simps, rule parse_FIXUPP_subrecord_less)

definition omf_context_parse_FIXUPP ::
    "allocator \<Rightarrow> omf_context_t \<Rightarrow> omf_record_t \<Rightarrow> (c_error + nat) \<times> omf_context_t \<times> omf_record_t" where
  "omf_context_parse_FIXUPP mal ctx rec =
     (let first_entry = omf_fixupps_context_get_next_add_index (FIXUPPs ctx) in
      case parse_FIXUPP_loop mal ctx rec of
        (Inl e, ctx, rec) \<Rightarrow> (Inl e, ctx, rec)
      | (Inr _, ctx, rec) \<Rightarrow> (Inr first_entry, ctx, rec))"

section \<open>The record of a context\<close>

text \<open>The record of the context is parsed in place.\<close>

definition on_record ::
    "(omf_context_t \<Rightarrow> omf_record_t \<Rightarrow> (c_error + 'a) \<times> omf_context_t \<times> omf_record_t)
     \<Rightarrow> omf_context_t \<Rightarrow> (c_error + 'a) \<times> omf_context_t" where
  "on_record p ctx =
     (case p ctx (ctx_record ctx) of (r, ctx, rec) \<Rightarrow> (r, ctx\<lparr>ctx_record := rec\<rparr>))"

end
