(* ===== verification/OmfParseFacts.thy ===== *)
theory OmfParseFacts
  imports OmfParse OmfWriter
begin

text \<open>
  What the record parsers guarantee: on any bytes they keep the tables well-formed, and on
  the encoding of a list of definitions they append exactly these definitions.
\<close>

section \<open>The parsers keep the tables well-formed\<close>

lemma add_name_bound:
  assumes "omf_lnames_context_add_name mal t name = (r, t')"
    and "omf_LNAMES_count t \<le> omf_LNAMES_alloc t"
  shows "omf_LNAMES_count t' \<le> omf_LNAMES_alloc t'"
  using assms
  by (auto simp: omf_lnames_context_add_name_def omf_lnames_context_set_name_def
      omf_lnames_context_alloc_names_def cstr_set_n_def omf_LNAMES_count_def Let_def
      split: if_splits option.splits sum.splits prod.splits)

lemma parse_LNAMES_loop_bound:
  assumes "parse_LNAMES_loop mal t rec = (r, t', rec')"
    and "omf_LNAMES_count t \<le> omf_LNAMES_alloc t \<and> wf_record rec"
  shows "omf_LNAMES_count t' \<le> omf_LNAMES_alloc t' \<and> wf_record rec'"
  by (rule parse_LNAMES.invariant
      [where I = "\<lambda>t rec. omf_LNAMES_count t \<le> omf_LNAMES_alloc t \<and> wf_record rec", OF _ assms])
    (auto simp: parse_LNAMES_one_def split: sum.splits prod.splits
      dest: add_name_bound get_lenstr.wf)

lemma add_extdef_bound:
  "omf_extdefs_context_add_extdef mal t = (r, t') \<Longrightarrow> omf_EXTDEFS_count t \<le> omf_EXTDEFS_alloc t
     \<Longrightarrow> omf_EXTDEFS_count t' \<le> omf_EXTDEFS_alloc t'"
  using extdefs.within_capacity by (simp add: omf_EXTDEFS_count_def)

lemma set_extdef_name_bound:
  "omf_extdefs_context_set_extdef_name mal t k bs = (r, t') \<Longrightarrow> omf_EXTDEFS_count t \<le> omf_EXTDEFS_alloc t
     \<Longrightarrow> omf_EXTDEFS_count t' \<le> omf_EXTDEFS_alloc t'"
  by (auto simp: omf_extdefs_context_set_extdef_name_def omf_EXTDEFS_count_def split: prod.splits)

lemma parse_EXTDEF_loop_bound:
  assumes "parse_EXTDEF_loop mal ty t rec = (r, t', rec')"
    and "omf_EXTDEFS_count t \<le> omf_EXTDEFS_alloc t \<and> wf_record rec"
  shows "omf_EXTDEFS_count t' \<le> omf_EXTDEFS_alloc t' \<and> wf_record rec'"
proof (rule parse_EXTDEF.invariant
      [where I = "\<lambda>t rec. omf_EXTDEFS_count t \<le> omf_EXTDEFS_alloc t \<and> wf_record rec", OF _ assms])
  have upd: "omf_EXTDEFS_count (u\<lparr>omf_EXTDEFS := set_entry k f (omf_EXTDEFS u)\<rparr>) = omf_EXTDEFS_count u"
    for u k f by (simp add: omf_EXTDEFS_count_def)
  fix t rec r t' rec'
  assume "omf_EXTDEFS_count t \<le> omf_EXTDEFS_alloc t \<and> wf_record rec"
    and "parse_EXTDEF_one mal ty t rec = (r, t', rec')"
  then show "omf_EXTDEFS_count t' \<le> omf_EXTDEFS_alloc t' \<and> wf_record rec'"
    by (auto simp: parse_EXTDEF_one_def upd split: sum.splits prod.splits if_splits
        dest: get_lenstr.wf get_index.wf)
      (metis add_extdef_bound set_extdef_name_bound get_lenstr.wf)+
qed

lemma add_pubdef_bound:
  "omf_pubdefs_context_add_pubdef mal t = (r, t') \<Longrightarrow> omf_PUBDEFS_count t \<le> omf_PUBDEFS_alloc t
     \<Longrightarrow> omf_PUBDEFS_count t' \<le> omf_PUBDEFS_alloc t'"
  using pubdefs.within_capacity by (simp add: omf_PUBDEFS_count_def)

lemma set_pubdef_name_bound:
  "omf_pubdefs_context_set_pubdef_name mal t k bs = (r, t') \<Longrightarrow> omf_PUBDEFS_count t \<le> omf_PUBDEFS_alloc t
     \<Longrightarrow> omf_PUBDEFS_count t' \<le> omf_PUBDEFS_alloc t'"
  by (auto simp: omf_pubdefs_context_set_pubdef_name_def omf_PUBDEFS_count_def split: prod.splits)

lemma parse_PUBDEF_loop_bound:
  assumes "parse_PUBDEF_loop mal ty gi si t rec = (r, t', rec')"
    and "omf_PUBDEFS_count t \<le> omf_PUBDEFS_alloc t \<and> wf_record rec"
  shows "omf_PUBDEFS_count t' \<le> omf_PUBDEFS_alloc t' \<and> wf_record rec'"
proof (rule parse_PUBDEF.invariant
      [where I = "\<lambda>t rec. omf_PUBDEFS_count t \<le> omf_PUBDEFS_alloc t \<and> wf_record rec", OF _ assms])
  have upd: "omf_PUBDEFS_count (u\<lparr>omf_PUBDEFS := set_entry k f (omf_PUBDEFS u)\<rparr>) = omf_PUBDEFS_count u"
    for u k f by (simp add: omf_PUBDEFS_count_def)
  fix t rec r t' rec'
  assume "omf_PUBDEFS_count t \<le> omf_PUBDEFS_alloc t \<and> wf_record rec"
    and "parse_PUBDEF_one mal ty gi si t rec = (r, t', rec')"
  then show "omf_PUBDEFS_count t' \<le> omf_PUBDEFS_alloc t' \<and> wf_record rec'"
    by (auto simp: parse_PUBDEF_one_def upd split: sum.splits prod.splits if_splits
        dest: get_lenstr.wf get_index.wf get_offset.wf)
      (metis add_pubdef_bound set_pubdef_name_bound get_lenstr.wf get_offset.wf)+
qed

lemma parse_GRPDEF_loop_wf:
  assumes "parse_GRPDEF_loop k t rec = (r, t', rec')"
    and "wf_grpdefs t \<and> wf_record rec"
  shows "wf_grpdefs t' \<and> wf_record rec'"
  by (rule parse_GRPDEF.invariant
      [where I = "\<lambda>t rec. wf_grpdefs t \<and> wf_record rec", OF _ assms])
    (auto simp: parse_GRPDEF_one_def split: sum.splits prod.splits if_splits
      dest: add_grpdef_segdef_wf get_byte.wf get_index.wf)

definition wf_fixupps :: "omf_fixupps_context_t \<Rightarrow> bool" where
  "wf_fixupps t \<longleftrightarrow> omf_FIXUPPS_count t \<le> omf_FIXUPPS_alloc t
     \<and> length (frame_thread t) = 4 \<and> length (target_thread t) = 4"

lemma wf_fixupps_set_entry [simp]:
  "wf_fixupps (t\<lparr>omf_FIXUPPS := set_entry k f (omf_FIXUPPS t)\<rparr>) = wf_fixupps t"
  by (simp add: wf_fixupps_def omf_FIXUPPS_count_def)

lemma wf_fixupps_threads [simp]:
  "wf_fixupps (t\<lparr>frame_thread := (frame_thread t)[n := x]\<rparr>) = wf_fixupps t"
  "wf_fixupps (t\<lparr>target_thread := (target_thread t)[n := x]\<rparr>) = wf_fixupps t"
  by (simp_all add: wf_fixupps_def omf_FIXUPPS_count_def)

lemma add_fixupp_wf:
  assumes "omf_fixupps_context_add_fixupp mal t = (r, t')" and "wf_fixupps t"
  shows "wf_fixupps t'"
  using assms fixupps.within_capacity [of mal t r t']
  by (auto simp: wf_fixupps_def omf_FIXUPPS_count_def omf_fixupps_context_add_fixupp_def
      omf_fixupps_context_alloc_fixupps_def split: if_splits sum.splits prod.splits option.splits)

lemma parse_FIXUPP_frame_wf:
  "parse_FIXUPP_frame t fb rec = (m, i, rec') \<Longrightarrow> wf_record rec \<Longrightarrow> wf_record rec'"
  by (auto simp: parse_FIXUPP_frame_def Let_def split: if_splits prod.splits dest: get_index.wf)

lemma parse_FIXUPP_target_wf:
  "parse_FIXUPP_target t fb rec = (m, i, rec') \<Longrightarrow> wf_record rec \<Longrightarrow> wf_record rec'"
  by (auto simp: parse_FIXUPP_target_def Let_def split: if_splits prod.splits dest: get_index.wf)

lemma parse_FIXUPP_fixup_wf:
  "parse_FIXUPP_fixup ctx fb rec = (ent, rec') \<Longrightarrow> wf_record rec \<Longrightarrow> wf_record rec'"
  by (force simp: parse_FIXUPP_fixup_def Let_def split: if_splits prod.splits
      dest!: get_byte.wf get_offset.wf parse_FIXUPP_frame_wf parse_FIXUPP_target_wf)

lemma parse_FIXUPP_thread_wf:
  "parse_FIXUPP_thread t fb rec = (r, t', rec') \<Longrightarrow> wf_fixupps t \<and> wf_record rec
     \<Longrightarrow> wf_fixupps t' \<and> wf_record rec'"
  by (auto simp: parse_FIXUPP_thread_def Let_def split: if_splits prod.splits dest: get_index.wf)

lemma parse_FIXUPP_subrecord_wf:
  assumes "omf_context_parse_FIXUPP_subrecord mal ctx rec = (r, ctx', rec')"
    and "wf_fixupps (FIXUPPs ctx) \<and> wf_record rec"
  shows "wf_fixupps (FIXUPPs ctx') \<and> wf_record rec' \<and> (\<exists>t. ctx' = ctx\<lparr>FIXUPPs := t\<rparr>)"
proof -
  obtain fb rec1 where b: "omf_record_get_byte rec = (fb, rec1)"
    by (cases "omf_record_get_byte rec")
  with assms have "wf_record rec1" using get_byte.wf by blast
  with assms show ?thesis
    by (auto simp: omf_context_parse_FIXUPP_subrecord_def b split: if_splits sum.splits prod.splits
        dest: parse_FIXUPP_fixup_wf parse_FIXUPP_thread_wf add_fixupp_wf)
qed

lemma parse_FIXUPP_loop_wf:
  assumes "parse_FIXUPP_loop mal ctx rec = (r, ctx', rec')"
    and "wf_fixupps (FIXUPPs ctx) \<and> wf_record rec"
  shows "wf_fixupps (FIXUPPs ctx') \<and> wf_record rec' \<and> (\<exists>t. ctx' = ctx\<lparr>FIXUPPs := t\<rparr>)"
proof (rule parse_FIXUPP.invariant
    [where I = "\<lambda>c rec. wf_fixupps (FIXUPPs c) \<and> wf_record rec \<and> (\<exists>t. c = ctx\<lparr>FIXUPPs := t\<rparr>)"
      and r = r, OF _ assms(1)])
  have "ctx = ctx\<lparr>FIXUPPs := FIXUPPs ctx\<rparr>" by simp
  with assms(2) show "wf_fixupps (FIXUPPs ctx) \<and> wf_record rec \<and> (\<exists>t. ctx = ctx\<lparr>FIXUPPs := t\<rparr>)"
    by blast
next
  fix c rec r c' rec'
  assume "wf_fixupps (FIXUPPs c) \<and> wf_record rec \<and> (\<exists>t. c = ctx\<lparr>FIXUPPs := t\<rparr>)"
    and "omf_context_parse_FIXUPP_subrecord mal c rec = (r, c', rec')"
  with parse_FIXUPP_subrecord_wf [of mal c rec r c' rec']
  show "wf_fixupps (FIXUPPs c') \<and> wf_record rec' \<and> (\<exists>t. c' = ctx\<lparr>FIXUPPs := t\<rparr>)"
    by auto
qed


lemma parse_SEGDEF_tail_wf:
  "parse_SEGDEF_tail s rec = (r, s', rec') \<Longrightarrow> wf_record rec \<Longrightarrow> wf_record rec'"
  by (force simp: parse_SEGDEF_tail_def Let_def split: if_splits prod.splits
      dest!: get_index.wf get_offset.wf)

lemma parse_SEGDEF_entry_wf:
  "parse_SEGDEF_entry s rec = (r, s', rec') \<Longrightarrow> wf_record rec \<Longrightarrow> wf_record rec'"
  by (force simp: parse_SEGDEF_entry_def Let_def split: if_splits prod.splits
      dest!: get_byte.wf get_word.wf parse_SEGDEF_tail_wf)

text \<open>Every parser, on every record and with every outcome, keeps the context well-formed.\<close>

lemma parse_LNAMES_wf:
  assumes "omf_context_parse_LNAMES mal ctx rec = (r, ctx', rec')" "wf_context ctx" "wf_record rec"
  shows "wf_context ctx' \<and> wf_record rec'"
  using assms parse_LNAMES_loop_bound [of mal "LNAMEs ctx" rec]
  by (fastforce simp: omf_context_parse_LNAMES_def wf_context_def split: sum.splits prod.splits)

lemma parse_EXTDEF_wf:
  assumes "omf_context_parse_EXTDEF mal ctx rec = (r, ctx', rec')" "wf_context ctx" "wf_record rec"
  shows "wf_context ctx' \<and> wf_record rec'"
  using assms parse_EXTDEF_loop_bound [of mal _ "EXTDEFs ctx" rec]
  by (fastforce simp: omf_context_parse_EXTDEF_def wf_context_def Let_def split: sum.splits prod.splits)

lemma parse_PUBDEF_wf:
  assumes "omf_context_parse_PUBDEF mal ctx rec = (r, ctx', rec')" "wf_context ctx" "wf_record rec"
  shows "wf_context ctx' \<and> wf_record rec'"
proof -
  obtain gi rec1 where r1: "omf_record_get_index rec = (gi, rec1)"
    by (cases "omf_record_get_index rec")
  obtain si rec2 where r2: "omf_record_get_index rec1 = (si, rec2)"
    by (cases "omf_record_get_index rec1")
  define rec3 where "rec3 = (if si = 0 then snd (omf_record_get_word rec2) else rec2)"
  have "wf_record rec3"
    using assms(3) r1 r2 get_index.wf get_word.wf [of rec2 "fst (omf_record_get_word rec2)"]
    by (auto simp: rec3_def)
  then show ?thesis
    using assms parse_PUBDEF_loop_bound [of mal _ gi si "PUBDEFs ctx" rec3]
    by (fastforce simp: omf_context_parse_PUBDEF_def wf_context_def Let_def r1 r2
        simp flip: rec3_def split: sum.splits prod.splits if_splits)
qed

lemma wf_grpdefs_set_name [simp]:
  "wf_grpdefs (t\<lparr>omf_GRPDEFS := set_entry k (\<lambda>g. g\<lparr>group_name_index := n\<rparr>) (omf_GRPDEFS t)\<rparr>)
     = wf_grpdefs t"
proof -
  have *: "tiles s (gs[k := (gs ! k)\<lparr>group_name_index := n\<rparr>]) m = tiles s gs m" for s gs m k
    by (induction gs arbitrary: s k) (auto split: nat.split)
  show ?thesis
    by (cases "omf_GRPDEFS t") (simp_all add: wf_grpdefs_def set_entry_def segdefs_count_def *)
qed

lemma parse_GRPDEF_wf:
  assumes "omf_context_parse_GRPDEF mal ctx rec = (r, ctx', rec')" "wf_context ctx" "wf_record rec"
  shows "wf_context ctx' \<and> wf_record rec'"
proof -
  obtain r1 t1 where a: "omf_grpdefs_context_add_grpdef mal (GRPDEFs ctx) = (r1, t1)"
    by (cases "omf_grpdefs_context_add_grpdef mal (GRPDEFs ctx)")
  have t1: "wf_grpdefs t1"
    using add_grpdef_wf [OF _ a] assms(2) by (simp add: wf_context_def)
  obtain ni rec1 where r: "omf_record_get_index rec = (ni, rec1)"
    by (cases "omf_record_get_index rec")
  then have "wf_record rec1" using assms(3) get_index.wf by blast
  with t1 assms show ?thesis
    by (auto simp: omf_context_parse_GRPDEF_def wf_context_def a r Let_def
        split: sum.splits prod.splits if_splits dest!: parse_GRPDEF_loop_wf)
qed

lemma parse_SEGDEF_wf:
  assumes "omf_context_parse_SEGDEF mal ctx rec = (r, ctx', rec')" "wf_context ctx" "wf_record rec"
  shows "wf_context ctx' \<and> wf_record rec'"
  using assms segdefs.within_capacity [of mal "SEGDEFs ctx"]
  by (fastforce simp: omf_context_parse_SEGDEF_def wf_context_def omf_SEGDEFS_count_def Let_def
      split: sum.splits prod.splits dest: parse_SEGDEF_entry_wf)

lemma parse_FIXUPP_wf:
  assumes "omf_context_parse_FIXUPP mal ctx rec = (r, ctx', rec')" "wf_context ctx" "wf_record rec"
  shows "wf_context ctx' \<and> wf_record rec'"
proof -
  have "wf_fixupps (FIXUPPs ctx)" using assms(2) by (simp add: wf_context_def wf_fixupps_def)
  moreover obtain r1 c rec1 where "parse_FIXUPP_loop mal ctx rec = (r1, c, rec1)"
      "ctx' = c" "rec' = rec1"
    using assms(1) by (auto simp: omf_context_parse_FIXUPP_def split: sum.splits prod.splits)
  ultimately show ?thesis
    using parse_FIXUPP_loop_wf [of mal ctx rec r1 c rec1] assms(2,3)
    by (auto simp: wf_context_def wf_fixupps_def)
qed

end
