(* ===== verification/OmfDecode.thy ===== *)
theory OmfDecode
  imports OmfParseFacts
begin

text \<open>
  Round trips of the record parsers: the OMF encoding of a list of names, external names,
  public names, a segment definition or a group definition is parsed back to exactly these
  definitions, appended to the tables.
\<close>

section \<open>Encodings\<close>

definition lenstr :: "u8 list \<Rightarrow> u8 list" where
  "lenstr s = of_nat (length s) # s"

lemma lenstr_nonempty [simp]: "lenstr s \<noteq> []"
  by (simp add: lenstr_def)

lemma bytes_index_nonempty [simp]: "bytes_index c \<noteq> []"
  by (simp add: bytes_index_def)

lemma consume:
  assumes "wf_record rec" and "remaining rec = bs @ rest"
  shows "wf_record (adv (length bs) rec)" and "remaining (adv (length bs) rec) = rest"
  using assms by (simp_all add: wf_record_adv remaining_adv)

lemma get_lenstr_lenstr:
  assumes "wf_record rec" and "remaining rec = lenstr s @ rest" and "length s < 256"
  shows "omf_record_get_lenstr 256 rec = (Inr s, adv (length (lenstr s)) rec)"
proof -
  have "unat (of_nat (length s) :: u8) = length s"
    using assms(3) by (simp add: unat_of_nat)
  with assms show ?thesis
    by (simp add: get_lenstr_remaining lenstr_def)
qed

lemma get_index_bytes_index:
  assumes "wf_record rec" and "remaining rec = bytes_index c @ rest" and "c < 0x8000"
  shows "omf_record_get_index rec = (ucast c, adv (length (bytes_index c)) rec)"
  using assms by (simp add: get_index_remaining get_index_list_bytes_index)

definition bytes_offset :: "bool \<Rightarrow> u32 \<Rightarrow> u8 list" where
  "bytes_offset is32 v = (if is32 then bytes32 v else bytes16 (ucast v))"

definition fits_offset :: "bool \<Rightarrow> u32 \<Rightarrow> bool" where
  "fits_offset is32 v \<longleftrightarrow> is32 \<or> v < 0x10000"

lemma bytes_offset_nonempty [simp]: "bytes_offset b v \<noteq> []"
  by (simp add: bytes_offset_def bytes32_def bytes16_def)

lemma ucast_16_of_32:
  assumes "v < (0x10000 :: u32)"
  shows "(ucast (ucast v :: u16) :: u64) = ucast v"
proof (rule bit_word_eqI)
  fix n assume "n < LENGTH(64)"
  have "\<not> bit v n" if "16 \<le> n"
    using word_less_pow_bit [of v 16 n] assms that by simp
  then show "bit (ucast (ucast v :: u16) :: u64) n = bit (ucast v :: u64) n"
    using \<open>n < LENGTH(64)\<close> by (cases "16 \<le> n") (auto simp: bit_simps)
qed

lemma get_offset_bytes_offset:
  assumes "wf_record rec" and "remaining rec = bytes_offset is32 v @ rest"
    and "fits_offset is32 v" and "is32 \<longleftrightarrow> rectype rec AND 1 \<noteq> 0"
  shows "omf_record_get_offset rec = (ucast v, adv (length (bytes_offset is32 v)) rec)"
  using assms
  by (auto simp: get_offset_remaining bytes_offset_def bytes16_def fits_offset_def
      ucast_16_of_32 numeral_2_eq_2)

section \<open>LNAMES\<close>

definition names_upd :: "u8 list \<Rightarrow> omf_lnames_context_t \<Rightarrow> omf_lnames_context_t" where
  "names_upd s t = t\<lparr>omf_LNAMES := Some (entries_of (omf_LNAMES t) @ [Some (c_string s)])\<rparr>"

lemma add_name_eq:
  assumes "malloc_never_fails mal" and "omf_LNAMES_count t < omf_LNAMES_alloc t"
  shows "omf_lnames_context_add_name mal t (Some s) = (Inr (omf_LNAMES_count t + 1), names_upd s t)"
proof -
  have "mal (Req_lnames (omf_LNAMES_alloc t)) \<noteq> None"
    using assms(1) by (simp add: malloc_never_fails_def)
  with assms show ?thesis
    by (auto simp: omf_lnames_context_add_name_def omf_lnames_context_set_name_def names_upd_def
        omf_lnames_context_alloc_names_def cstr_set_n_never_fails omf_LNAMES_count_def Let_def)
qed

lemma fold_names_upd:
  "omf_LNAMES_alloc (fold names_upd ns t) = omf_LNAMES_alloc t"
  "entries_of (omf_LNAMES (fold names_upd ns t)) = entries_of (omf_LNAMES t) @ map (Some \<circ> c_string) ns"
  by (induction ns arbitrary: t) (simp_all add: names_upd_def)

lemma parse_LNAMES_decodes:
  assumes "malloc_never_fails mal" and "wf_record rec"
    and "remaining rec = concat (map lenstr ns)" and "\<forall>s \<in> set ns. length s < 256"
    and "omf_LNAMES_count t + length ns \<le> omf_LNAMES_alloc t"
  shows "parse_LNAMES_loop mal t rec
    = (Inr (), fold names_upd ns t, adv (length (concat (map lenstr ns))) rec)"
proof (rule parse_LNAMES.decodes [where ty = "rectype rec" and
      P = "\<lambda>t ns. (\<forall>s \<in> set ns. length s < 256) \<and> omf_LNAMES_count t + length ns \<le> omf_LNAMES_alloc t"])
  fix s ss t r rest
  assume "(\<forall>x\<in>set (s # ss). length x < 256) \<and> omf_LNAMES_count t + length (s # ss) \<le> omf_LNAMES_alloc t"
    and "wf_record r" and "remaining r = lenstr s @ rest"
  then show "parse_LNAMES_one mal t r = (Inr (), names_upd s t, adv (length (lenstr s)) r)"
    using assms(1)
    by (simp add: parse_LNAMES_one_def get_lenstr_lenstr add_name_eq)
qed (use assms in \<open>auto simp: names_upd_def omf_LNAMES_count_def\<close>)

section \<open>EXTDEF\<close>

definition enc_extdef :: "u8 list \<times> u16 \<Rightarrow> u8 list" where
  "enc_extdef = (\<lambda>(s, ti). lenstr s @ bytes_index ti)"

definition extdef_of :: "omf_scope \<Rightarrow> u8 list \<times> u16 \<Rightarrow> omf_extdef_t" where
  "extdef_of ty = (\<lambda>(s, ti). \<lparr>ed_name_string = Some (c_string s), ed_type_index = ucast ti, ed_type = ty\<rparr>)"

definition extdef_upd :: "omf_scope \<Rightarrow> u8 list \<times> u16 \<Rightarrow> omf_extdefs_context_t \<Rightarrow> omf_extdefs_context_t" where
  "extdef_upd ty x t = t\<lparr>omf_EXTDEFS := Some (entries_of (omf_EXTDEFS t) @ [extdef_of ty x])\<rparr>"

lemma add_extdef_eq:
  assumes "malloc_never_fails mal" and "omf_EXTDEFS_count t < omf_EXTDEFS_alloc t"
  shows "omf_extdefs_context_add_extdef mal t = (Inr (omf_EXTDEFS_count t),
     t\<lparr>omf_EXTDEFS := Some (entries_of (omf_EXTDEFS t) @ [omf_extdefs_context_init_extdef])\<rparr>)"
proof -
  have "mal (Req_extdefs (omf_EXTDEFS_alloc t)) \<noteq> None"
    using assms(1) by (simp add: malloc_never_fails_def)
  with assms show ?thesis
    by (auto simp: omf_extdefs_context_add_extdef_def omf_extdefs_context_alloc_extdefs_def
        omf_EXTDEFS_count_def)
qed

lemma parse_EXTDEF_one_decodes:
  assumes "malloc_never_fails mal" and "omf_EXTDEFS_count t < omf_EXTDEFS_alloc t"
    and "wf_record rec" and "remaining rec = enc_extdef x @ rest"
    and "length (fst x) < 256" and "snd x < 0x8000"
  shows "parse_EXTDEF_one mal ty t rec = (Inr (), extdef_upd ty x t, adv (length (enc_extdef x)) rec)"
proof -
  obtain s ti where x: "x = (s, ti)" by (cases x)
  have rem: "remaining rec = lenstr s @ bytes_index ti @ rest"
    using assms(4) x by (simp add: enc_extdef_def)
  note c = consume [OF assms(3) rem]
  have "\<not> omf_record_eof (adv (length (lenstr s)) rec)"
    using c by (simp add: eof_iff_remaining)
  with c assms x rem show ?thesis
    by (simp add: parse_EXTDEF_one_def add_extdef_eq get_lenstr_lenstr get_index_bytes_index
        omf_extdefs_context_set_extdef_name_def cstr_set_n_never_fails omf_EXTDEFS_count_def
        extdef_upd_def extdef_of_def enc_extdef_def set_entry_def
        omf_extdefs_context_init_extdef_def)
qed

lemma fold_extdef_upd:
  "omf_EXTDEFS_alloc (fold (extdef_upd ty) xs t) = omf_EXTDEFS_alloc t"
  "entries_of (omf_EXTDEFS (fold (extdef_upd ty) xs t)) = entries_of (omf_EXTDEFS t) @ map (extdef_of ty) xs"
  by (induction xs arbitrary: t) (simp_all add: extdef_upd_def)

lemma parse_EXTDEF_decodes:
  assumes "malloc_never_fails mal" and "wf_record rec"
    and "remaining rec = concat (map enc_extdef xs)"
    and "\<forall>x \<in> set xs. length (fst x) < 256 \<and> snd x < 0x8000"
    and "omf_EXTDEFS_count t + length xs \<le> omf_EXTDEFS_alloc t"
  shows "parse_EXTDEF_loop mal ty t rec
    = (Inr (), fold (extdef_upd ty) xs t, adv (length (concat (map enc_extdef xs))) rec)"
  by (rule parse_EXTDEF.decodes [where ty = "rectype rec" and
      P = "\<lambda>t xs. (\<forall>x \<in> set xs. length (fst x) < 256 \<and> snd x < 0x8000)
             \<and> omf_EXTDEFS_count t + length xs \<le> omf_EXTDEFS_alloc t"])
    (use assms in \<open>auto simp: parse_EXTDEF_one_decodes extdef_upd_def omf_EXTDEFS_count_def
       enc_extdef_def\<close>)

section \<open>PUBDEF\<close>

definition enc_pubdef :: "bool \<Rightarrow> u8 list \<times> u32 \<times> u16 \<Rightarrow> u8 list" where
  "enc_pubdef is32 = (\<lambda>(s, ofs, ti). lenstr s @ bytes_offset is32 ofs @ bytes_index ti)"

definition pubdef_of :: "omf_scope \<Rightarrow> u32 \<Rightarrow> u32 \<Rightarrow> u8 list \<times> u32 \<times> u16 \<Rightarrow> omf_pubdef_t" where
  "pubdef_of ty gi si = (\<lambda>(s, ofs, ti).
     \<lparr>pd_name_string = Some (c_string s), pd_group_index = gi, pd_segment_index = si,
      public_offset = ucast ofs, pd_type_index = ucast ti, pd_type = ty\<rparr>)"

definition pubdef_upd :: "omf_scope \<Rightarrow> u32 \<Rightarrow> u32 \<Rightarrow> u8 list \<times> u32 \<times> u16
    \<Rightarrow> omf_pubdefs_context_t \<Rightarrow> omf_pubdefs_context_t" where
  "pubdef_upd ty gi si x t = t\<lparr>omf_PUBDEFS := Some (entries_of (omf_PUBDEFS t) @ [pubdef_of ty gi si x])\<rparr>"

definition enc_pubdef_ok :: "bool \<Rightarrow> u8 list \<times> u32 \<times> u16 \<Rightarrow> bool" where
  "enc_pubdef_ok is32 = (\<lambda>(s, ofs, ti). length s < 256 \<and> fits_offset is32 ofs \<and> ti < 0x8000)"

lemma add_pubdef_eq:
  assumes "malloc_never_fails mal" and "omf_PUBDEFS_count t < omf_PUBDEFS_alloc t"
  shows "omf_pubdefs_context_add_pubdef mal t = (Inr (omf_PUBDEFS_count t),
     t\<lparr>omf_PUBDEFS := Some (entries_of (omf_PUBDEFS t) @ [omf_pubdefs_context_init_pubdef])\<rparr>)"
proof -
  have "mal (Req_pubdefs (omf_PUBDEFS_alloc t)) \<noteq> None"
    using assms(1) by (simp add: malloc_never_fails_def)
  with assms show ?thesis
    by (auto simp: omf_pubdefs_context_add_pubdef_def omf_pubdefs_context_alloc_pubdefs_def
        omf_PUBDEFS_count_def)
qed

lemma parse_PUBDEF_one_decodes:
  assumes "malloc_never_fails mal" and "omf_PUBDEFS_count t < omf_PUBDEFS_alloc t"
    and "wf_record rec" and "remaining rec = enc_pubdef is32 x @ rest"
    and "enc_pubdef_ok is32 x" and "is32 \<longleftrightarrow> rectype rec AND 1 \<noteq> 0"
  shows "parse_PUBDEF_one mal ty gi si t rec
    = (Inr (), pubdef_upd ty gi si x t, adv (length (enc_pubdef is32 x)) rec)"
proof -
  obtain s ofs ti where x: "x = (s, ofs, ti)" by (cases x)
  have rem: "remaining rec = lenstr s @ bytes_offset is32 ofs @ bytes_index ti @ rest"
    using assms(4) x by (simp add: enc_pubdef_def)
  note c = consume [OF assms(3) rem]
  note d = consume [OF c]
  have "\<not> omf_record_eof (adv (length (lenstr s)) rec)"
    using c by (simp add: eof_iff_remaining)
  moreover have "omf_record_get_offset (adv (length (lenstr s)) rec)
      = (ucast ofs, adv (length (bytes_offset is32 ofs)) (adv (length (lenstr s)) rec))"
    using assms(5,6) x by (intro get_offset_bytes_offset [OF c]) (auto simp: enc_pubdef_ok_def)
  moreover have "omf_record_get_index (adv (length (bytes_offset is32 ofs)) (adv (length (lenstr s)) rec))
      = (ucast ti, adv (length (bytes_index ti)) (adv (length (bytes_offset is32 ofs)) (adv (length (lenstr s)) rec)))"
    using assms(5) x by (intro get_index_bytes_index [OF d]) (auto simp: enc_pubdef_ok_def)
  moreover have "omf_record_get_lenstr 256 rec = (Inr s, adv (length (lenstr s)) rec)"
    using assms(3,5) x rem by (intro get_lenstr_lenstr) (auto simp: enc_pubdef_ok_def)
  ultimately show ?thesis
    using assms x
    by (simp add: parse_PUBDEF_one_def add_pubdef_eq omf_pubdefs_context_set_pubdef_name_def
        cstr_set_n_never_fails omf_PUBDEFS_count_def pubdef_upd_def pubdef_of_def enc_pubdef_def
        set_entry_def omf_pubdefs_context_init_pubdef_def add.assoc)
qed

lemma fold_pubdef_upd:
  "omf_PUBDEFS_alloc (fold (pubdef_upd ty gi si) xs t) = omf_PUBDEFS_alloc t"
  "entries_of (omf_PUBDEFS (fold (pubdef_upd ty gi si) xs t))
     = entries_of (omf_PUBDEFS t) @ map (pubdef_of ty gi si) xs"
  by (induction xs arbitrary: t) (simp_all add: pubdef_upd_def)

lemma parse_PUBDEF_decodes:
  assumes "malloc_never_fails mal" and "wf_record rec"
    and "remaining rec = concat (map (enc_pubdef is32) xs)" and "\<forall>x \<in> set xs. enc_pubdef_ok is32 x"
    and "omf_PUBDEFS_count t + length xs \<le> omf_PUBDEFS_alloc t"
    and "is32 \<longleftrightarrow> rectype rec AND 1 \<noteq> 0"
  shows "parse_PUBDEF_loop mal ty gi si t rec
    = (Inr (), fold (pubdef_upd ty gi si) xs t, adv (length (concat (map (enc_pubdef is32) xs))) rec)"
  by (rule parse_PUBDEF.decodes [where ty = "rectype rec" and
      P = "\<lambda>t xs. (\<forall>x \<in> set xs. enc_pubdef_ok is32 x)
             \<and> omf_PUBDEFS_count t + length xs \<le> omf_PUBDEFS_alloc t"])
    (use assms in \<open>auto simp: parse_PUBDEF_one_decodes pubdef_upd_def omf_PUBDEFS_count_def
       enc_pubdef_def\<close>)

section \<open>SEGDEF\<close>

text \<open>A relocatable segment: alignment not 0, so that no frame number follows the attributes.\<close>

definition enc_segdef :: "bool \<Rightarrow> u8 \<Rightarrow> u32 \<Rightarrow> u16 \<Rightarrow> u16 \<Rightarrow> u16 \<Rightarrow> u8 list" where
  "enc_segdef is32 b len ni ci oi =
     b # bytes_offset is32 len @ bytes_index ni @ bytes_index ci @ bytes_index oi"

lemma ucast_32_64_16 [simp]: "(ucast (ucast x :: u32) :: u16) = (x :: u16)"
  by (rule bit_word_eqI) (auto simp: bit_simps dest: bit_imp_le_length)

lemma parse_SEGDEF_entry_decodes:
  assumes wf: "wf_record rec" and rem: "remaining rec = enc_segdef is32 b len ni ci oi"
    and al: "drop_bit 5 b \<noteq> 0" and fits: "fits_offset is32 len"
    and idx: "ni < 0x8000" "ci < 0x8000" "oi < 0x8000" and ty: "is32 \<longleftrightarrow> rectype rec AND 1 \<noteq> 0"
  shows "parse_SEGDEF_entry s rec = (Inr (),
    s\<lparr>attr := (attr s)\<lparr>raw := b\<rparr>, segment_length := len, segment_name_index := ni,
      class_name_index := ci, overlay_name_index := oi\<rparr>,
    adv (length (enc_segdef is32 b len ni ci oi)) rec)"
proof -
  have rem0: "remaining rec = [b] @ bytes_offset is32 len @ bytes_index ni @ bytes_index ci @ bytes_index oi"
    using rem by (simp add: enc_segdef_def)
  note c1 = consume [OF wf rem0]
  note c2 = consume [OF c1]
  note c3 = consume [OF c2]
  note c4 = consume [OF c3]
  have b: "omf_record_get_byte rec = (b, adv 1 rec)"
    using wf rem0 by (simp add: get_byte_remaining)
  have "attr_alignment ((attr s)\<lparr>raw := b\<rparr>) \<noteq> 0"
  proof
    assume "attr_alignment ((attr s)\<lparr>raw := b\<rparr>) = 0"
    then have z: "(ucast (drop_bit 5 b) :: 3 word) = 0" by (simp add: attr_alignment_def)
    have "drop_bit 5 b = 0"
    proof (rule bit_word_eqI)
      fix n assume "n < LENGTH(8)"
      show "bit (drop_bit 5 b) n = bit (0 :: u8) n"
        using arg_cong [OF z, of "\<lambda>w. bit w n"]
        by (cases "n < 3") (auto simp: bit_simps dest: bit_imp_le_length)
    qed
    with al show False ..
  qed
  moreover have "\<not> omf_record_eof (adv 1 rec)"
    using c1 by (simp add: eof_iff_remaining)
  moreover note get_offset_bytes_offset [OF c1 fits]
  moreover note get_index_bytes_index [OF c2 idx(1)]
  moreover note get_index_bytes_index [OF c3 idx(2)]
  moreover note get_index_bytes_index [OF c4(1) _ idx(3), of "[]"]
  moreover have "\<not> omf_record_eof (adv (length (bytes_index ci)) (adv (length (bytes_index ni))
      (adv (length (bytes_offset is32 len)) (adv (length [b]) rec))))"
    using c4 by (simp add: eof_iff_remaining)
  ultimately show ?thesis
    using b ty c4(2)
    by (simp add: parse_SEGDEF_entry_def parse_SEGDEF_tail_def Let_def enc_segdef_def
        add.assoc ucast_32_64_16)
qed

section \<open>GRPDEF\<close>

definition enc_member :: "u16 \<Rightarrow> u8 list" where
  "enc_member si = 0xFF # bytes_index si"

definition member_upd :: "u16 \<Rightarrow> omf_grpdefs_context_t \<Rightarrow> omf_grpdefs_context_t" where
  "member_upd si t = snd (omf_grpdefs_context_add_grpdef_segdef t (omf_GRPDEFS_count t - 1) (ucast si))"

lemma ucast_16_32_eq_0: "(ucast (si :: u16) :: u32) = 0 \<longleftrightarrow> si = 0"
  using ucast_16_32 [of si] by (metis ucast_0)

lemma member_upd_eq:
  assumes "wf_grpdefs t" and "omf_GRPDEFS_count t \<noteq> 0" and "si \<noteq> 0" and "segdefs_count t < segdefs_alloc t"
  shows "member_upd si t = t\<lparr>segdefs := Some (entries_of (segdefs t) @ [si]),
       omf_GRPDEFS := Some (butlast (entries_of (omf_GRPDEFS t)) @
         [(last (entries_of (omf_GRPDEFS t)))\<lparr>gd_count := gd_count (last (entries_of (omf_GRPDEFS t))) + 1\<rparr>])\<rparr>"
    and "omf_grpdefs_context_add_grpdef_segdef t (omf_GRPDEFS_count t - 1) (ucast si)
       = (Inr (), member_upd si t)"
proof -
  have ne: "entries_of (omf_GRPDEFS t) \<noteq> []" using assms(2) by (simp add: omf_GRPDEFS_count_def)
  have "ucast si \<noteq> (0 :: u32)" using assms(3) by (simp add: ucast_16_32_eq_0)
  from add_grpdef_segdef_eq [OF assms(1,2) refl this assms(4)] ne
  show "member_upd si t = t\<lparr>segdefs := Some (entries_of (segdefs t) @ [si]),
       omf_GRPDEFS := Some (butlast (entries_of (omf_GRPDEFS t)) @
         [(last (entries_of (omf_GRPDEFS t)))\<lparr>gd_count := gd_count (last (entries_of (omf_GRPDEFS t))) + 1\<rparr>])\<rparr>"
    and "omf_grpdefs_context_add_grpdef_segdef t (omf_GRPDEFS_count t - 1) (ucast si)
       = (Inr (), member_upd si t)"
    by (auto simp: member_upd_def omf_GRPDEFS_count_def butlast_conv_take last_conv_nth)
qed

definition can_take_members :: "nat \<Rightarrow> omf_grpdefs_context_t \<Rightarrow> u16 list \<Rightarrow> bool" where
  "can_take_members k t ms \<longleftrightarrow> wf_grpdefs t \<and> omf_GRPDEFS_count t = Suc k \<and> 0 \<notin> set ms
     \<and> (\<forall>m \<in> set ms. m < 0x8000) \<and> segdefs_count t + length ms \<le> segdefs_alloc t"

lemma can_take_members_Cons:
  assumes "can_take_members k t (m # ms)"
  shows "can_take_members k (member_upd m t) ms"
proof -
  have p: "wf_grpdefs t" "omf_GRPDEFS_count t \<noteq> 0" "m \<noteq> 0" "segdefs_count t < segdefs_alloc t"
    using assms by (auto simp: can_take_members_def)
  have "wf_grpdefs (member_upd m t)"
    using add_grpdef_segdef_wf [OF p(1) member_upd_eq(2) [OF p]] .
  with assms show ?thesis
    by (simp add: can_take_members_def member_upd_eq(1) [OF p] omf_GRPDEFS_count_def segdefs_count_def)
qed

lemma parse_GRPDEF_decodes:
  assumes "wf_record rec" and "remaining rec = concat (map enc_member ms)" and "can_take_members k t ms"
  shows "parse_GRPDEF_loop k t rec
    = (Inr (), fold member_upd ms t, adv (length (concat (map enc_member ms))) rec)"
proof (rule parse_GRPDEF.decodes [where ty = "rectype rec" and P = "can_take_members k"])
  fix m ms t r rest
  assume p: "can_take_members k t (m # ms)" and r: "wf_record r" "remaining r = enc_member m @ rest"
  have rem: "remaining r = [0xFF] @ bytes_index m @ rest" using r(2) by (simp add: enc_member_def)
  note c = consume [OF r(1) rem]
  have "omf_record_get_byte r = (0xFF, adv 1 r)"
    using r(1) rem by (simp add: get_byte_remaining)
  moreover have "omf_record_get_index (adv (length [0xFF :: u8]) r)
      = (ucast m, adv (length (bytes_index m)) (adv (length [0xFF :: u8]) r))"
    using p by (intro get_index_bytes_index [OF c]) (auto simp: can_take_members_def)
  moreover have "omf_grpdefs_context_add_grpdef_segdef t k (ucast m) = (Inr (), member_upd m t)"
    using p member_upd_eq(2) [of t m] by (auto simp: can_take_members_def)
  ultimately show "parse_GRPDEF_one k t r = (Inr (), member_upd m t, adv (length (enc_member m)) r)"
    by (simp add: parse_GRPDEF_one_def enc_member_def)
qed (use assms can_take_members_Cons in \<open>auto simp: enc_member_def\<close>)

text \<open>After the members have been read, the group that was opened last has exactly them.\<close>

lemma fold_member_upd:
  assumes "can_take_members k t ms"
  shows "entries_of (segdefs (fold member_upd ms t)) = entries_of (segdefs t) @ ms"
    and "entries_of (omf_GRPDEFS (fold member_upd ms t)) = butlast (entries_of (omf_GRPDEFS t)) @
       [(last (entries_of (omf_GRPDEFS t)))\<lparr>gd_count := gd_count (last (entries_of (omf_GRPDEFS t))) + length ms\<rparr>]"
  using assms
proof (induction ms arbitrary: t)
  case Nil
  { case 1 show ?case by simp }
  { case 2 then show ?case by (simp add: can_take_members_def omf_GRPDEFS_count_def)
      (metis append_butlast_last_id length_0_conv nat.simps(3)) }
next
  case (Cons m ms)
  { case 1
    then have p: "wf_grpdefs t" "omf_GRPDEFS_count t \<noteq> 0" "m \<noteq> 0" "segdefs_count t < segdefs_alloc t"
      by (auto simp: can_take_members_def)
    from Cons.IH(1) [OF can_take_members_Cons [OF 1]] show ?case
      by (simp add: member_upd_eq(1) [OF p]) }
  { case 2
    then have p: "wf_grpdefs t" "omf_GRPDEFS_count t \<noteq> 0" "m \<noteq> 0" "segdefs_count t < segdefs_alloc t"
      by (auto simp: can_take_members_def)
    from Cons.IH(2) [OF can_take_members_Cons [OF 2]] show ?case
      by (simp add: member_upd_eq(1) [OF p]) }
qed

end
