(* ===== verification/OmfGenFixupp.thy ===== *)
theory OmfGenFixupp
  imports OmfDecode
begin

text \<open>
  \<^verbatim>\<open>owfixupp.c\<close>: a FIXUPP record is generated from the fixup table. The parser of
  \<^verbatim>\<open>opfixupp.c\<close> reads the table back from it.
\<close>

section \<open>The generator\<close>

text \<open>The results of the writers are ignored, as in the source.\<close>

definition generate_FIXUPP_entry :: "bool \<Rightarrow> omf_fixupp_t \<Rightarrow> omf_record_t \<Rightarrow> omf_record_t" where
  "generate_FIXUPP_entry is32 fx rec =
     (let rec = snd (omf_record_write_byte rec
            (0x80 + (if segment_relative fx then 0x40 else 0) + push_bit 2 (ucast (location fx))
             + ucast (drop_bit 8 (data_record_offset fx) AND 3)));
          rec = snd (omf_record_write_byte rec (ucast (data_record_offset fx AND 0xFF)));
          rec = snd (omf_record_write_byte rec
            (push_bit 4 (ucast (frame_method fx)) + (if target_displacement fx \<noteq> 0 then 0 else 0x04)
             + ucast (target_method fx AND 3)));
          rec = (if frame_method fx \<le> 2 then snd (omf_record_write_index rec (frame_index fx)) else rec);
          rec = snd (omf_record_write_index rec (target_index fx))
      in if target_displacement fx \<noteq> 0 then
           (if is32 then snd (omf_record_write_dword rec (target_displacement fx))
            else snd (omf_record_write_word rec (ucast (target_displacement fx))))
         else rec)"

definition generate_FIXUPP_nth :: "bool \<Rightarrow> omf_fixupps_context_t \<Rightarrow> nat \<Rightarrow> omf_record_t \<Rightarrow> omf_record_t" where
  "generate_FIXUPP_nth is32 t i rec =
     (case omf_fixupps_context_get_fixupp t i of
        Inl _ \<Rightarrow> rec
      | Inr fx \<Rightarrow> if \<not> alloc fx then rec else generate_FIXUPP_entry is32 fx rec)"

definition omf_context_generate_FIXUPP :: "omf_record_t \<Rightarrow> omf_context_t \<Rightarrow> bool \<Rightarrow> omf_record_t" where
  "omf_context_generate_FIXUPP rec ctx is32bit =
     (let rec = omf_record_clear rec;
          rec = rec\<lparr>rectype := (if is32bit then 0x9D else 0x9C)\<rparr>;
          rec = fold (generate_FIXUPP_nth is32bit (FIXUPPs ctx))
                  [1..<omf_fixupps_context_get_highest_index (FIXUPPs ctx) + 1] rec
      in omf_record_write_update_checksum (omf_record_write_update_reclen rec))"

section \<open>The bytes of a fixup\<close>

definition fixup_byte0 :: "omf_fixupp_t \<Rightarrow> u8" where
  "fixup_byte0 fx = 0x80 + (if segment_relative fx then 0x40 else 0) + push_bit 2 (ucast (location fx))
     + ucast (drop_bit 8 (data_record_offset fx) AND 3)"

definition fixup_byte2 :: "omf_fixupp_t \<Rightarrow> u8" where
  "fixup_byte2 fx = push_bit 4 (ucast (frame_method fx)) + (if target_displacement fx \<noteq> 0 then 0 else 0x04)
     + ucast (target_method fx AND 3)"

definition enc_disp :: "bool \<Rightarrow> u64 \<Rightarrow> u8 list" where
  "enc_disp is32 d = (if d = 0 then [] else bytes_offset is32 (ucast d))"

definition enc_fixupp :: "bool \<Rightarrow> omf_fixupp_t \<Rightarrow> u8 list" where
  "enc_fixupp is32 fx =
     [fixup_byte0 fx, ucast (data_record_offset fx AND 0xFF), fixup_byte2 fx]
     @ (if frame_method fx \<le> 2 then bytes_index (frame_index fx) else [])
     @ bytes_index (target_index fx) @ enc_disp is32 (target_displacement fx)"

lemma write_byte_ok:
  "wf_writer rec \<Longrightarrow> 1 \<le> room rec \<Longrightarrow> snd (omf_record_write_byte rec c) = emit [c] rec"
  by (simp add: write_byte_emit)

lemma write_index_ok:
  "wf_writer rec \<Longrightarrow> 2 \<le> room rec \<Longrightarrow> snd (omf_record_write_index rec c) = emit (bytes_index c) rec"
  by (simp add: write_index_emit)

lemma ucast_64_32_16: "(ucast (ucast (d :: u64) :: u32) :: u16) = ucast d"
  by (rule bit_word_eqI) (auto simp: bit_simps dest: bit_imp_le_length)

lemma write_disp_ok:
  assumes "wf_writer rec" and "length (enc_disp is32 d) \<le> room rec"
  shows "(if d \<noteq> 0 then (if is32 then snd (omf_record_write_dword rec d)
            else snd (omf_record_write_word rec (ucast d))) else rec) = emit (enc_disp is32 d) rec"
  using assms
  by (auto simp: write_dword_emit write_word_emit enc_disp_def bytes_offset_def ucast_64_32_16
      split: if_splits)

lemma length_bytes_index_le: "length (bytes_index c) \<le> 2"
  by (simp add: bytes_index_def)

text \<open>One byte more than the encoding must be left: \<^verbatim>\<open>write_index\<close> asks for two.\<close>

lemma generate_entry_emit:
  assumes wf: "wf_writer rec" and room: "length (enc_fixupp is32 fx) + 1 \<le> room rec"
  shows "generate_FIXUPP_entry is32 fx rec = emit (enc_fixupp is32 fx) rec"
proof -
  let ?i1 = "if frame_method fx \<le> 2 then bytes_index (frame_index fx) else []"
  let ?i2 = "bytes_index (target_index fx)"
  let ?d = "enc_disp is32 (target_displacement fx)"
  let ?b = "[fixup_byte0 fx, ucast (data_record_offset fx AND 0xFF), fixup_byte2 fx]"
  have len: "3 + length ?i1 + length ?i2 + length ?d + 1 \<le> room rec"
    using room by (simp add: enc_fixupp_def)
  have i1: "1 \<le> length (bytes_index c)" for c by (simp add: bytes_index_def)
  have w1: "wf_writer (emit bs rec)" and w2: "room (emit bs rec) = room rec - length bs"
    if "length bs \<le> room rec" for bs
    using that wf wf_writer_emit room_emit by blast+
  have e: "emit cs (emit bs rec) = emit (bs @ cs) rec" if "length bs + length cs \<le> room rec" for bs cs
    using that wf emit_emit by blast
  have a: "emit [fixup_byte2 fx] (emit [ucast (data_record_offset fx AND 0xFF)] (emit [fixup_byte0 fx] rec))
      = emit ?b rec"
    using len by (simp add: e)
  have b: "(if frame_method fx \<le> 2 then snd (omf_record_write_index (emit ?b rec) (frame_index fx))
      else emit ?b rec) = emit (?b @ ?i1) rec"
    using len i1 [of "target_index fx"] i1 [of "frame_index fx"]
    by (simp add: write_index_ok w1 w2 e split: if_splits)
  have c: "snd (omf_record_write_index (emit (?b @ ?i1) rec) (target_index fx)) = emit (?b @ ?i1 @ ?i2) rec"
    using len i1 [of "target_index fx"] by (subst write_index_ok) (auto simp: w1 w2 e)
  have d: "emit ?d (emit (?b @ ?i1 @ ?i2) rec) = emit (enc_fixupp is32 fx) rec"
    using len by (subst e) (auto simp: enc_fixupp_def)
  have w: "wf_writer (emit (?b @ ?i1 @ ?i2) rec)" "length ?d \<le> room (emit (?b @ ?i1 @ ?i2) rec)"
    using len by (auto simp: w1 w2)
  have step: "generate_FIXUPP_entry is32 fx rec =
      (let rec3 = emit [fixup_byte2 fx] (emit [ucast (data_record_offset fx AND 0xFF)] (emit [fixup_byte0 fx] rec));
           rec4 = (if frame_method fx \<le> 2 then snd (omf_record_write_index rec3 (frame_index fx)) else rec3);
           rec5 = snd (omf_record_write_index rec4 (target_index fx))
       in if target_displacement fx \<noteq> 0 then
            (if is32 then snd (omf_record_write_dword rec5 (target_displacement fx))
             else snd (omf_record_write_word rec5 (ucast (target_displacement fx))))
          else rec5)"
    using len wf by (simp add: generate_FIXUPP_entry_def write_byte_ok w1 w2 e Let_def
        flip: fixup_byte0_def fixup_byte2_def)
  show ?thesis
    unfolding step Let_def a b c write_disp_ok [OF w] by (rule d)
qed

text \<open>The loop over the indices is the loop over the allocated entries.\<close>

lemma generate_nth_eq:
  "generate_FIXUPP_nth is32 t (Suc i) rec = (if i < length (entries_of (omf_FIXUPPS t)) then
     (if alloc (entries_of (omf_FIXUPPS t) ! i)
      then generate_FIXUPP_entry is32 (entries_of (omf_FIXUPPS t) ! i) rec else rec) else rec)"
  by (simp add: generate_FIXUPP_nth_def fixupps.get_eq)

definition allocated :: "omf_fixupps_context_t \<Rightarrow> omf_fixupp_t list" where
  "allocated t = filter alloc (entries_of (omf_FIXUPPS t))"

lemma fold_generate_nth:
  "fold (generate_FIXUPP_nth is32 t) [1..<omf_fixupps_context_get_highest_index t + 1] rec
     = fold (generate_FIXUPP_entry is32) (allocated t) rec"
proof -
  have "fold (generate_FIXUPP_nth is32 t) [1..<Suc n] rec
      = fold (generate_FIXUPP_entry is32) (filter alloc (take n (entries_of (omf_FIXUPPS t)))) rec"
    if "n \<le> length (entries_of (omf_FIXUPPS t))" for n
    using that by (induction n) (simp_all add: generate_nth_eq take_Suc_conv_app_nth)
  then show ?thesis
    by (simp add: omf_fixupps_context_get_highest_index_def omf_FIXUPPS_count_def allocated_def)
qed

lemma fold_generate_emit:
  assumes "wf_writer rec" and "length (concat (map (enc_fixupp is32) fs)) + 1 \<le> room rec"
  shows "fold (generate_FIXUPP_entry is32) fs rec = emit (concat (map (enc_fixupp is32) fs)) rec"
  using assms
proof (induction fs arbitrary: rec)
  case (Cons f fs)
  then have "generate_FIXUPP_entry is32 f rec = emit (enc_fixupp is32 f) rec"
    by (intro generate_entry_emit) auto
  with Cons show ?case
    by (simp add: wf_writer_emit room_emit emit_emit)
qed simp

definition can_generate :: "omf_record_t \<Rightarrow> bool \<Rightarrow> omf_context_t \<Rightarrow> bool" where
  "can_generate rec is32 ctx \<longleftrightarrow>
     (\<exists>d. data rec = Some d \<and> length d = data_alloc rec \<and> data_alloc rec \<le> 0xFF00)
     \<and> length (concat (map (enc_fixupp is32) (allocated (FIXUPPs ctx)))) + 2 \<le> data_alloc rec"

lemma generate_FIXUPP_eq:
  assumes "can_generate rec is32 ctx"
  shows "omf_context_generate_FIXUPP rec ctx is32 = omf_record_write_update_checksum
    (omf_record_write_update_reclen
      (emit (concat (map (enc_fixupp is32) (allocated (FIXUPPs ctx))))
        (rec\<lparr>recpos := 0, reclen := 0, rectype := (if is32 then 0x9D else 0x9C)\<rparr>)))"
proof -
  let ?r = "rec\<lparr>recpos := 0, reclen := 0, rectype := (if is32 then 0x9D else 0x9C)\<rparr>"
  have "wf_writer ?r" "length (concat (map (enc_fixupp is32) (allocated (FIXUPPs ctx)))) + 1 \<le> room ?r"
    using assms by (auto simp: can_generate_def wf_writer_def room_def)
  then have "fold (generate_FIXUPP_entry is32) (allocated (FIXUPPs ctx)) ?r
      = emit (concat (map (enc_fixupp is32) (allocated (FIXUPPs ctx)))) ?r"
    by (rule fold_generate_emit)
  then show ?thesis
    by (simp only: omf_context_generate_FIXUPP_def omf_record_clear_def Let_def fold_generate_nth)
qed

lemma generate_FIXUPP_record:
  assumes "can_generate rec is32 ctx"
  defines "out \<equiv> omf_context_generate_FIXUPP rec ctx is32"
    and "bs \<equiv> concat (map (enc_fixupp is32) (allocated (FIXUPPs ctx)))"
  shows "rectype out = (if is32 then 0x9D else 0x9C)" "unat (reclen out) = length bs"
    "\<exists>d. data out = Some d \<and> length d = data_alloc out \<and> length bs < length d \<and> take (length bs) d = bs"
    "sum_list (record_bytes out) = 0" "data_alloc out = data_alloc rec" "recpos out = reclen out"
proof -
  let ?r = "rec\<lparr>recpos := 0, reclen := 0, rectype := (if is32 then 0x9D else 0x9C)\<rparr>"
  let ?e = "omf_record_write_update_reclen (emit bs ?r)"
  have wf: "wf_writer ?r" "length bs + 1 \<le> room ?r"
    using assms(1) by (auto simp: can_generate_def wf_writer_def room_def bs_def)
  have e: "wf_writer (emit bs ?r)" "unat (recpos (emit bs ?r)) = length bs" "written (emit bs ?r) = bs"
    using wf wf_writer_emit [of ?r bs] unat_recpos_emit [of ?r bs] written_emit [of ?r bs]
    by (auto simp: written_def)
  have out: "out = omf_record_write_update_checksum ?e"
    unfolding out_def bs_def by (rule generate_FIXUPP_eq [OF assms(1)])
  obtain d where d: "data ?e = Some d" "length d = data_alloc ?e"
    using e(1) by (auto simp: wf_writer_def omf_record_write_update_reclen_def split: option.splits)
  have rl: "unat (reclen ?e) = length bs" "length bs < length d"
    using e(2) wf(2) d(2) by (auto simp: omf_record_write_update_reclen_def room_def)
  show "sum_list (record_bytes out) = 0"
    unfolding out using d rl by (intro update_checksum_sum) auto
  have "take (length bs) d = bs"
    using e(3,2) d(1) by (simp add: written_def omf_record_write_update_reclen_def)
  then show "\<exists>d. data out = Some d \<and> length d = data_alloc out \<and> length bs < length d \<and> take (length bs) d = bs"
    using d rl update_checksum_contents [OF d(1)]
    by (simp add: out omf_record_write_update_checksum_def Let_def)
qed (use assms in \<open>auto simp: generate_FIXUPP_eq omf_record_write_update_reclen_def
       can_generate_def wf_writer_def room_def unat_recpos_emit\<close>)

section \<open>Parsing the fixups back\<close>

text \<open>
  What a FIXUPP record can carry of a fixup: 10 bits of offset, 15 bits of index, a frame
  index for methods 0 to 2 only and no method 4, two bits of target method, and a
  displacement of the width of the record. The other fields belong to the data record that
  the fixup applies to.
\<close>

definition canonical_fixupp :: "omf_context_t \<Rightarrow> bool \<Rightarrow> omf_fixupp_t \<Rightarrow> bool" where
  "canonical_fixupp ctx is32 fx \<longleftrightarrow>
     alloc fx \<and> data_record_offset fx < 0x400
   \<and> (if frame_method fx \<le> 2 then frame_index fx < 0x8000 else frame_index fx = 0)
   \<and> frame_method fx \<noteq> 4 \<and> target_method fx < 4 \<and> target_index fx < 0x8000
   \<and> (if is32 then target_displacement fx < 0x100000000 else target_displacement fx < 0x10000)
   \<and> fixup_segdef_index fx = last_LEDATA_seg ctx \<and> omf_rec_file_offset fx = last_LEDATA_rec ctx
   \<and> omf_rec_file_enoffs fx = last_LEDATA_eno ctx \<and> omf_rec_file_header fx = last_LEDATA_hdr ctx"

lemma bit_40: "bit (0x40 :: u8) n \<longleftrightarrow> n = 6"
proof -
  have "(0x40 :: u8) = 2 ^ 6" by simp
  then show ?thesis by (simp only: bit_exp_iff possible_bit_def) (auto simp: possible_bit_word)
qed

lemma bit_4: "bit (0x04 :: u8) n \<longleftrightarrow> n = 2"
proof -
  have "(0x04 :: u8) = 2 ^ 2" by simp
  then show ?thesis by (simp only: bit_exp_iff possible_bit_def) (auto simp: possible_bit_word)
qed

lemma and_3: "w AND 3 = take_bit 2 (w :: 'a::len word)"
  by (simp add: take_bit_eq_mask mask_eq_exp_minus_1)

lemma and_7: "w AND 7 = take_bit 3 (w :: 'a::len word)"
  by (simp add: take_bit_eq_mask mask_eq_exp_minus_1)

lemma and_F: "w AND 0xF = take_bit 4 (w :: 'a::len word)"
  by (simp add: take_bit_eq_mask mask_eq_exp_minus_1)

lemma bit_fixup_byte0:
  "bit (fixup_byte0 fx) n \<longleftrightarrow> n = 7 \<or> n = 6 \<and> segment_relative fx
     \<or> 2 \<le> n \<and> n < 6 \<and> bit (location fx) (n - 2) \<or> n < 2 \<and> bit (data_record_offset fx) (n + 8)"
proof -
  let ?a = "0x80 :: u8" and ?b = "(if segment_relative fx then 0x40 else 0) :: u8"
  let ?c = "push_bit 2 (ucast (location fx)) :: u8"
  let ?d = "ucast (take_bit 2 (drop_bit 8 (data_record_offset fx))) :: u8"
  have b: "bit ?b n \<longleftrightarrow> n = 6 \<and> segment_relative fx" for n
    by (cases "segment_relative fx") (simp_all only: if_True if_False bit_40 bit_0_eq bot_apply simp_thms bot_bool_def)
  have c: "bit ?c n \<longleftrightarrow> 2 \<le> n \<and> n < 6 \<and> bit (location fx) (n - 2)" for n
    by (auto simp: bit_simps dest: bit_imp_le_length)
  have d: "bit ?d n \<longleftrightarrow> n < 2 \<and> bit (data_record_offset fx) (n + 8)" for n
    by (auto simp: bit_simps add.commute)
  have a: "bit ?a n \<longleftrightarrow> n = 7" for n by (subst bit_80) simp
  have "?a + ?b = ?a OR ?b" by (rule disjunctive_add, (unfold a b; auto))
  moreover have "(?a OR ?b) + ?c = (?a OR ?b) OR ?c"
    by (rule disjunctive_add, (unfold bit_or_iff a b c; auto))
  moreover have "(?a OR ?b OR ?c) + ?d = (?a OR ?b OR ?c) OR ?d"
    by (rule disjunctive_add, (unfold bit_or_iff a b c d; auto))
  ultimately have "fixup_byte0 fx = ?a OR ?b OR ?c OR ?d"
    by (simp only: fixup_byte0_def and_3 or.assoc)
  then show ?thesis by (simp only: bit_or_iff a b c d disj_assoc)
qed

lemma fixup_byte0_fields:
  "fixup_byte0 fx AND 0x80 \<noteq> 0"
  "fixup_byte0 fx AND 0x40 \<noteq> 0 \<longleftrightarrow> segment_relative fx"
  "ucast (drop_bit 2 (fixup_byte0 fx) AND 0xF) = location fx"
  "fixup_byte0 fx AND 3 = ucast (drop_bit 8 (data_record_offset fx) AND 3)"
proof -
  show "fixup_byte0 fx AND 0x80 \<noteq> 0"
    by (simp add: and_80 bit_fixup_byte0)
  show "fixup_byte0 fx AND 0x40 \<noteq> 0 \<longleftrightarrow> segment_relative fx"
    using and_exp_eq_0_iff_not_bit [of "fixup_byte0 fx" 6] by (simp add: bit_fixup_byte0)
  show "ucast (drop_bit 2 (fixup_byte0 fx) AND 0xF) = location fx"
    by (rule bit_word_eqI) (auto simp: and_F bit_simps bit_fixup_byte0)
  show "fixup_byte0 fx AND 3 = ucast (drop_bit 8 (data_record_offset fx) AND 3)"
    by (rule bit_word_eqI) (auto simp: and_3 bit_simps bit_fixup_byte0 add.commute)
qed

lemma bit_fixup_byte2:
  "bit (fixup_byte2 fx) n \<longleftrightarrow> 4 \<le> n \<and> n < 7 \<and> bit (frame_method fx) (n - 4)
     \<or> n = 2 \<and> target_displacement fx = 0 \<or> n < 2 \<and> bit (target_method fx) n"
proof -
  let ?a = "push_bit 4 (ucast (frame_method fx)) :: u8"
  let ?b = "(if target_displacement fx \<noteq> 0 then 0 else 0x04) :: u8"
  let ?c = "ucast (take_bit 2 (target_method fx)) :: u8"
  have a: "bit ?a n \<longleftrightarrow> 4 \<le> n \<and> n < 7 \<and> bit (frame_method fx) (n - 4)" for n
    by (auto simp: bit_simps dest: bit_imp_le_length)
  have b: "bit ?b n \<longleftrightarrow> n = 2 \<and> target_displacement fx = 0" for n
    by (cases "target_displacement fx = 0") (simp_all only: if_True if_False bit_4 not_True_eq_False not_False_eq_True bit_0_eq bot_apply simp_thms bot_bool_def)
  have c: "bit ?c n \<longleftrightarrow> n < 2 \<and> bit (target_method fx) n" for n
    by (auto simp: bit_simps)
  have "?a + ?b = ?a OR ?b" by (rule disjunctive_add, (unfold a b; auto))
  moreover have "(?a OR ?b) + ?c = (?a OR ?b) OR ?c"
    by (rule disjunctive_add, (unfold bit_or_iff a b c; auto))
  ultimately have "fixup_byte2 fx = ?a OR ?b OR ?c"
    by (simp only: fixup_byte2_def and_3 or.assoc)
  then show ?thesis by (simp only: bit_or_iff a b c disj_assoc)
qed

lemma fixup_byte2_fields:
  "fixup_byte2 fx AND 0x80 = 0" "fixup_byte2 fx AND 0x08 = 0"
  "fixup_byte2 fx AND 0x04 \<noteq> 0 \<longleftrightarrow> target_displacement fx = 0"
  "ucast (drop_bit 4 (fixup_byte2 fx) AND 7) = frame_method fx"
  "target_method fx < 4 \<Longrightarrow> ucast (fixup_byte2 fx AND 3) = target_method fx"
proof -
  show "fixup_byte2 fx AND 0x80 = 0"
    by (simp add: and_80 bit_fixup_byte2)
  show "fixup_byte2 fx AND 0x08 = 0"
    using and_exp_eq_0_iff_not_bit [of "fixup_byte2 fx" 3] by (simp add: bit_fixup_byte2)
  show "fixup_byte2 fx AND 0x04 \<noteq> 0 \<longleftrightarrow> target_displacement fx = 0"
    using and_exp_eq_0_iff_not_bit [of "fixup_byte2 fx" 2] by (simp add: bit_fixup_byte2)
  show "ucast (drop_bit 4 (fixup_byte2 fx) AND 7) = frame_method fx"
    by (rule bit_word_eqI) (auto simp: and_7 bit_simps bit_fixup_byte2)
  assume "target_method fx < 4"
  then have "\<not> bit (target_method fx) n" if "2 \<le> n" for n
    using word_less_pow_bit [of "target_method fx" 2 n] that by simp
  then show "ucast (fixup_byte2 fx AND 3) = target_method fx"
    by (intro bit_word_eqI) (auto simp: and_3 bit_simps bit_fixup_byte2 simp flip: not_le)
qed

lemma data_record_offset_parts:
  assumes "(w :: u16) < 0x400"
  shows "push_bit 8 (ucast (ucast (drop_bit 8 w AND 3) :: u8)) + ucast (ucast (w AND 0xFF) :: u8) = w"
    (is "?hi + ?lo = w")
proof -
  have "\<not> bit w n" if "10 \<le> n" for n
    using word_less_pow_bit [of w 10 n] assms that by simp
  then have high: "n < 10" if "bit w n" for n using that by (metis not_le)
  have "?hi + ?lo = ?hi OR ?lo"
    by (rule disjunctive_add) (auto simp: bit_simps and_3 and_FF)
  also have "\<dots> = w"
    by (rule bit_word_eqI) (auto simp: bit_simps and_3 and_FF dest: high)
  finally show ?thesis .
qed

lemma disp_fits:
  "d < (0x100000000 :: u64) \<Longrightarrow> (ucast (ucast d :: u32) :: u64) = d"
  "d < (0x10000 :: u64) \<Longrightarrow> (ucast (ucast d :: u32) :: u64) = d"
  "d < (0x10000 :: u64) \<Longrightarrow> (ucast d :: u32) < 0x10000"
proof -
  have *: "unat (ucast d :: u32) = unat d" if "unat d < 2 ^ 32"
    using that by (simp add: unsigned_ucast_eq take_bit_nat_eq_self)
  show 1: "(ucast (ucast d :: u32) :: u64) = d" if "d < 0x100000000"
    using that * by (simp add: word_less_nat_alt word_unat_eq_iff)
  show "(ucast (ucast d :: u32) :: u64) = d" if "d < 0x10000"
    using that by (intro 1) (simp add: word_less_nat_alt)
  show "(ucast d :: u32) < 0x10000" if "d < 0x10000"
    using that * by (simp add: word_less_nat_alt)
qed

lemma add_fixupp_eq:
  assumes "malloc_never_fails mal" and "omf_FIXUPPS_count t < omf_FIXUPPS_alloc t"
  shows "omf_fixupps_context_add_fixupp mal t = (Inr (omf_FIXUPPS_count t),
     t\<lparr>omf_FIXUPPS := Some (entries_of (omf_FIXUPPS t) @ [zero_fixupp])\<rparr>)"
proof -
  have "mal (Req_fixupps (omf_FIXUPPS_alloc t)) \<noteq> None"
    using assms(1) by (simp add: malloc_never_fails_def)
  with assms show ?thesis
    by (auto simp: omf_fixupps_context_add_fixupp_def omf_fixupps_context_alloc_fixupps_def
        omf_FIXUPPS_count_def)
qed

lemma parse_entry_decodes:
  assumes wf: "wf_record rec" and rem: "remaining rec = enc_fixupp is32 fx @ rest"
    and ok: "canonical_fixupp ctx is32 fx" and ty: "is32 \<longleftrightarrow> rectype rec AND 1 \<noteq> 0"
    and mal: "malloc_never_fails mal" and cap: "omf_FIXUPPS_count (FIXUPPs ctx) < omf_FIXUPPS_alloc (FIXUPPs ctx)"
  shows "omf_context_parse_FIXUPP_subrecord mal ctx rec = (Inr (),
    ctx\<lparr>FIXUPPs := (FIXUPPs ctx)\<lparr>omf_FIXUPPS := Some (entries_of (omf_FIXUPPS (FIXUPPs ctx)) @ [fx])\<rparr>\<rparr>,
    adv (length (enc_fixupp is32 fx)) rec)"
proof -
  let ?i1 = "if frame_method fx \<le> 2 then bytes_index (frame_index fx) else []"
  let ?i2 = "bytes_index (target_index fx)"
  let ?d = "enc_disp is32 (target_displacement fx)"
  let ?t = "(FIXUPPs ctx)\<lparr>omf_FIXUPPS := Some (entries_of (omf_FIXUPPS (FIXUPPs ctx)) @ [zero_fixupp])\<rparr>"
  let ?lo = "ucast (data_record_offset fx AND 0xFF) :: u8"
  define r1 where "r1 = adv (length [fixup_byte0 fx]) rec"
  define r2 where "r2 = adv (length [?lo]) r1"
  define r3 where "r3 = adv (length [fixup_byte2 fx]) r2"
  define r4 where "r4 = adv (length ?i1) r3"
  define r5 where "r5 = adv (length ?i2) r4"
  define r6 where "r6 = adv (length ?d) r5"
  have rem0: "remaining rec = [fixup_byte0 fx] @ [?lo] @ [fixup_byte2 fx] @ ?i1 @ ?i2 @ ?d @ rest"
    using rem by (simp add: enc_fixupp_def)
  note c1 = consume [OF wf rem0, folded r1_def]
  note c2 = consume [OF c1, folded r2_def]
  note c3 = consume [OF c2, folded r3_def]
  note c4 = consume [OF c3, folded r4_def]
  note c5 = consume [OF c4, folded r5_def]
  have ty5: "rectype r5 = rectype rec" by (simp add: r5_def r4_def r3_def r2_def r1_def)
  have r6: "r6 = adv (length (enc_fixupp is32 fx)) rec"
    by (simp add: r6_def r5_def r4_def r3_def r2_def r1_def enc_fixupp_def add.assoc)
  have b0: "omf_record_get_byte rec = (fixup_byte0 fx, r1)"
    using wf rem0 by (simp add: get_byte_remaining r1_def)
  have b1: "omf_record_get_byte r1 = (?lo, r2)"
    using c1 by (simp add: get_byte_remaining r2_def)
  have b2: "omf_record_get_byte r2 = (fixup_byte2 fx, r3)"
    using c2 by (simp add: get_byte_remaining r3_def)
  have f: "parse_FIXUPP_frame ?t (fixup_byte2 fx) r3 = (frame_method fx, frame_index fx, r4)"
  proof (cases "frame_method fx \<le> 2")
    case True
    then have "omf_record_get_index r3 = (ucast (frame_index fx), r4)"
      using ok c3 unfolding r4_def
      by (intro get_index_bytes_index [where rest = "?i2 @ ?d @ rest", THEN trans])
        (auto simp: canonical_fixupp_def)
    with True show ?thesis
      by (simp only: parse_FIXUPP_frame_def fixup_byte2_fields Let_def if_True if_False simp_thms)
        (simp add: ucast_16_32)
  next
    case False
    with ok show ?thesis
      by (simp only: parse_FIXUPP_frame_def fixup_byte2_fields Let_def if_True if_False simp_thms)
        (simp add: canonical_fixupp_def r4_def)
  qed
  have tm: "target_method fx < 4" using ok by (simp add: canonical_fixupp_def)
  have "omf_record_get_index r4 = (ucast (target_index fx), r5)"
    using ok c4 unfolding r5_def
    by (intro get_index_bytes_index [where rest = "?d @ rest", THEN trans])
      (auto simp: canonical_fixupp_def)
  then have t: "parse_FIXUPP_target ?t (fixup_byte2 fx) r4 = (target_method fx, target_index fx, r5)"
    by (simp only: parse_FIXUPP_target_def fixup_byte2_fields fixup_byte2_fields(5) [OF tm] Let_def
        if_False simp_thms prod.case ucast_16_32)
  have d: "(if target_displacement fx = 0 then (0, r5) else omf_record_get_offset r5)
      = (target_displacement fx, r6)"
  proof (cases "target_displacement fx = 0")
    case True
    then show ?thesis by (simp add: enc_disp_def r6_def)
  next
    case False
    have fits: "fits_offset is32 (ucast (target_displacement fx))"
        and same: "(ucast (ucast (target_displacement fx) :: u32) :: u64) = target_displacement fx"
      using ok disp_fits by (auto simp: canonical_fixupp_def fits_offset_def split: if_splits)
    have "omf_record_get_offset r5 = (ucast (ucast (target_displacement fx) :: u32),
        adv (length (bytes_offset is32 (ucast (target_displacement fx)))) r5)"
      using c5 ty ty5 False fits by (intro get_offset_bytes_offset) (auto simp: enc_disp_def)
    with False same show ?thesis by (simp add: enc_disp_def r6_def)
  qed
  have add: "omf_fixupps_context_add_fixupp mal (FIXUPPs ctx) = (Inr (omf_FIXUPPS_count (FIXUPPs ctx)), ?t)"
    using mal cap by (rule add_fixupp_eq)
  have ent: "parse_FIXUPP_fixup (ctx\<lparr>FIXUPPs := ?t\<rparr>) (fixup_byte0 fx) r1 = (fx, r6)"
    using ok data_record_offset_parts [of "data_record_offset fx"]
    by (simp add: parse_FIXUPP_fixup_def b1 b2 Let_def fixup_byte2_fields
        fixup_byte0_fields f t d canonical_fixupp_def)
  show ?thesis
    using ent add r6
    by (simp add: omf_context_parse_FIXUPP_subrecord_def b0 fixup_byte0_fields set_entry_def
        omf_FIXUPPS_count_def)
qed

definition fixupp_upd :: "omf_fixupp_t \<Rightarrow> omf_context_t \<Rightarrow> omf_context_t" where
  "fixupp_upd fx ctx = ctx\<lparr>FIXUPPs := (FIXUPPs ctx)\<lparr>omf_FIXUPPS :=
     Some (entries_of (omf_FIXUPPS (FIXUPPs ctx)) @ [fx])\<rparr>\<rparr>"

lemma canonical_fixupp_upd [simp]: "canonical_fixupp (fixupp_upd fx ctx) is32 = canonical_fixupp ctx is32"
  by (rule ext) (simp add: canonical_fixupp_def fixupp_upd_def)

lemma fold_fixupp_upd:
  "FIXUPPs (fold fixupp_upd fs ctx) = (FIXUPPs ctx)\<lparr>omf_FIXUPPS :=
     (if fs = [] then omf_FIXUPPS (FIXUPPs ctx)
      else Some (entries_of (omf_FIXUPPS (FIXUPPs ctx)) @ fs))\<rparr>"
  by (induction fs arbitrary: ctx) (auto simp: fixupp_upd_def)

lemma fold_fixupp_upd_entries:
  "entries_of (omf_FIXUPPS (FIXUPPs (fold fixupp_upd fs ctx))) = entries_of (omf_FIXUPPS (FIXUPPs ctx)) @ fs"
  by (simp add: fold_fixupp_upd)

lemma enc_fixupp_nonempty [simp]: "enc_fixupp is32 fx \<noteq> []"
  by (simp add: enc_fixupp_def)

lemma parse_FIXUPP_decodes:
  assumes "wf_record rec" and "remaining rec = concat (map (enc_fixupp is32) fs)"
    and "\<forall>fx \<in> set fs. canonical_fixupp ctx is32 fx" and "malloc_never_fails mal"
    and "omf_FIXUPPS_count (FIXUPPs ctx) + length fs \<le> omf_FIXUPPS_alloc (FIXUPPs ctx)"
    and "is32 \<longleftrightarrow> rectype rec AND 1 \<noteq> 0"
  shows "parse_FIXUPP_loop mal ctx rec
    = (Inr (), fold fixupp_upd fs ctx, adv (length (concat (map (enc_fixupp is32) fs))) rec)"
proof (rule parse_FIXUPP.decodes [where ty = "rectype rec" and
      P = "\<lambda>c fs. (\<forall>fx \<in> set fs. canonical_fixupp c is32 fx)
             \<and> omf_FIXUPPS_count (FIXUPPs c) + length fs \<le> omf_FIXUPPS_alloc (FIXUPPs c)"])
  fix fx fs c r rest
  assume "(\<forall>f \<in> set (fx # fs). canonical_fixupp c is32 f)
      \<and> omf_FIXUPPS_count (FIXUPPs c) + length (fx # fs) \<le> omf_FIXUPPS_alloc (FIXUPPs c)"
    and "wf_record r" "rectype r = rectype rec" "remaining r = enc_fixupp is32 fx @ rest"
  then show "omf_context_parse_FIXUPP_subrecord mal c r
      = (Inr (), fixupp_upd fx c, adv (length (enc_fixupp is32 fx)) r)"
    using assms(4,6) parse_entry_decodes [of r is32 fx rest c mal] by (simp add: fixupp_upd_def)
next
  fix fx fs c
  assume "(\<forall>f \<in> set (fx # fs). canonical_fixupp c is32 f)
      \<and> omf_FIXUPPS_count (FIXUPPs c) + length (fx # fs) \<le> omf_FIXUPPS_alloc (FIXUPPs c)"
  then show "(\<forall>f \<in> set fs. canonical_fixupp (fixupp_upd fx c) is32 f)
      \<and> omf_FIXUPPS_count (FIXUPPs (fixupp_upd fx c)) + length fs \<le> omf_FIXUPPS_alloc (FIXUPPs (fixupp_upd fx c))"
    by simp (simp add: fixupp_upd_def omf_FIXUPPS_count_def)
qed (use assms in auto)

text \<open>A generated record, rewound, is parsed back to the allocated fixups.\<close>

lemma generate_rewound:
  assumes "can_generate rec is32 ctx"
  defines "out \<equiv> omf_context_generate_FIXUPP rec ctx is32"
  shows "wf_record (out\<lparr>recpos := 0\<rparr>)"
    and "remaining (out\<lparr>recpos := 0\<rparr>) = concat (map (enc_fixupp is32) (allocated (FIXUPPs ctx)))"
    and "is32 \<longleftrightarrow> rectype (out\<lparr>recpos := 0\<rparr>) AND 1 \<noteq> 0"
  using generate_FIXUPP_record [OF assms(1), folded out_def]
  by (auto simp: wf_record_def remaining_def)

end
