(* ===== verification/SegDg.thy ===== *)
theory SegDg
  imports OmfFile OmfGenFixupp
begin

text \<open>
  The OMF patcher \<^verbatim>\<open>fmt/omf/omfsegdg.c\<close>: it rewrites instructions that load the segment of
  DGROUP so that they copy CS instead, and drops the fixups they no longer need. First its
  argument parsing and file names, then the patch of one instruction, the choice of the
  fixups, and the two passes over the file. Messages on \<^verbatim>\<open>stderr\<close> and the dumps are left out.
\<close>

section \<open>Arguments and file names\<close>

record segdg_args =
  sa_in_file :: "cstr option"
  sa_out_file :: "cstr option"
  sa_verbose :: bool
  sa_dump :: bool

text \<open>\<open>Inl n\<close> is the exit status of a \<^verbatim>\<open>return n\<close> from \<^verbatim>\<open>main\<close>.\<close>

fun segdg_parse_args :: "cstr list \<Rightarrow> segdg_args \<Rightarrow> nat + segdg_args" where
  "segdg_parse_args [] s = Inr s"
| "segdg_parse_args (a # args) s =
     (if take 1 a = bytes_of ''-'' then
        let a = dropWhile (\<lambda>c. c = of_char CHR ''-'') a in
        if a = bytes_of ''i'' then
          (case args of [] \<Rightarrow> Inl 1 | f # args \<Rightarrow> segdg_parse_args args (s\<lparr>sa_in_file := Some f\<rparr>))
        else if a = bytes_of ''o'' then
          (case args of [] \<Rightarrow> Inl 1 | f # args \<Rightarrow> segdg_parse_args args (s\<lparr>sa_out_file := Some f\<rparr>))
        else if a = bytes_of ''v'' then segdg_parse_args args (s\<lparr>sa_verbose := True\<rparr>)
        else if a = bytes_of ''d'' then segdg_parse_args args (s\<lparr>sa_dump := True\<rparr>)
        else Inl 1
      else Inl 1)"

text \<open>\<^verbatim>\<open>strrchr(name,'.')\<close>: the part before the last dot and the part from it on.\<close>

definition split_ext :: "cstr \<Rightarrow> (cstr \<times> cstr) option" where
  "split_ext name =
     (let dot = of_char CHR ''.'';
          ext = takeWhile (\<lambda>c. c \<noteq> dot) (rev name)
      in if dot \<in> set name then
           Some (take (length name - length ext - 1) name, dot # rev ext)
         else None)"

text \<open>The temporary name for output over the input (\<^verbatim>\<open>.obt\<close>) and the name of the backup (\<^verbatim>\<open>.obo\<close>).\<close>

definition segdg_rename_ext :: "string \<Rightarrow> cstr \<Rightarrow> nat + cstr" where
  "segdg_rename_ext newext name =
     (case split_ext name of
        None \<Rightarrow> Inl 1
      | Some (stem, ext) \<Rightarrow>
          if same_nocase ext (bytes_of ''.obj'') then Inr (stem @ bytes_of newext) else Inl 1)"

section \<open>The patch of an instruction\<close>

text \<open>
  \<open>base\<close> is the LEDATA contents, \<open>fixup\<close> the place of the segment value in it. The result is
  \<open>None\<close> when no known instruction stands there.
\<close>

definition my_fixupp_patch_code_16ofs_fixup :: "u8 list \<Rightarrow> nat \<Rightarrow> u8 list option" where
  "my_fixupp_patch_code_16ofs_fixup base fixup =
     (let len = length base in
      if fixup \<ge> 2 \<and> fixup + 2 \<le> len \<and> base ! (fixup - 2) = 0xC7 \<and> base ! (fixup - 1) \<le> 0x07 then
        Some (base[fixup - 2 := 0x8C, fixup - 1 := push_bit 3 1 OR (base ! (fixup - 1) AND 7),
                   fixup := 0x90, fixup + 1 := 0x90])
      else if fixup \<ge> 3 \<and> fixup + 3 \<le> len \<and> base ! (fixup - 3) = 0xC7
              \<and> base ! (fixup - 2) \<ge> 0x40 \<and> base ! (fixup - 2) \<le> 0x47 then
        Some (base[fixup - 3 := 0x8C,
                   fixup - 2 := push_bit 6 1 OR push_bit 3 1 OR (base ! (fixup - 2) AND 7),
                   fixup := 0x90, fixup + 1 := 0x90])
      else if fixup \<ge> 1 \<and> fixup + 2 \<le> len \<and> base ! (fixup - 1) AND 0xF8 = 0xB8 then
        Some (base[fixup := 0xC0 OR push_bit 3 1 OR (base ! (fixup - 1) AND 7),
                   fixup - 1 := 0x8C, fixup + 1 := 0x90])
      else None)"

section \<open>Which fixups are patched\<close>

text \<open>A public name that is NULL makes \<^verbatim>\<open>strcmp\<close> read through it: \<open>UNDEF\<close>.\<close>

definition lookup_pubdef :: "omf_context_t \<Rightarrow> cstr \<Rightarrow> c_error + omf_pubdef_t option" where
  "lookup_pubdef ctx name =
     fold (\<lambda>i r. case r of
         Inr None \<Rightarrow>
           (case omf_pubdefs_context_get_pubdef (PUBDEFs ctx) i of
              Inl _ \<Rightarrow> Inr None
            | Inr pubdef \<Rightarrow>
                (case pd_name_string pubdef of
                   None \<Rightarrow> Inl UNDEF
                 | Some n \<Rightarrow> Inr (if n = name then Some pubdef else None)))
       | _ \<Rightarrow> r)
       [1..<omf_pubdefs_context_get_highest_index (PUBDEFs ctx) + 1] (Inr None)"

definition dgroup_name :: cstr where
  "dgroup_name = bytes_of ''DGROUP''"

text \<open>The group index is looked up in the table of names, as the source does.\<close>

definition segdef_in_DGROUP :: "omf_context_t \<Rightarrow> nat \<Rightarrow> bool" where
  "segdef_in_DGROUP ctx segidx \<longleftrightarrow>
     (\<exists>gi \<in> set [1..<omf_grpdefs_context_get_highest_index (GRPDEFs ctx) + 1].
        omf_lnames_context_get_name (LNAMEs ctx) gi = Some dgroup_name
        \<and> (case omf_grpdefs_context_get_grpdef (GRPDEFs ctx) gi of
             Inl _ \<Rightarrow> False
           | Inr grpdef \<Rightarrow>
               (\<exists>si \<in> set [0..<gd_count grpdef].
                  case omf_grpdefs_context_get_grpdef_segdef (GRPDEFs ctx) grpdef si of
                    Inl _ \<Rightarrow> False
                  | Inr segdef_i \<Rightarrow> segdef_i \<noteq> 0 \<and> unat segdef_i = segidx)))"

definition ledata_is_code :: "omf_context_t \<Rightarrow> nat \<Rightarrow> bool" where
  "ledata_is_code ctx si =
     (case omf_segdefs_context_get_segdef (SEGDEFs ctx) si of
        Inl _ \<Rightarrow> False
      | Inr segdef \<Rightarrow>
          let segname = omf_lnames_context_get_name (LNAMEs ctx) (unat (segment_name_index segdef));
              classname = omf_lnames_context_get_name (LNAMEs ctx) (unat (class_name_index segdef))
          in segname = Some (bytes_of ''TEXT'') \<or> segname = Some (bytes_of ''_TEXT'')
             \<or> classname = Some (bytes_of ''CODE''))"

text \<open>
  Does the fixup refer to DGROUP? Frame method 5 takes the frame of the target, 1 is a group,
  0 a segment; any other frame method passes.
\<close>

definition fixupp_refers_to_DGROUP :: "omf_context_t \<Rightarrow> omf_fixupp_t \<Rightarrow> c_error + bool" where
  "fixupp_refers_to_DGROUP ctx fixupp =
     (if frame_method fixupp = 5 then
        if target_method fixupp = 2 then
          (case lookup_pubdef ctx (omf_context_get_extdef_name_safe ctx (unat (target_index fixupp))) of
             Inl e \<Rightarrow> Inl e
           | Inr None \<Rightarrow> Inr True
           | Inr (Some pubdef) \<Rightarrow>
               Inr ((pd_group_index pubdef \<noteq> 0
                     \<and> omf_context_get_grpdef_name_safe ctx (unat (pd_group_index pubdef)) = dgroup_name)
                    \<or> (pd_group_index pubdef = 0
                       \<and> segdef_in_DGROUP ctx (unat (pd_segment_index pubdef)))))
        else Inr False
      else if frame_method fixupp = 1 then
        Inr (omf_context_get_grpdef_name_safe ctx (unat (frame_index fixupp)) = dgroup_name)
      else if frame_method fixupp = 0 then
        Inr (segdef_in_DGROUP ctx (unat (frame_index fixupp)))
      else Inr True)"

text \<open>Location 3 is segment:offset, 2 a segment base; only the latter is patched.\<close>

definition fixupp_wants_patch :: "omf_context_t \<Rightarrow> bool \<Rightarrow> nat \<Rightarrow> omf_fixupp_t \<Rightarrow> c_error + bool" where
  "fixupp_wants_patch ctx is_code len fixupp =
     (if \<not> alloc fixupp then Inr False
      else if location fixupp = 3 then Inr False
      else if location fixupp \<noteq> 2 then Inr False
      else if unat (data_record_offset fixupp) + 2 > len then Inr False
      else if \<not> is_code then Inr False
      else fixupp_refers_to_DGROUP ctx fixupp)"

text \<open>One turn of the loop: the fixup at index \<open>i\<close>, the LEDATA contents, and the update flag.\<close>

definition patch_segrefs_one ::
    "bool \<Rightarrow> nat \<Rightarrow> omf_context_t \<times> u8 list \<times> bool \<Rightarrow> c_error + omf_context_t \<times> u8 list \<times> bool" where
  "patch_segrefs_one is_code i = (\<lambda>(ctx, base, chk).
     case omf_fixupps_context_get_fixupp (FIXUPPs ctx) i of
       Inl _ \<Rightarrow> Inr (ctx, base, chk)
     | Inr fixupp \<Rightarrow>
         (case fixupp_wants_patch ctx is_code (length base) fixupp of
            Inl e \<Rightarrow> Inl e
          | Inr False \<Rightarrow> Inr (ctx, base, chk)
          | Inr True \<Rightarrow>
              (case my_fixupp_patch_code_16ofs_fixup base (unat (data_record_offset fixupp)) of
                 None \<Rightarrow> Inr (ctx, base, chk)
               | Some base \<Rightarrow>
                   Inr (ctx\<lparr>FIXUPPs := (FIXUPPs ctx)\<lparr>omf_FIXUPPS :=
                          set_entry (i - 1) (\<lambda>f. f\<lparr>alloc := False\<rparr>) (omf_FIXUPPS (FIXUPPs ctx))\<rparr>\<rparr>,
                        base, True))))"

fun foldE :: "('x \<Rightarrow> 's \<Rightarrow> c_error + 's) \<Rightarrow> 'x list \<Rightarrow> 's \<Rightarrow> c_error + 's" where
  "foldE f [] s = Inr s"
| "foldE f (x # xs) s = (case f x s of Inl e \<Rightarrow> Inl e | Inr s \<Rightarrow> foldE f xs s)"

text \<open>The LEDATA bytes are patched inside the record; its checksum follows if they changed.\<close>

definition my_fixupp_patch_segrefs ::
    "omf_context_t \<Rightarrow> omf_record_t \<Rightarrow> c_error + omf_context_t \<times> omf_record_t" where
  "my_fixupp_patch_segrefs ctx ledata =
     (let (_, ledata) = omf_record_lseek ledata 0;
          info0 = \<lparr>segment_index = 0, enum_data_offset = 0, le_data = None\<rparr> in
      case omf_context_parse_LEDATA ctx info0 ledata of
        (Inl _, ctx, info, ledata) \<Rightarrow> Inr (ctx, ledata)
      | (Inr _, ctx, info, ledata) \<Rightarrow>
          let is_code = ledata_is_code ctx (unat (segment_index info));
              p = unat (recpos ledata)
          in (case foldE (patch_segrefs_one is_code)
                     [1..<omf_fixupps_context_get_highest_index (FIXUPPs ctx) + 1]
                     (ctx, entries_of (le_data info), False) of
                Inl e \<Rightarrow> Inl e
              | Inr (ctx, base, chk) \<Rightarrow>
                  let ledata = ledata\<lparr>data :=
                        map_option (\<lambda>d. take p d @ base @ drop (p + length base) d) (data ledata)\<rparr>
                  in Inr (ctx, if chk then omf_record_write_update_checksum ledata else ledata)))"

section \<open>First pass: the definitions of the object file\<close>

definition or_exit :: "(c_error + 'a) \<times> omf_context_t \<Rightarrow> nat + omf_context_t" where
  "or_exit = (\<lambda>(r, ctx). case r of Inl _ \<Rightarrow> Inl 1 | Inr _ \<Rightarrow> Inr ctx)"

definition segdg_pass1_record :: "allocator \<Rightarrow> omf_context_t \<Rightarrow> nat + omf_context_t" where
  "segdg_pass1_record mal ctx =
     (let ty = rectype (ctx_record ctx) in
      if ty = 0x80 then or_exit (on_record (omf_context_parse_THEADR mal) ctx)
      else if ty \<in> {0x8C, 0xB4, 0xB5} then or_exit (on_record (omf_context_parse_EXTDEF mal) ctx)
      else if ty \<in> {0x90, 0x91, 0xB6, 0xB7} then or_exit (on_record (omf_context_parse_PUBDEF mal) ctx)
      else if ty = 0x96 then or_exit (on_record (omf_context_parse_LNAMES mal) ctx)
      else if ty \<in> {0x98, 0x99} then or_exit (on_record (omf_context_parse_SEGDEF mal) ctx)
      else if ty \<in> {0x9A, 0x9B} then or_exit (on_record (omf_context_parse_GRPDEF mal) ctx)
      else if ty = 0xF0 then Inl 1
      else Inr ctx)"

text \<open>
  The pass ends at the end of the file, at a MODEND or LIBEND record, or on an error, which
  is only reported.
\<close>

function segdg_pass1 :: "allocator \<Rightarrow> omf_context_t \<Rightarrow> fd_t \<Rightarrow> nat + omf_context_t \<times> fd_t" where
  "segdg_pass1 mal ctx fd =
     (case omf_context_read_fd mal ctx fd of
        (Inr True, ctx1, fd1) \<Rightarrow>
          (case segdg_pass1_record mal ctx1 of
             Inl n \<Rightarrow> Inl n
           | Inr ctx2 \<Rightarrow> segdg_pass1 mal ctx2 fd1)
      | (r, ctx1, fd1) \<Rightarrow> Inr (ctx1, fd1))"
  by pat_completeness auto
termination
  by (relation "measure (\<lambda>(mal, ctx, fd). length (fd_bytes fd) - fd_pos fd)")
    (auto dest!: read_fd_progress [OF sym])

declare segdg_pass1.simps [simp del]

section \<open>Second pass: patch and copy\<close>

text \<open>The pass holds back one LEDATA record until the FIXUPP record that follows it is known.\<close>

record segdg_state =
  sg_ctx :: omf_context_t
  sg_last :: omf_record_t      \<comment> \<open>\<^verbatim>\<open>last_ledata\<close>\<close>
  sg_ofd :: fd_t

definition write_or_exit :: "omf_record_t \<Rightarrow> segdg_state \<Rightarrow> nat + segdg_state" where
  "write_or_exit rec s =
     (case omf_context_record_write_fd (sg_ofd s) rec of
        (Inl _, fd) \<Rightarrow> Inl 1
      | (Inr _, fd) \<Rightarrow> Inr (s\<lparr>sg_ofd := fd\<rparr>))"

definition flush_last :: "segdg_state \<Rightarrow> nat + segdg_state" where
  "flush_last s =
     (if data (sg_last s) \<noteq> None then
        (case write_or_exit (sg_last s) s of
           Inl n \<Rightarrow> Inl n
         | Inr s \<Rightarrow> Inr (s\<lparr>sg_last := omf_record_free (sg_last s)\<rparr>))
      else Inr s)"

definition andThen :: "nat + 's \<Rightarrow> ('s \<Rightarrow> nat + 't) \<Rightarrow> nat + 't" where
  "andThen r f = (case r of Inl n \<Rightarrow> Inl n | Inr s \<Rightarrow> f s)"

text \<open>A read through a NULL name has no defined outcome; the status 139 marks it.\<close>

definition segdg_fixupp :: "allocator \<Rightarrow> segdg_state \<Rightarrow> nat + segdg_state" where
  "segdg_fixupp mal s =
     (let ctx = (sg_ctx s)\<lparr>FIXUPPs := omf_fixupps_context_free_entries (FIXUPPs (sg_ctx s))\<rparr> in
      case on_record (omf_context_parse_FIXUPP mal) ctx of
        (Inl _, ctx) \<Rightarrow> Inl 1
      | (Inr _, ctx) \<Rightarrow>
          if data (sg_last s) = None then Inl 1
          else
            (case my_fixupp_patch_segrefs ctx (sg_last s) of
               Inl _ \<Rightarrow> Inl 139
             | Inr (ctx, ledata) \<Rightarrow>
                 let is32 = (rectype (ctx_record ctx) AND 1 \<noteq> 0);
                     ctx = ctx\<lparr>ctx_record := omf_context_generate_FIXUPP (ctx_record ctx) ctx is32\<rparr>
                 in andThen (flush_last (s\<lparr>sg_ctx := ctx, sg_last := ledata\<rparr>))
                      (\<lambda>s. write_or_exit (ctx_record (sg_ctx s)) s)))"

definition segdg_pass2_record :: "allocator \<Rightarrow> segdg_state \<Rightarrow> nat + segdg_state" where
  "segdg_pass2_record mal s =
     (let ty = rectype (ctx_record (sg_ctx s)) in
      if ty \<in> {0x9C, 0x9D} then segdg_fixupp mal s
      else if ty \<in> {0x8A, 0x8B} then write_or_exit (ctx_record (sg_ctx s)) s
      else if ty \<in> {0xA0, 0xA1} then
        andThen (flush_last s) (\<lambda>s.
          let ledata = ctx_record (sg_ctx s);
              rec = (omf_record_init ledata)\<lparr>data_alloc := data_alloc ledata\<rparr>
          in Inr (s\<lparr>sg_last := ledata, sg_ctx := (sg_ctx s)\<lparr>ctx_record := rec\<rparr>\<rparr>))
      else andThen (flush_last s) (\<lambda>s. write_or_exit (ctx_record (sg_ctx s)) s))"

function segdg_pass2_loop :: "allocator \<Rightarrow> segdg_state \<Rightarrow> fd_t \<Rightarrow> nat + segdg_state" where
  "segdg_pass2_loop mal s fd =
     (case omf_context_read_fd mal (sg_ctx s) fd of
        (Inr True, ctx1, fd1) \<Rightarrow>
          (case segdg_pass2_record mal (s\<lparr>sg_ctx := ctx1\<rparr>) of
             Inl n \<Rightarrow> Inl n
           | Inr s2 \<Rightarrow> segdg_pass2_loop mal s2 fd1)
      | (r, ctx1, fd1) \<Rightarrow> Inr (s\<lparr>sg_ctx := ctx1\<rparr>))"
  by pat_completeness auto
termination
  by (relation "measure (\<lambda>(mal, s, fd). length (fd_bytes fd) - fd_pos fd)")
    (auto dest!: read_fd_progress [OF sym])

declare segdg_pass2_loop.simps [simp del]

definition zero_record :: omf_record_t where
  "zero_record = \<lparr>rectype = 0, reclen = 0, recpos = 0, data = None, data_alloc = 0, rec_file_offset = 0\<rparr>"

definition segdg_pass2 :: "allocator \<Rightarrow> omf_context_t \<Rightarrow> fd_t \<Rightarrow> fd_t \<Rightarrow> nat + segdg_state" where
  "segdg_pass2 mal ctx fd ofd =
     (let ctx = rec_update (\<lambda>r. r\<lparr>rectype := 0\<rparr>) ctx;
          s = \<lparr>sg_ctx = ctx, sg_last = zero_record, sg_ofd = ofd\<rparr>
      in andThen (segdg_pass2_loop mal s (fd\<lparr>fd_pos := 0\<rparr>)) flush_last)"

text \<open>The two passes of \<^verbatim>\<open>main\<close>, from the open files on.\<close>

definition segdg_process :: "allocator \<Rightarrow> omf_context_t \<Rightarrow> fd_t \<Rightarrow> fd_t \<Rightarrow> nat + fd_t" where
  "segdg_process mal ctx fd ofd =
     (case segdg_pass1 mal (omf_context_begin_file ctx) fd of
        Inl n \<Rightarrow> Inl n
      | Inr (ctx, fd) \<Rightarrow>
          (case segdg_pass2 mal ctx fd ofd of
             Inl n \<Rightarrow> Inl n
           | Inr s \<Rightarrow> Inr (sg_ofd s)))"

end
