(* ===== verification/SegDgFacts.thy ===== *)
theory SegDgFacts
  imports SegDg
begin

text \<open>
  What the patcher guarantees: a patch stays inside the LEDATA contents and touches at most
  five bytes around the fixup, fixups are only ever switched off, and the patched record
  keeps its type, its length and a checksum that sums to 0.
\<close>

section \<open>One instruction\<close>

lemma patch_code_bounds:
  assumes "my_fixupp_patch_code_16ofs_fixup base fixup = Some base'"
  shows "length base' = length base" "1 \<le> fixup" "fixup + 2 \<le> length base"
  using assms by (auto simp: my_fixupp_patch_code_16ofs_fixup_def Let_def split: if_splits)

lemma patch_code_frame:
  assumes "my_fixupp_patch_code_16ofs_fixup base fixup = Some base'"
    and "i + 3 < fixup \<or> fixup + 1 < i"
  shows "base' ! i = base ! i"
  using assms by (auto simp: my_fixupp_patch_code_16ofs_fixup_def Let_def nth_list_update split: if_splits)

text \<open>
  The three forms: \<^verbatim>\<open>MOV [r],imm\<close> becomes \<^verbatim>\<open>MOV [r],CS\<close>, \<^verbatim>\<open>MOV [r+d8],imm\<close> becomes
  \<^verbatim>\<open>MOV [r+d8],CS\<close>, and \<^verbatim>\<open>MOV r,imm\<close> becomes \<^verbatim>\<open>MOV r,CS\<close>, filled up with \<^verbatim>\<open>NOP\<close>.
\<close>

definition mov_cs_at :: "u8 list \<Rightarrow> u8 list \<Rightarrow> nat \<Rightarrow> bool" where
  "mov_cs_at base base' fixup \<longleftrightarrow>
     (fixup \<ge> 2 \<and> base ! (fixup - 2) = 0xC7 \<and> base' ! (fixup - 2) = 0x8C
        \<and> base' ! (fixup - 1) = 0x08 OR (base ! (fixup - 1) AND 7)
        \<and> base' ! fixup = 0x90 \<and> base' ! (fixup + 1) = 0x90)
   \<or> (fixup \<ge> 3 \<and> base ! (fixup - 3) = 0xC7 \<and> base' ! (fixup - 3) = 0x8C
        \<and> base' ! (fixup - 2) = 0x48 OR (base ! (fixup - 2) AND 7)
        \<and> base' ! (fixup - 1) = base ! (fixup - 1)
        \<and> base' ! fixup = 0x90 \<and> base' ! (fixup + 1) = 0x90)
   \<or> (base ! (fixup - 1) AND 0xF8 = 0xB8 \<and> base' ! (fixup - 1) = 0x8C
        \<and> base' ! fixup = 0xC8 OR (base ! (fixup - 1) AND 7) \<and> base' ! (fixup + 1) = 0x90)"

lemma patch_code_loads_CS:
  assumes "my_fixupp_patch_code_16ofs_fixup base fixup = Some base'"
  shows "mov_cs_at base base' fixup"
proof -
  let ?A = "fixup \<ge> 2 \<and> fixup + 2 \<le> length base \<and> base ! (fixup - 2) = 0xC7 \<and> base ! (fixup - 1) \<le> 0x07"
  let ?B = "fixup \<ge> 3 \<and> fixup + 3 \<le> length base \<and> base ! (fixup - 3) = 0xC7
              \<and> base ! (fixup - 2) \<ge> 0x40 \<and> base ! (fixup - 2) \<le> 0x47"
  let ?C = "fixup \<ge> 1 \<and> fixup + 2 \<le> length base \<and> base ! (fixup - 1) AND 0xF8 = 0xB8"
  consider ?A | "\<not> ?A" ?B | "\<not> ?A" "\<not> ?B" ?C
    using assms by (auto simp: my_fixupp_patch_code_16ofs_fixup_def Let_def split: if_splits)
  then show ?thesis
  proof cases
    case 1
    moreover obtain n where "fixup = n + 2" using 1 by (metis add.commute le_Suc_ex)
    ultimately have "base' = base[n := 0x8C, n + 1 := 0x08 OR (base ! (n + 1) AND 7), n + 2 := 0x90, n + 3 := 0x90]"
      using assms unfolding my_fixupp_patch_code_16ofs_fixup_def Let_def
      by (simp only: if_False if_True) (simp add: eval_nat_numeral flip: or.assoc)
    with 1 \<open>fixup = n + 2\<close> show ?thesis
      by (intro disjI1 mov_cs_at_def [THEN iffD2]) (simp add: nth_list_update)
  next
    case 2
    moreover obtain n where n: "fixup = n + 3" using 2 by (metis add.commute le_Suc_ex)
    ultimately have "base' = base[n := 0x8C, n + 1 := 0x48 OR (base ! (n + 1) AND 7), n + 3 := 0x90, n + 4 := 0x90]"
      using assms unfolding my_fixupp_patch_code_16ofs_fixup_def Let_def
      by (simp only: if_False if_True) (simp add: eval_nat_numeral flip: or.assoc)
    with 2 n show ?thesis
      by (intro disjI2 disjI1 mov_cs_at_def [THEN iffD2]) (simp add: nth_list_update)
  next
    case 3
    moreover obtain n where n: "fixup = n + 1" using 3 by (metis add.commute le_Suc_ex)
    ultimately have "base' = base[n + 1 := 0xC8 OR (base ! n AND 7), n := 0x8C, n + 2 := 0x90]"
      using assms unfolding my_fixupp_patch_code_16ofs_fixup_def Let_def
      by (simp only: if_False if_True) (simp add: eval_nat_numeral flip: or.assoc)
    with 3 n show ?thesis
      by (intro disjI2 mov_cs_at_def [THEN iffD2]) (simp add: nth_list_update)
  qed
qed

section \<open>The loop over the fixups\<close>

lemma foldE_invariant:
  assumes "foldE f xs s = Inr s'" and "I s"
    and "\<And>x s s'. x \<in> set xs \<Longrightarrow> I s \<Longrightarrow> f x s = Inr s' \<Longrightarrow> I s'"
  shows "I s'"
  using assms
proof (induction xs arbitrary: s)
  case (Cons x xs)
  then obtain t where "f x s = Inr t" "foldE f xs t = Inr s'"
    by (auto split: sum.splits)
  moreover from this Cons.prems(2,3) have "I t" by (meson list.set_intros(1))
  ultimately show ?case
    using Cons.IH Cons.prems(3) by (meson list.set_intros(2))
qed simp

text \<open>A fixup after the loop: the same, or switched off.\<close>

definition same_or_off :: "omf_fixupp_t \<Rightarrow> omf_fixupp_t \<Rightarrow> bool" where
  "same_or_off f g \<longleftrightarrow> g = f \<or> (g = f\<lparr>alloc := False\<rparr> \<and> location f = 2)"

inductive patch_rel :: "omf_context_t \<times> u8 list \<times> bool \<Rightarrow> omf_context_t \<times> u8 list \<times> bool \<Rightarrow> bool" where
  patch_relI: "length base' = length base \<Longrightarrow> (chk \<longrightarrow> chk') \<Longrightarrow> (\<not> chk' \<longrightarrow> base' = base)
     \<Longrightarrow> (fs = None \<longleftrightarrow> omf_FIXUPPS (FIXUPPs ctx) = None)
     \<Longrightarrow> list_all2 same_or_off (entries_of (omf_FIXUPPS (FIXUPPs ctx))) (entries_of fs)
     \<Longrightarrow> patch_rel (ctx, base, chk) (ctx\<lparr>FIXUPPs := (FIXUPPs ctx)\<lparr>omf_FIXUPPS := fs\<rparr>\<rparr>, base', chk')"

inductive_cases patch_relE: "patch_rel (ctx, base, chk) s'"

lemma same_or_off_refl [simp]: "same_or_off f f"
  by (simp add: same_or_off_def)

lemma same_or_off_trans: "same_or_off f g \<Longrightarrow> same_or_off g h \<Longrightarrow> same_or_off f h"
  by (auto simp: same_or_off_def)

lemma patch_rel_refl [simp]: "patch_rel s s"
proof (cases s)
  case (fields ctx base chk)
  have "patch_rel (ctx, base, chk)
      (ctx\<lparr>FIXUPPs := (FIXUPPs ctx)\<lparr>omf_FIXUPPS := omf_FIXUPPS (FIXUPPs ctx)\<rparr>\<rparr>, base, chk)"
    by (rule patch_relI) (auto intro: list.rel_refl)
  with fields show ?thesis by simp
qed

lemma patch_rel_trans:
  assumes "patch_rel s t" and "patch_rel t u"
  shows "patch_rel s u"
  using assms
proof (induction rule: patch_rel.induct)
  case (patch_relI base' base chk chk' fs ctx)
  note first = patch_relI
  obtain base2 chk2 fs2 where u: "u = ((ctx\<lparr>FIXUPPs := (FIXUPPs ctx)\<lparr>omf_FIXUPPS := fs\<rparr>\<rparr>)
        \<lparr>FIXUPPs := (FIXUPPs ctx)\<lparr>omf_FIXUPPS := fs2\<rparr>\<rparr>, base2, chk2)"
      and second: "length base2 = length base'" "chk' \<longrightarrow> chk2" "\<not> chk2 \<longrightarrow> base2 = base'"
        "fs2 = None \<longleftrightarrow> fs = None" "list_all2 same_or_off (entries_of fs) (entries_of fs2)"
    using patch_relI(6) by (rule patch_relE) simp
  have "list_all2 same_or_off (entries_of (omf_FIXUPPS (FIXUPPs ctx))) (entries_of fs2)"
    using first(5) second(5) by (intro list_all2_trans [OF same_or_off_trans]) auto
  with first second have "patch_rel (ctx, base, chk)
      (ctx\<lparr>FIXUPPs := (FIXUPPs ctx)\<lparr>omf_FIXUPPS := fs2\<rparr>\<rparr>, base2, chk2)"
    by (intro patch_rel.intros) auto
  with u show ?case by simp
qed

lemma wants_patch_location:
  "fixupp_wants_patch ctx is_code n f = Inr True \<Longrightarrow> location f = 2 \<and> alloc f \<and> is_code"
  by (auto simp: fixupp_wants_patch_def split: if_splits)

lemma switch_off_entry:
  assumes "i < length es" and "location (es ! i) = 2"
  shows "list_all2 same_or_off es (es[i := (es ! i)\<lparr>alloc := False\<rparr>])"
  using assms by (auto simp: list_all2_conv_all_nth nth_list_update same_or_off_def)

lemma patch_one_cases:
  assumes "patch_segrefs_one is_code i (ctx, base, chk) = Inr s'"
  obtains "s' = (ctx, base, chk)"
  | f base' where "0 < i" "i \<le> length (entries_of (omf_FIXUPPS (FIXUPPs ctx)))"
      "f = entries_of (omf_FIXUPPS (FIXUPPs ctx)) ! (i - 1)"
      "fixupp_wants_patch ctx is_code (length base) f = Inr True"
      "my_fixupp_patch_code_16ofs_fixup base (unat (data_record_offset f)) = Some base'"
      "s' = (ctx\<lparr>FIXUPPs := (FIXUPPs ctx)\<lparr>omf_FIXUPPS :=
               set_entry (i - 1) (\<lambda>f. f\<lparr>alloc := False\<rparr>) (omf_FIXUPPS (FIXUPPs ctx))\<rparr>\<rparr>, base', True)"
  using assms
  by (auto simp: patch_segrefs_one_def fixupps.get_eq split: sum.splits bool.splits option.splits if_splits)

lemma patch_one_rel:
  assumes "patch_segrefs_one is_code i s = Inr s'"
  shows "patch_rel s s'"
proof -
  obtain ctx base chk where s: "s = (ctx, base, chk)" by (cases s)
  from assms [unfolded s] show ?thesis
  proof (cases rule: patch_one_cases)
    case 1
    then show ?thesis by (simp add: s)
  next
    case (2 f base')
    then obtain es where es: "omf_FIXUPPS (FIXUPPs ctx) = Some es"
      by (cases "omf_FIXUPPS (FIXUPPs ctx)") auto
    have "list_all2 same_or_off es (es[i - 1 := (es ! (i - 1))\<lparr>alloc := False\<rparr>])"
      using 2 es wants_patch_location [OF 2(4)] by (intro switch_off_entry) auto
    with 2 es patch_code_bounds(1) [OF 2(5)]
    have "patch_rel (ctx, base, chk) (ctx\<lparr>FIXUPPs := (FIXUPPs ctx)\<lparr>omf_FIXUPPS :=
        Some (es[i - 1 := (es ! (i - 1))\<lparr>alloc := False\<rparr>])\<rparr>\<rparr>, base', True)"
      by (intro patch_rel.intros) auto
    with 2 es show ?thesis by (simp add: s set_entry_def)
  qed
qed

lemma patch_loop_rel:
  assumes "foldE (patch_segrefs_one is_code) xs s = Inr s'"
  shows "patch_rel s s'"
  by (rule foldE_invariant [where I = "patch_rel s", OF assms])
    (auto intro: patch_rel_trans patch_one_rel)

section \<open>The patched record\<close>

lemma wf_lseek_0:
  "data rec = Some d \<Longrightarrow> length d = data_alloc rec \<Longrightarrow> unat (reclen rec) \<le> length d
     \<Longrightarrow> omf_record_lseek rec 0 = (0, rec\<lparr>recpos := 0\<rparr>) \<and> wf_record (rec\<lparr>recpos := 0\<rparr>)"
  by (simp add: omf_record_lseek_def wf_record_def Let_def)

lemma parse_header_shape:
  assumes "omf_ledata_parse_header info rec = (r, info', rec')" and "wf_record rec"
  shows "wf_record rec' \<and> data rec' = data rec \<and> rectype rec' = rectype rec \<and> reclen rec' = reclen rec
     \<and> data_alloc rec' = data_alloc rec"
    and "r = Inr () \<Longrightarrow> le_data info' = Some (take (omf_record_data_available rec')
           (drop (unat (recpos rec')) (the (data rec'))))"
proof -
  obtain si rec1 where r1: "omf_record_get_index rec = (si, rec1)"
    by (cases "omf_record_get_index rec")
  obtain eno rec2 where r2: "omf_record_get_offset rec1 = (eno, rec2)"
    by (cases "omf_record_get_offset rec1")
  have k1: "wf_record rec1" "data rec1 = data rec" "rectype rec1 = rectype rec" "reclen rec1 = reclen rec"
      "data_alloc rec1 = data_alloc rec"
    using get_index.keeps [OF r1] get_index.wf [OF r1 assms(2)] by auto
  have k2: "wf_record rec2" "data rec2 = data rec1" "rectype rec2 = rectype rec1" "reclen rec2 = reclen rec1"
      "data_alloc rec2 = data_alloc rec1"
    using get_offset.keeps [OF r2] get_offset.wf [OF r2 k1(1)] by auto
  show "wf_record rec' \<and> data rec' = data rec \<and> rectype rec' = rectype rec \<and> reclen rec' = reclen rec
     \<and> data_alloc rec' = data_alloc rec"
    using assms k1 k2 by (auto simp: omf_ledata_parse_header_def Let_def r1 r2 split: if_splits)
  show "le_data info' = Some (take (omf_record_data_available rec')
           (drop (unat (recpos rec')) (the (data rec'))))" if "r = Inr ()"
    using assms(1) that by (auto simp: omf_ledata_parse_header_def Let_def r1 r2 split: if_splits)
qed

lemma splice_length:
  "p + length b \<le> length d \<Longrightarrow> length (take p d @ b @ drop (p + length b) d) = length d"
  by simp

lemma splice_same:
  "p + n \<le> length d \<Longrightarrow> b = take n (drop p d) \<Longrightarrow> take p d @ b @ drop (p + length b) d = d"
  by (simp add: min_def) (metis add.commute append_take_drop_id drop_drop)

lemma sum_record_bytes_cong:
  "rectype r = rectype r' \<Longrightarrow> reclen r = reclen r' \<Longrightarrow> data r = data r' \<Longrightarrow> record_bytes r = record_bytes r'"
  by (simp add: record_bytes_def)

definition sealed :: "omf_record_t \<Rightarrow> bool" where
  "sealed rec \<longleftrightarrow> (\<exists>d. data rec = Some d \<and> length d = data_alloc rec \<and> unat (reclen rec) < length d)
     \<and> sum_list (record_bytes rec) = 0"

lemma patch_segrefs_sealed:
  assumes p: "my_fixupp_patch_segrefs ctx ledata = Inr (ctx', ledata')" and s: "sealed ledata"
  shows "sealed ledata'" and "rectype ledata' = rectype ledata" and "reclen ledata' = reclen ledata"
    and "data_alloc ledata' = data_alloc ledata"
    and "list_all2 same_or_off (entries_of (omf_FIXUPPS (FIXUPPs ctx))) (entries_of (omf_FIXUPPS (FIXUPPs ctx')))"
proof -
  obtain d where d: "data ledata = Some d" "length d = data_alloc ledata" "unat (reclen ledata) < length d"
      and sum: "sum_list (record_bytes ledata) = 0"
    using s by (auto simp: sealed_def)
  let ?l0 = "ledata\<lparr>recpos := 0\<rparr>" and ?i0 = "\<lparr>segment_index = 0, enum_data_offset = 0, le_data = None\<rparr>"
  have l0: "omf_record_lseek ledata 0 = (0, ?l0)" "wf_record ?l0"
    using wf_lseek_0 [OF d(1,2)] d(3) by auto
  obtain r info rec1 where h: "omf_ledata_parse_header ?i0 ?l0 = (r, info, rec1)"
    by (cases "omf_ledata_parse_header ?i0 ?l0") auto
  note k = parse_header_shape [OF h l0(2)]
  have key: "sealed ledata' \<and> rectype ledata' = rectype ledata \<and> reclen ledata' = reclen ledata
    \<and> data_alloc ledata' = data_alloc ledata
    \<and> list_all2 same_or_off (entries_of (omf_FIXUPPS (FIXUPPs ctx))) (entries_of (omf_FIXUPPS (FIXUPPs ctx')))"
  proof (cases r)
    case (Inl e)
    then have "ctx' = ctx" "ledata' = rec1"
      using p l0(1) h by (auto simp: my_fixupp_patch_segrefs_def omf_context_parse_LEDATA_def)
    moreover have "record_bytes rec1 = record_bytes ledata"
      using k(1) by (intro sum_record_bytes_cong) auto
    ultimately show ?thesis
      using k(1) d sum by (auto simp: sealed_def intro: list.rel_refl)
  next
    case (Inr u)
    let ?ctx1 = "omf_context_update_last_LEDATA ctx info rec1"
    let ?p = "unat (recpos rec1)" and ?n = "omf_record_data_available rec1"
    let ?base = "take ?n (drop ?p d)"
    have base: "entries_of (le_data info) = ?base"
      using k Inr d(1) by simp
    have pn: "?p + ?n \<le> length d"
      using k(1) d by (auto simp: omf_record_data_available_def wf_record_def word_le_nat_alt)
    obtain ctx2 base2 chk where f: "foldE (patch_segrefs_one (ledata_is_code ?ctx1 (unat (segment_index info))))
          [1..<omf_fixupps_context_get_highest_index (FIXUPPs ?ctx1) + 1] (?ctx1, ?base, False)
          = Inr (ctx2, base2, chk)"
        and ctx2: "ctx' = ctx2"
        and led: "ledata' = (let l = rec1\<lparr>data := Some (take ?p d @ base2 @ drop (?p + length base2) d)\<rparr>
            in if chk then omf_record_write_update_checksum l else l)"
      using p l0(1) h Inr k(1) d(1) base
      by (auto simp: my_fixupp_patch_segrefs_def omf_context_parse_LEDATA_def Let_def split: sum.splits)
    let ?d2 = "take ?p d @ base2 @ drop (?p + length base2) d"
    let ?l2 = "rec1\<lparr>data := Some ?d2\<rparr>"
    from patch_loop_rel [OF f] have rel: "length base2 = length ?base" "\<not> chk \<longrightarrow> base2 = ?base"
        "list_all2 same_or_off (entries_of (omf_FIXUPPS (FIXUPPs ?ctx1))) (entries_of (omf_FIXUPPS (FIXUPPs ctx2)))"
      by (auto elim!: patch_relE)
    have len2: "length ?d2 = length d"
      using pn rel(1) by (intro splice_length) simp
    have fields: "rectype ?l2 = rectype ledata" "reclen ?l2 = reclen ledata" "data_alloc ?l2 = data_alloc ledata"
      using k(1) by auto
    have "sealed ledata'"
    proof (cases chk)
      case True
      then have "ledata' = omf_record_write_update_checksum ?l2" using led by simp
      moreover have "sum_list (record_bytes (omf_record_write_update_checksum ?l2)) = 0"
        using len2 d(3) k(1) by (intro update_checksum_sum [of _ ?d2]) auto
      ultimately show ?thesis
        using len2 d k(1) by (simp add: sealed_def) (simp add: omf_record_write_update_checksum_def Let_def)
    next
      case False
      then have "?d2 = d" using rel(2) pn by (intro splice_same) auto
      then have "ledata' = rec1\<lparr>data := Some d\<rparr>" using led False by simp
      moreover have "record_bytes (rec1\<lparr>data := Some d\<rparr>) = record_bytes ledata"
        using k(1) d by (intro sum_record_bytes_cong) auto
      ultimately show ?thesis using k(1) d sum by (simp add: sealed_def)
    qed
    moreover have "rectype ledata' = rectype ledata \<and> reclen ledata' = reclen ledata \<and> data_alloc ledata' = data_alloc ledata"
      using fields led by (cases chk) simp_all
    moreover have "FIXUPPs ?ctx1 = FIXUPPs ctx" by (simp add: omf_context_update_last_LEDATA_def)
    ultimately show ?thesis using rel(3) ctx2 by simp
  qed
  then show "sealed ledata'" "rectype ledata' = rectype ledata" "reclen ledata' = reclen ledata"
    "data_alloc ledata' = data_alloc ledata"
    "list_all2 same_or_off (entries_of (omf_FIXUPPS (FIXUPPs ctx))) (entries_of (omf_FIXUPPS (FIXUPPs ctx')))"
    by blast+
qed

end
