(* ===== verification/LinkState.thy ===== *)
theory LinkState
  imports OmfFile
begin

text \<open>
  The state of the linker \<^verbatim>\<open>tool/linker/lnkdos16.c\<close>: relocations, symbols, segments with
  their fragments, and the options and globals that its stages share, with the operations that
  allocate and look up entries. \<^verbatim>\<open>unsigned long\<close> is a 64-bit word. Copies of names made by
  \<^verbatim>\<open>strdup\<close> are taken to succeed; diagnostics are left out.
\<close>

section \<open>How a stage can stop\<close>

text \<open>
  A stage returns a value, or stops the link: a \<^verbatim>\<open>return n\<close> of the function (a failure for its
  caller), a failed \<^verbatim>\<open>assert\<close> or \<^verbatim>\<open>abort\<close>, an access outside an array or a division by zero,
  or a loop that never ends.
\<close>

datatype link_stop = Returns int | Assert_failed | Undefined | Never_returns

type_synonym 'a link = "link_stop + 'a"

definition bindL :: "'a link \<Rightarrow> ('a \<Rightarrow> 'b link) \<Rightarrow> 'b link" where
  "bindL r f = (case r of Inl e \<Rightarrow> Inl e | Inr x \<Rightarrow> f x)"

definition assertL :: "bool \<Rightarrow> 'a link \<Rightarrow> 'a link" where
  "assertL b r = (if b then r else Inl Assert_failed)"

definition definedL :: "bool \<Rightarrow> 'a link \<Rightarrow> 'a link" where
  "definedL b r = (if b then r else Inl Undefined)"

text \<open>The value of a lookup that the code stops on with \<^verbatim>\<open>return n\<close> when it fails.\<close>

definition someL :: "link_stop \<Rightarrow> 'a option \<Rightarrow> ('a \<Rightarrow> 'b link) \<Rightarrow> 'b link" where
  "someL e x f = (case x of None \<Rightarrow> Inl e | Some y \<Rightarrow> f y)"

lemma bindL_simps [simp]: "bindL (Inl e) f = Inl e" "bindL (Inr x) f = f x"
  by (simp_all add: bindL_def)

lemma someL_simps [simp]: "someL e None f = Inl e" "someL e (Some x) f = f x"
  by (simp_all add: someL_def)

lemma bindL_Inr: "bindL r f = Inr y \<longleftrightarrow> (\<exists>x. r = Inr x \<and> f x = Inr y)"
  by (cases r) auto

lemma assertL_Inr: "assertL b r = Inr y \<longleftrightarrow> b \<and> r = Inr y"
  by (simp add: assertL_def)

lemma definedL_Inr: "definedL b r = Inr y \<longleftrightarrow> b \<and> r = Inr y"
  by (simp add: definedL_def)

lemma someL_Inr: "someL e x f = Inr y \<longleftrightarrow> (\<exists>z. x = Some z \<and> f z = Inr y)"
  by (cases x) auto

lemmas link_Inr = bindL_Inr assertL_Inr definedL_Inr someL_Inr

fun foldL :: "('x \<Rightarrow> 's \<Rightarrow> 's link) \<Rightarrow> 'x list \<Rightarrow> 's \<Rightarrow> 's link" where
  "foldL f [] s = Inr s"
| "foldL f (x # xs) s = bindL (f x s) (foldL f xs)"

lemma foldL_invariant:
  assumes "foldL f xs s = Inr s'" and "I s"
    and "\<And>x s s'. x \<in> set xs \<Longrightarrow> I s \<Longrightarrow> f x s = Inr s' \<Longrightarrow> I s'"
  shows "I s'"
  using assms
proof (induction xs arbitrary: s)
  case (Cons x xs)
  then obtain t where "f x s = Inr t" "foldL f xs t = Inr s'"
    by (auto simp: bindL_Inr)
  moreover from this Cons.prems(2,3) have "I t" by (meson list.set_intros(1))
  ultimately show ?case
    using Cons.IH Cons.prems(3) by (meson list.set_intros(2))
qed simp

text \<open>The place of the first entry of an array that satisfies a test.\<close>

fun find_index :: "('a \<Rightarrow> bool) \<Rightarrow> 'a list \<Rightarrow> nat option" where
  "find_index P [] = None"
| "find_index P (x # xs) = (if P x then Some 0 else map_option Suc (find_index P xs))"

lemma find_index_Some:
  "find_index P xs = Some i \<longleftrightarrow> i < length xs \<and> P (xs ! i) \<and> (\<forall>j < i. \<not> P (xs ! j))"
proof (induction xs arbitrary: i)
  case (Cons x xs)
  show ?case
    by (cases i) (auto simp: Cons.IH less_Suc_eq_0_disj)
qed simp

lemma find_index_None: "find_index P xs = None \<longleftrightarrow> (\<forall>x \<in> set xs. \<not> P x)"
  by (induction xs) auto

lemma find_index_append:
  "find_index P (xs @ ys) = (case find_index P xs of Some i \<Rightarrow> Some i
     | None \<Rightarrow> map_option ((+) (length xs)) (find_index P ys))"
proof (induction xs)
  case Nil
  show ?case by (cases "find_index P ys") auto
next
  case (Cons x xs)
  then show ?case by (cases "find_index P ys") (auto split: option.splits)
qed

section \<open>Relocations\<close>

record exe_relocation =
  rl_segname :: cstr
  rl_fragment :: nat
  rl_offset :: u64

record exe_reloc_table =
  rt_entries :: "exe_relocation list option"
  rt_alloc :: nat

definition rt_count :: "exe_reloc_table \<Rightarrow> nat" where
  "rt_count t = length (entries_of (rt_entries t))"

definition alloc_exe_relocations :: "allocator \<Rightarrow> exe_reloc_table \<Rightarrow> exe_reloc_table" where
  "alloc_exe_relocations mal t =
     (if rt_entries t = None then
        (case mal (Req_exe_relocations 4096) of
           None \<Rightarrow> t\<lparr>rt_alloc := 4096\<rparr>
         | Some _ \<Rightarrow> t\<lparr>rt_entries := Some [], rt_alloc := 4096\<rparr>)
      else t)"

text \<open>
  \<^verbatim>\<open>new_exe_relocation\<close> returns an entry that the caller fills in; here the filled-in entry is
  an argument. \<open>None\<close> stands for its NULL.
\<close>

definition new_exe_relocation ::
    "allocator \<Rightarrow> exe_relocation \<Rightarrow> exe_reloc_table \<Rightarrow> exe_reloc_table option" where
  "new_exe_relocation mal r t =
     (let t = alloc_exe_relocations mal t in
      case rt_entries t of
        None \<Rightarrow> None
      | Some es \<Rightarrow>
          if rt_count t \<ge> rt_alloc t then None
          else Some (t\<lparr>rt_entries := Some (es @ [r])\<rparr>))"

definition free_exe_relocations :: "exe_reloc_table \<Rightarrow> exe_reloc_table" where
  "free_exe_relocations t =
     (if rt_entries t \<noteq> None then t\<lparr>rt_entries := None, rt_alloc := 0\<rparr> else t)"

section \<open>Symbols\<close>

text \<open>A slot of the table; an unused one has a NULL name.\<close>

record link_symbol =
  sy_name :: "cstr option"
  sy_segdef :: "cstr option"
  sy_groupdef :: "cstr option"
  sy_offset :: u64
  sy_fragment :: u16
  sy_in_file :: u16
  sy_in_module :: u16
  sy_is_local :: bool

definition zero_symbol :: link_symbol where
  "zero_symbol = \<lparr>sy_name = None, sy_segdef = None, sy_groupdef = None, sy_offset = 0,
     sy_fragment = 0, sy_in_file = 0, sy_in_module = 0, sy_is_local = False\<rparr>"

text \<open>The allocated slots, the number of slots in use, and where to look for a freed one.\<close>

record link_symtab =
  st_slots :: "link_symbol list option"
  st_count :: nat
  st_nextalloc :: nat

definition MAX_SYMBOLS :: nat where
  "MAX_SYMBOLS = 65536"

definition st_alloc :: "link_symtab \<Rightarrow> nat" where
  "st_alloc t = length (entries_of (st_slots t))"

definition link_symbols_extend :: "allocator \<Rightarrow> nat \<Rightarrow> link_symtab \<Rightarrow> bool \<times> link_symtab" where
  "link_symbols_extend mal sz t =
     (if sz > MAX_SYMBOLS then (False, t)
      else if sz \<le> st_alloc t then (True, t)
      else if sz = 0 then (False, t)
      else
        (case mal (Req_link_symbols sz) of
           None \<Rightarrow> (False, t)
         | Some _ \<Rightarrow>
             (case st_slots t of
                Some ss \<Rightarrow> (True, t\<lparr>st_slots := Some (ss @ replicate (sz - length ss) zero_symbol)\<rparr>)
              | None \<Rightarrow> (True, t\<lparr>st_slots := Some (replicate sz zero_symbol),
                                 st_nextalloc := 0, st_count := 0\<rparr>))))"

definition link_symbols_extend_double :: "allocator \<Rightarrow> link_symtab \<Rightarrow> bool \<times> link_symtab" where
  "link_symbols_extend_double mal t =
     (if st_alloc t < MAX_SYMBOLS then
        let ns = st_alloc t * 2;
            ns = (if ns < 128 then 128 else ns);
            ns = (if ns > MAX_SYMBOLS then MAX_SYMBOLS else ns)
        in link_symbols_extend mal ns t
      else (True, t))"

text \<open>
  The two scans of one turn of the loop in \<^verbatim>\<open>link_symbol_empty_slot\<close>: for a freed slot
  below \<open>st_count\<close>, then for a new one.
\<close>

definition scan_slots :: "nat \<Rightarrow> nat \<Rightarrow> link_symtab \<Rightarrow> nat option" where
  "scan_slots lo hi t =
     map_option ((+) lo)
       (find_index (\<lambda>s. sy_name s = None) (take (hi - lo) (drop lo (entries_of (st_slots t)))))"

definition empty_slot_turn :: "link_symtab \<Rightarrow> nat option \<times> link_symtab" where
  "empty_slot_turn t =
     (case scan_slots (st_nextalloc t) (st_count t) t of
        Some i \<Rightarrow> (Some i, t\<lparr>st_nextalloc := i + 1\<rparr>)
      | None \<Rightarrow>
          let t = t\<lparr>st_nextalloc := st_count t\<rparr> in
          (case scan_slots (st_count t) (st_alloc t) t of
             Some i \<Rightarrow> (Some i, t\<lparr>st_count := i + 1\<rparr>)
           | None \<Rightarrow> (None, t\<lparr>st_count := st_alloc t\<rparr>)))"

text \<open>The loop itself need not end; \<open>None\<close> is the run that does not.\<close>

partial_function (option) empty_slot_loop ::
    "allocator \<Rightarrow> link_symtab \<Rightarrow> (nat option \<times> link_symtab) link option" where
  "empty_slot_loop mal t =
     (if \<not> (st_nextalloc t \<le> st_count t \<and> st_count t \<le> st_alloc t) then Some (Inl Assert_failed)
      else
        (case empty_slot_turn t of
           (Some i, t) \<Rightarrow> Some (Inr (Some i, t))
         | (None, t) \<Rightarrow>
             (case link_symbols_extend_double mal t of
                (ok, t) \<Rightarrow> if ok then empty_slot_loop mal t else Some (Inr (None, t)))))"

definition link_symbol_empty_slot ::
    "allocator \<Rightarrow> link_symtab \<Rightarrow> (nat option \<times> link_symtab) link option" where
  "link_symbol_empty_slot mal t =
     (if st_slots t = None then
        (case link_symbols_extend_double mal t of
           (False, t) \<Rightarrow> Some (Inr (None, t))
         | (True, t) \<Rightarrow> empty_slot_loop mal t)
      else empty_slot_loop mal t)"

definition set_slot :: "nat \<Rightarrow> link_symbol \<Rightarrow> link_symtab \<Rightarrow> link_symtab" where
  "set_slot i s t = t\<lparr>st_slots := map_option (\<lambda>ss. ss[i := s]) (st_slots t)\<rparr>"

definition get_slot :: "nat \<Rightarrow> link_symtab \<Rightarrow> link_symbol" where
  "get_slot i t = entries_of (st_slots t) ! i"

definition new_link_symbol ::
    "allocator \<Rightarrow> cstr \<Rightarrow> link_symtab \<Rightarrow> (nat option \<times> link_symtab) link" where
  "new_link_symbol mal name t =
     (case link_symbol_empty_slot mal t of
        None \<Rightarrow> Inl Never_returns
      | Some (Inl e) \<Rightarrow> Inl e
      | Some (Inr (None, t)) \<Rightarrow> Inr (None, t)
      | Some (Inr (Some i, t)) \<Rightarrow>
          let s = get_slot i t in
          assertL (sy_name s = None \<and> sy_segdef s = None \<and> sy_groupdef s = None)
            (Inr (Some i, set_slot i (s\<lparr>sy_name := Some name, sy_in_file := 0xFFFF\<rparr>) t)))"

text \<open>
  A local symbol is only seen from its own file and module; \<open>-1\<close> for either hides all of
  them.
\<close>

definition symbol_hidden :: "int \<Rightarrow> int \<Rightarrow> link_symbol \<Rightarrow> bool" where
  "symbol_hidden in_file in_module s \<longleftrightarrow>
     sy_is_local s \<and> (in_file < 0 \<or> in_module < 0
       \<or> (in_file \<ge> 0 \<and> int (unat (sy_in_file s)) \<noteq> in_file)
       \<or> (in_module \<ge> 0 \<and> int (unat (sy_in_module s)) \<noteq> in_module))"

fun find_symbol_in :: "cstr \<Rightarrow> int \<Rightarrow> int \<Rightarrow> nat \<Rightarrow> link_symbol list \<Rightarrow> nat option link" where
  "find_symbol_in name f m i [] = Inr None"
| "find_symbol_in name f m i (s # ss) =
     assertL (sy_name s \<noteq> None)
       (if \<not> symbol_hidden f m s \<and> sy_name s = Some name then Inr (Some i)
        else find_symbol_in name f m (i + 1) ss)"

definition find_link_symbol :: "cstr \<Rightarrow> int \<Rightarrow> int \<Rightarrow> link_symtab \<Rightarrow> nat option link" where
  "find_link_symbol name f m t = find_symbol_in name f m 0 (take (st_count t) (entries_of (st_slots t)))"

definition link_symbols_free :: "link_symtab \<Rightarrow> link_symtab" where
  "link_symbols_free t =
     (if st_slots t \<noteq> None then t\<lparr>st_slots := None, st_count := 0, st_nextalloc := 0\<rparr> else t)"

section \<open>Segments and their fragments\<close>

record seg_fragment =
  fr_in_file :: u16
  fr_in_module :: u16
  fr_segidx :: u16
  fr_offset :: u64
  fr_length :: u64
  fr_attr :: omf_segdef_attr_t

text \<open>\<open>ls_fragments\<close> holds the \<^verbatim>\<open>fragments_count\<close> used entries; \<open>None\<close> is NULL.\<close>

record link_segdef =
  ls_attr :: omf_segdef_attr_t
  ls_name :: cstr
  ls_classname :: "cstr option"
  ls_groupname :: "cstr option"
  ls_file_offset :: u64
  ls_linear_offset :: u64
  ls_segment_base :: u64
  ls_segment_offset :: u64
  ls_segment_length :: u64
  ls_segment_relative :: u64
  ls_initial_alignment :: u16
  ls_segment_len_count :: u64
  ls_load_base :: u64
  ls_image :: "u8 list option"
  ls_fragments :: "seg_fragment list option"
  ls_fragments_alloc :: nat
  ls_fragments_read :: nat
  ls_pinned :: bool
  ls_noemit :: bool

definition ls_fragments_count :: "link_segdef \<Rightarrow> nat" where
  "ls_fragments_count sg = length (entries_of (ls_fragments sg))"

definition zero_attr :: omf_segdef_attr_t where
  "zero_attr = \<lparr>raw = 0, frame_number = 0, offset = 0\<rparr>"

definition MAX_SEGMENTS :: nat where "MAX_SEGMENTS = 256"
definition MAX_SEG_FRAGMENTS :: nat where "MAX_SEG_FRAGMENTS = 1024"

definition zero_fragment :: seg_fragment where
  "zero_fragment = \<lparr>fr_in_file = 0, fr_in_module = 0, fr_segidx = 0, fr_offset = 0,
     fr_length = 0, fr_attr = zero_attr\<rparr>"

text \<open>The array after it has been made to hold one more entry; \<open>None\<close> when that fails.\<close>

definition grow_fragments :: "allocator \<Rightarrow> link_segdef \<Rightarrow> link_segdef link option" where
  "grow_fragments mal sg =
     (if ls_fragments_count sg \<ge> ls_fragments_alloc sg then
        if ls_fragments_alloc sg < MAX_SEG_FRAGMENTS then
          let nalloc = min (ls_fragments_alloc sg * 2) MAX_SEG_FRAGMENTS in
          if \<not> ls_fragments_alloc sg < nalloc then Some (Inl Assert_failed)
          else map_option (\<lambda>_. Inr (sg\<lparr>ls_fragments_alloc := nalloc\<rparr>)) (mal (Req_fragments nalloc))
        else None
      else Some (Inr sg))"

text \<open>
  \<^verbatim>\<open>alloc_link_segment_fragment\<close>: the place of the new fragment, or \<open>None\<close> for its NULL. It
  also moves \<^verbatim>\<open>fragments_read\<close> to the end.
\<close>

definition alloc_link_segment_fragment ::
    "allocator \<Rightarrow> link_segdef \<Rightarrow> (nat option \<times> link_segdef) link" where
  "alloc_link_segment_fragment mal sg =
     (let start = (if ls_fragments sg = None then
                     (let sg = sg\<lparr>ls_fragments_alloc := 16\<rparr> in
                      map_option (\<lambda>_. sg\<lparr>ls_fragments := Some []\<rparr>) (mal (Req_fragments 16)))
                   else Some sg)
      in case start of
           None \<Rightarrow> Inr (None, sg\<lparr>ls_fragments_alloc := 16\<rparr>)
         | Some sg \<Rightarrow>
             (case grow_fragments mal sg of
                None \<Rightarrow> Inr (None, sg)
              | Some r \<Rightarrow> bindL r (\<lambda>sg.
                  assertL (ls_fragments_count sg < ls_fragments_alloc sg)
                    (let k = ls_fragments_count sg in
                     Inr (Some k, sg\<lparr>
                       ls_fragments := Some (entries_of (ls_fragments sg) @ [zero_fragment\<lparr>fr_in_file := 0xFFFF\<rparr>]),
                       ls_fragments_read := k + 1\<rparr>)))))"

text \<open>The fragment that a pointer names is written in place.\<close>

definition set_fragment :: "nat \<Rightarrow> (seg_fragment \<Rightarrow> seg_fragment) \<Rightarrow> link_segdef \<Rightarrow> link_segdef" where
  "set_fragment k f sg =
     sg\<lparr>ls_fragments := map_option (\<lambda>fs. fs[k := f (fs ! k)]) (ls_fragments sg)\<rparr>"

definition fragment_at :: "nat \<Rightarrow> link_segdef \<Rightarrow> seg_fragment" where
  "fragment_at k sg = entries_of (ls_fragments sg) ! k"

text \<open>The name of a segment goes with its place in the array.\<close>

definition free_link_segment :: "link_segdef \<Rightarrow> link_segdef" where
  "free_link_segment sg = sg\<lparr>ls_groupname := None, ls_classname := None,
     ls_fragments := None, ls_fragments_alloc := 0, ls_image := None\<rparr>"

definition zero_segdef :: "cstr \<Rightarrow> link_segdef" where
  "zero_segdef name = \<lparr>ls_attr = zero_attr, ls_name = name, ls_classname = None,
     ls_groupname = None, ls_file_offset = 0, ls_linear_offset = 0, ls_segment_base = 0,
     ls_segment_offset = 0, ls_segment_length = 0, ls_segment_relative = 0,
     ls_initial_alignment = 0, ls_segment_len_count = 0, ls_load_base = 0, ls_image = None,
     ls_fragments = None, ls_fragments_alloc = 0, ls_fragments_read = 0, ls_pinned = False,
     ls_noemit = False\<rparr>"

definition omf_align_code_to_bytes :: "3 word \<Rightarrow> nat" where
  "omf_align_code_to_bytes x =
     (if x = 1 then 1 else if x = 2 then 2 else if x = 3 then 16 else if x = 4 then 4096
      else if x = 5 then 4 else 0)"

section \<open>The linker\<close>

datatype output_format = OFMT_COM | OFMT_EXE | OFMT_DOSDRV | OFMT_DOSDRVEXE

datatype link_pass = PASS_GATHER | PASS_BUILD

text \<open>Pointers to segments are places in \<open>lk_segments\<close>.\<close>

record linker =
  lk_output_format :: output_format
  lk_comrel :: bool                     \<comment> \<open>\<^verbatim>\<open>output_format_variant == OFMTVAR_COMREL\<close>\<close>
  lk_com_segbase :: u16
  lk_want_stack_size :: u32
  lk_prefer_flat :: bool
  lk_do_dosseg :: bool
  lk_dosdrv_header_symbol :: cstr
  lk_relocs :: exe_reloc_table
  lk_symbols :: link_symtab
  lk_segments :: "link_segdef list"
  lk_current :: "nat option"            \<comment> \<open>\<^verbatim>\<open>current_link_segment\<close>\<close>
  lk_entry_target :: "nat option"
  lk_entry_target_name :: "cstr option"
  lk_entry_target_fragment :: nat
  lk_entry_frame :: "nat option"
  lk_entry_frame_name :: "cstr option"
  lk_entry_frame_fragment :: nat
  lk_entry_ofs :: u64
  lk_com_entry_insert :: nat

definition find_link_segment :: "cstr \<Rightarrow> linker \<Rightarrow> nat option" where
  "find_link_segment name lk = find_index (\<lambda>sg. ls_name sg = name) (lk_segments lk)"

definition find_link_segment_by_grpdef :: "cstr \<Rightarrow> linker \<Rightarrow> nat option" where
  "find_link_segment_by_grpdef name lk =
     find_index (\<lambda>sg. ls_groupname sg = Some name) (lk_segments lk)"

definition find_link_segment_by_class :: "cstr \<Rightarrow> linker \<Rightarrow> nat option" where
  "find_link_segment_by_class name lk =
     find_index (\<lambda>sg. ls_classname sg = Some name) (lk_segments lk)"

definition find_link_segment_by_class_last :: "cstr \<Rightarrow> linker \<Rightarrow> nat option" where
  "find_link_segment_by_class_last name lk =
     fold (\<lambda>i r. if ls_classname (lk_segments lk ! i) = Some name then Some i else r)
       [0..<length (lk_segments lk)] None"

definition new_link_segment :: "cstr \<Rightarrow> linker \<Rightarrow> (nat \<times> linker) option" where
  "new_link_segment name lk =
     (if length (lk_segments lk) < MAX_SEGMENTS then
        Some (length (lk_segments lk), lk\<lparr>lk_segments := lk_segments lk @ [zero_segdef name]\<rparr>)
      else None)"

definition seg :: "nat \<Rightarrow> linker \<Rightarrow> link_segdef" where
  "seg i lk = lk_segments lk ! i"

definition upd_seg :: "nat \<Rightarrow> (link_segdef \<Rightarrow> link_segdef) \<Rightarrow> linker \<Rightarrow> linker" where
  "upd_seg i f lk = lk\<lparr>lk_segments := (lk_segments lk)[i := f (lk_segments lk ! i)]\<rparr>"

definition free_link_segments :: "linker \<Rightarrow> linker" where
  "free_link_segments lk = lk\<lparr>lk_segments := []\<rparr>"

end
