(* ===== verification/LinkStateFacts.thy ===== *)
theory LinkStateFacts
  imports LinkState
begin

text \<open>
  Facts on the linker's tables. The symbol table is an append-only list of named slots until
  it is full; a request on a full table never returns. Relocations and fragments append.
\<close>

section \<open>The symbol table\<close>

definition symbols :: "link_symtab \<Rightarrow> link_symbol list" where
  "symbols t = take (st_count t) (entries_of (st_slots t))"

definition wf_symtab :: "link_symtab \<Rightarrow> bool" where
  "wf_symtab t \<longleftrightarrow> st_nextalloc t \<le> st_count t \<and> st_count t \<le> st_alloc t \<and> st_alloc t \<le> MAX_SYMBOLS
     \<and> (\<forall>s \<in> set (symbols t). sy_name s \<noteq> None)
     \<and> (\<forall>s \<in> set (drop (st_count t) (entries_of (st_slots t))). s = zero_symbol)
     \<and> (st_slots t \<noteq> None \<longrightarrow> 0 < st_alloc t)"

definition empty_symtab :: link_symtab where
  "empty_symtab = \<lparr>st_slots = None, st_count = 0, st_nextalloc = 0\<rparr>"

lemma wf_empty_symtab: "wf_symtab empty_symtab" "symbols empty_symtab = []"
  by (simp_all add: wf_symtab_def empty_symtab_def st_alloc_def symbols_def)

lemma zero_symbol_fields [simp]:
  "sy_name zero_symbol = None" "sy_segdef zero_symbol = None" "sy_groupdef zero_symbol = None"
  "sy_is_local zero_symbol = False"
  by (simp_all add: zero_symbol_def)

lemma scan_freed_None: "wf_symtab t \<Longrightarrow> scan_slots (st_nextalloc t) (st_count t) t = None"
  by (auto simp: scan_slots_def find_index_None wf_symtab_def symbols_def drop_take
      dest!: in_set_dropD simp flip: drop_take)

lemma scan_new:
  assumes "wf_symtab t"
  shows "scan_slots (st_count t) (st_alloc t) t = (if st_count t < st_alloc t then Some (st_count t) else None)"
proof (cases "drop (st_count t) (entries_of (st_slots t))")
  case Nil
  then show ?thesis by (simp add: scan_slots_def st_alloc_def)
next
  case (Cons s ss)
  then have "s = zero_symbol"
    using assms by (auto simp: wf_symtab_def)
  moreover have "length (drop (st_count t) (entries_of (st_slots t))) = Suc (length ss)"
    using Cons by simp
  then have "st_count t < st_alloc t" and n: "st_alloc t - st_count t = Suc (length ss)"
    by (simp_all add: st_alloc_def)
  ultimately have "find_index (\<lambda>s. sy_name s = None) (take (st_alloc t - st_count t) (s # ss)) = Some 0"
    by (simp add: n)
  with Cons \<open>st_count t < st_alloc t\<close> show ?thesis
    by (simp add: scan_slots_def)
qed

lemma empty_slot_turn_eq:
  assumes "wf_symtab t"
  shows "empty_slot_turn t = (if st_count t < st_alloc t
     then (Some (st_count t), t\<lparr>st_nextalloc := st_count t, st_count := st_count t + 1\<rparr>)
     else (None, t\<lparr>st_nextalloc := st_count t, st_count := st_alloc t\<rparr>))"
proof -
  have "scan_slots a b (t\<lparr>st_nextalloc := n\<rparr>) = scan_slots a b t" "st_alloc (t\<lparr>st_nextalloc := n\<rparr>) = st_alloc t" for a b n
    by (simp_all add: scan_slots_def st_alloc_def)
  then show ?thesis
    using scan_freed_None [OF assms] scan_new [OF assms]
    by (simp add: empty_slot_turn_def Let_def)
qed

text \<open>When every slot is taken and the table has its full size, the search never ends.\<close>

definition full_symtab :: "link_symtab \<Rightarrow> bool" where
  "full_symtab t \<longleftrightarrow> wf_symtab t \<and> st_count t = MAX_SYMBOLS"

lemma full_turn:
  assumes "full_symtab t"
  shows "empty_slot_turn t = (None, t\<lparr>st_nextalloc := st_count t\<rparr>)"
    and "link_symbols_extend_double mal t = (True, t)"
    and "full_symtab (t\<lparr>st_nextalloc := st_count t\<rparr>)"
  using assms empty_slot_turn_eq [of t]
  by (auto simp: full_symtab_def wf_symtab_def link_symbols_extend_double_def st_alloc_def symbols_def)

lemma full_never_returns: "full_symtab t \<Longrightarrow> empty_slot_loop mal t = None"
proof -
  have "full_symtab t \<longrightarrow> False" if "empty_slot_loop mal t = Some r" for mal t r
  proof (rule empty_slot_loop.raw_induct [OF _ that])
    fix loop mal t and r :: "(nat option \<times> link_symtab) link"
    assume IH: "\<And>mal t r. loop mal t = Some r \<Longrightarrow> full_symtab t \<longrightarrow> False"
      and eq: "(if \<not> (st_nextalloc t \<le> st_count t \<and> st_count t \<le> st_alloc t)
          then Some (Inl Assert_failed)
          else case empty_slot_turn t of
               (None, t) \<Rightarrow> (case link_symbols_extend_double mal t of
                 (ok, t) \<Rightarrow> if ok then loop mal t else Some (Inr (None, t)))
             | (Some i, t) \<Rightarrow> Some (Inr (Some i, t))) = Some r"
    show "full_symtab t \<longrightarrow> False"
    proof
      assume full: "full_symtab t"
      let ?t = "t\<lparr>st_nextalloc := st_count t\<rparr>"
      have "st_nextalloc t \<le> st_count t \<and> st_count t \<le> st_alloc t"
        using full by (simp add: full_symtab_def wf_symtab_def)
      with eq full_turn [OF full] full_turn(2) [OF full_turn(3) [OF full], of mal]
      have "loop mal ?t = Some r" by simp
      with IH full_turn(3) [OF full] show False by blast
    qed
  qed
  then show "full_symtab t \<Longrightarrow> empty_slot_loop mal t = None"
    by (cases "empty_slot_loop mal t") auto
qed

text \<open>With room, or after growing, a new symbol goes to the end of the list of symbols.\<close>

lemma wf_symtab_grow:
  assumes "wf_symtab t" and "st_alloc t \<le> n" and "n \<le> MAX_SYMBOLS" and "0 < n" and "st_slots t = Some ss"
  shows "wf_symtab (t\<lparr>st_slots := Some (ss @ replicate (n - length ss) zero_symbol)\<rparr>)"
    and "symbols (t\<lparr>st_slots := Some (ss @ replicate (n - length ss) zero_symbol)\<rparr>) = symbols t"
  using assms by (auto simp: wf_symtab_def st_alloc_def symbols_def)

lemma extend_double_True:
  assumes "wf_symtab t" and "st_alloc t < MAX_SYMBOLS"
    and "link_symbols_extend_double mal t = (True, t')"
  shows "wf_symtab t' \<and> symbols t' = symbols t \<and> st_count t' = st_count t \<and> st_count t' < st_alloc t'"
proof -
  define n where "n = (let ns = st_alloc t * 2; ns = (if ns < 128 then 128 else ns)
    in if ns > MAX_SYMBOLS then MAX_SYMBOLS else ns)"
  have n: "st_alloc t < n" "n \<le> MAX_SYMBOLS" "0 < n"
    using assms(2) by (auto simp: n_def Let_def MAX_SYMBOLS_def)
  have e: "link_symbols_extend mal n t = (True, t')"
    using assms(2,3) by (simp add: link_symbols_extend_double_def n_def Let_def)
  show ?thesis
  proof (cases "st_slots t")
    case None
    then have "t' = t\<lparr>st_slots := Some (replicate n zero_symbol), st_nextalloc := 0, st_count := 0\<rparr>"
      using e n by (auto simp: link_symbols_extend_def split: option.splits if_splits)
    with None n assms(1) show ?thesis
      by (auto simp: wf_symtab_def st_alloc_def symbols_def)
  next
    case (Some ss)
    then have "t' = t\<lparr>st_slots := Some (ss @ replicate (n - length ss) zero_symbol)\<rparr>"
      using e n by (auto simp: link_symbols_extend_def split: option.splits if_splits)
    with wf_symtab_grow [OF assms(1) _ n(2,3) Some] n(1) assms(1) Some show ?thesis
      by (simp add: wf_symtab_def st_alloc_def)
  qed
qed

lemma wf_symtab_nextalloc:
  "wf_symtab t \<Longrightarrow> n \<le> st_count t \<Longrightarrow> wf_symtab (t\<lparr>st_nextalloc := n\<rparr>)"
  "symbols (t\<lparr>st_nextalloc := n\<rparr>) = symbols t" "st_alloc (t\<lparr>st_nextalloc := n\<rparr>) = st_alloc t"
  by (auto simp: wf_symtab_def symbols_def st_alloc_def)

text \<open>The slot handed out: the first unused one of a table with the same symbols.\<close>

definition slot_of :: "link_symtab \<Rightarrow> nat \<Rightarrow> link_symtab \<Rightarrow> bool" where
  "slot_of t i t' \<longleftrightarrow> i = st_count t \<and> st_count t' = i + 1 \<and> i < st_alloc t' \<and> st_alloc t' \<le> MAX_SYMBOLS
     \<and> st_nextalloc t' \<le> i \<and> take i (entries_of (st_slots t')) = symbols t
     \<and> (\<forall>s \<in> set (drop i (entries_of (st_slots t'))). s = zero_symbol)"

lemma turn_with_room:
  assumes "wf_symtab t" and "st_count t < st_alloc t"
  shows "\<exists>t'. empty_slot_turn t = (Some (st_count t), t') \<and> slot_of t (st_count t) t'"
proof -
  let ?t' = "t\<lparr>st_nextalloc := st_count t, st_count := st_count t + 1\<rparr>"
  have "st_alloc ?t' = st_alloc t" by (simp add: st_alloc_def)
  then have "slot_of t (st_count t) ?t'"
    using assms by (simp add: slot_of_def symbols_def wf_symtab_def)
  then show ?thesis
    using assms empty_slot_turn_eq [OF assms(1)] by auto
qed

lemma empty_slot_loop_Inr:
  assumes "wf_symtab t" and "st_count t < MAX_SYMBOLS"
  shows "\<exists>i t'. empty_slot_loop mal t = Some (Inr (i, t'))
     \<and> (\<forall>k. i = Some k \<longrightarrow> slot_of t k t')
     \<and> (malloc_never_fails mal \<longrightarrow> i \<noteq> None)"
proof (cases "st_count t < st_alloc t")
  case True
  then obtain t' where "empty_slot_turn t = (Some (st_count t), t')" "slot_of t (st_count t) t'"
    using turn_with_room [OF assms(1)] by blast
  with assms True show ?thesis
    by (subst empty_slot_loop.simps) (auto simp: wf_symtab_def)
next
  case False
  let ?t = "t\<lparr>st_nextalloc := st_count t\<rparr>"
  have c: "st_count t = st_alloc t" "st_nextalloc t \<le> st_count t"
    using False assms(1) by (auto simp: wf_symtab_def)
  have turn: "empty_slot_turn t = (None, ?t)"
    using empty_slot_turn_eq [OF assms(1)] False c by simp
  have wf: "wf_symtab ?t" "symbols ?t = symbols t" "st_alloc ?t = st_alloc t"
    using wf_symtab_nextalloc assms(1) by auto
  obtain ok t2 where d: "link_symbols_extend_double mal ?t = (ok, t2)"
    by (cases "link_symbols_extend_double mal ?t")
  show ?thesis
  proof (cases ok)
    case True
    with extend_double_True [OF wf(1), of mal t2] d wf assms(2) c
    have t2: "wf_symtab t2" "symbols t2 = symbols t" "st_count t2 = st_count t" "st_count t2 < st_alloc t2"
      by auto
    obtain t' where t': "empty_slot_turn t2 = (Some (st_count t2), t')" "slot_of t2 (st_count t2) t'"
      using turn_with_room [OF t2(1,4)] by blast
    have "empty_slot_loop mal t2 = Some (Inr (Some (st_count t2), t'))"
      using t' t2 by (subst empty_slot_loop.simps) (auto simp: wf_symtab_def)
    moreover have "slot_of t (st_count t2) t'"
      using t'(2) t2 by (simp add: slot_of_def)
    ultimately show ?thesis
      using c turn d True by (subst empty_slot_loop.simps) auto
  next
    case False
    then have "empty_slot_loop mal t = Some (Inr (None, t2))"
      using c turn d by (subst empty_slot_loop.simps) auto
    moreover have "\<not> malloc_never_fails mal"
      using d False wf(3) assms(2) c
      by (auto simp: link_symbols_extend_double_def link_symbols_extend_def malloc_never_fails_def
          Let_def MAX_SYMBOLS_def split: if_splits option.splits)
    ultimately show ?thesis by simp
  qed
qed

lemma link_symbol_empty_slot_Inr:
  assumes "wf_symtab t" and "st_count t < MAX_SYMBOLS"
  shows "\<exists>i t'. link_symbol_empty_slot mal t = Some (Inr (i, t'))
     \<and> (\<forall>k. i = Some k \<longrightarrow> slot_of t k t')
     \<and> (malloc_never_fails mal \<longrightarrow> i \<noteq> None)"
proof (cases "st_slots t")
  case None
  obtain ok t2 where d: "link_symbols_extend_double mal t = (ok, t2)"
    by (cases "link_symbols_extend_double mal t")
  have a: "st_alloc t < MAX_SYMBOLS" using None by (simp add: st_alloc_def MAX_SYMBOLS_def)
  show ?thesis
  proof (cases ok)
    case True
    with extend_double_True [OF assms(1) a] d
    have t2: "wf_symtab t2" "symbols t2 = symbols t" "st_count t2 = st_count t" by auto
    with empty_slot_loop_Inr [of t2 mal] assms(2) None d True show ?thesis
      by (auto simp: link_symbol_empty_slot_def slot_of_def)
  next
    case False
    with None d a have "\<not> malloc_never_fails mal"
      by (auto simp: link_symbols_extend_double_def link_symbols_extend_def malloc_never_fails_def
          Let_def MAX_SYMBOLS_def split: if_splits option.splits)
    with False None d show ?thesis by (simp add: link_symbol_empty_slot_def)
  qed
next
  case (Some ss)
  with empty_slot_loop_Inr [OF assms, of mal] show ?thesis
    by (simp add: link_symbol_empty_slot_def)
qed

lemma slot_of_set:
  assumes "slot_of t i t'" and "wf_symtab t" and "sy_name s \<noteq> None"
  shows "wf_symtab (set_slot i s t') \<and> symbols (set_slot i s t') = symbols t @ [s]
     \<and> get_slot i t' = zero_symbol"
proof -
  obtain ss where ss: "st_slots t' = Some ss"
    using assms(1) by (cases "st_slots t'") (auto simp: slot_of_def st_alloc_def)
  have i: "i < length ss" and rest: "\<forall>x \<in> set (drop i ss). x = zero_symbol"
      and pre: "take i ss = symbols t" and st: "st_count t' = i + 1" "st_nextalloc t' \<le> i" "length ss \<le> MAX_SYMBOLS"
    using assms(1) ss by (auto simp: slot_of_def st_alloc_def)
  have "ss ! i \<in> set (drop i ss)" using i by (simp flip: Cons_nth_drop_Suc)
  with rest have z: "ss ! i = zero_symbol" by blast
  have sy: "symbols (set_slot i s t') = symbols t @ [s]"
    using ss i st pre by (simp add: symbols_def set_slot_def take_Suc_conv_app_nth)
  have "drop (Suc i) (ss[i := s]) = drop (Suc i) ss" by simp
  moreover have "\<forall>x \<in> set (drop (Suc i) ss). x = zero_symbol"
    using rest i by (simp flip: Cons_nth_drop_Suc)
  ultimately have "\<forall>x \<in> set (drop (st_count (set_slot i s t')) (entries_of (st_slots (set_slot i s t')))). x = zero_symbol"
    using ss st(1) by (simp add: set_slot_def)
  with sy ss st i z assms(2,3) show ?thesis
    by (auto simp: wf_symtab_def st_alloc_def get_slot_def) (auto simp: set_slot_def)
qed

lemma new_link_symbol_result:
  assumes "wf_symtab t" and "st_count t < MAX_SYMBOLS"
  shows "(\<exists>t'. new_link_symbol mal name t = Inr (Some (st_count t), t') \<and> wf_symtab t'
            \<and> symbols t' = symbols t @ [zero_symbol\<lparr>sy_name := Some name, sy_in_file := 0xFFFF\<rparr>])
       \<or> (\<exists>t'. new_link_symbol mal name t = Inr (None, t') \<and> \<not> malloc_never_fails mal)"
proof -
  obtain i t1 where e: "link_symbol_empty_slot mal t = Some (Inr (i, t1))"
      "\<forall>k. i = Some k \<longrightarrow> slot_of t k t1" "malloc_never_fails mal \<longrightarrow> i \<noteq> None"
    using link_symbol_empty_slot_Inr [OF assms] by blast
  show ?thesis
  proof (cases i)
    case None
    with e show ?thesis by (simp add: new_link_symbol_def)
  next
    case (Some k)
    let ?s = "zero_symbol\<lparr>sy_name := Some name, sy_in_file := 0xFFFF\<rparr>"
    have k: "k = st_count t" using e(2) Some by (simp add: slot_of_def)
    have "wf_symtab (set_slot k ?s t1) \<and> symbols (set_slot k ?s t1) = symbols t @ [?s]
        \<and> get_slot k t1 = zero_symbol"
      using e(2) Some by (intro slot_of_set [OF _ assms(1)]) auto
    with e(1) Some k show ?thesis
      by (simp add: new_link_symbol_def assertL_def Let_def)
  qed
qed

lemma full_new_symbol:
  "full_symtab t \<Longrightarrow> new_link_symbol mal name t = Inl Never_returns"
  using full_never_returns [of t mal]
  by (auto simp: new_link_symbol_def link_symbol_empty_slot_def full_symtab_def wf_symtab_def
      st_alloc_def MAX_SYMBOLS_def)

text \<open>A lookup in a well-formed table never trips over an unnamed slot.\<close>

lemma find_symbol_in_eq:
  assumes "\<forall>s \<in> set ss. sy_name s \<noteq> None"
  shows "find_symbol_in name f m i ss
    = Inr (map_option ((+) i) (find_index (\<lambda>s. \<not> symbol_hidden f m s \<and> sy_name s = Some name) ss))"
  using assms
  by (induction ss arbitrary: i) (auto simp: assertL_def option.map_comp comp_def intro!: option.map_cong0)

lemma find_link_symbol_eq:
  assumes "wf_symtab t"
  shows "find_link_symbol name f m t
    = Inr (find_index (\<lambda>s. \<not> symbol_hidden f m s \<and> sy_name s = Some name) (symbols t))"
proof -
  have "map_option ((+) 0) x = (x :: nat option)" for x by (cases x) auto
  with assms show ?thesis
    by (simp add: find_link_symbol_def find_symbol_in_eq wf_symtab_def symbols_def)
qed

section \<open>Relocations\<close>

definition wf_relocs :: "exe_reloc_table \<Rightarrow> bool" where
  "wf_relocs t \<longleftrightarrow> (rt_entries t \<noteq> None \<longrightarrow> rt_alloc t = 4096) \<and> rt_count t \<le> 4096"

lemma new_exe_relocation_Some:
  assumes "new_exe_relocation mal r t = Some t'" and "wf_relocs t"
  shows "entries_of (rt_entries t') = entries_of (rt_entries t) @ [r] \<and> wf_relocs t'
     \<and> rt_count t < 4096"
  using assms
  by (auto simp: new_exe_relocation_def alloc_exe_relocations_def wf_relocs_def rt_count_def Let_def
      split: if_splits option.splits)

section \<open>Fragments\<close>

definition wf_fragments :: "link_segdef \<Rightarrow> bool" where
  "wf_fragments sg \<longleftrightarrow> (ls_fragments sg \<noteq> None \<longrightarrow> 16 \<le> ls_fragments_alloc sg \<and> ls_fragments_alloc sg \<le> MAX_SEG_FRAGMENTS
     \<and> ls_fragments_count sg \<le> ls_fragments_alloc sg)"

text \<open>The assertions on the growing array never fail, and a new fragment is appended.\<close>

lemma alloc_fragment_result:
  assumes "wf_fragments sg"
  shows "(\<exists>sg'. alloc_link_segment_fragment mal sg = Inr (Some (ls_fragments_count sg), sg') \<and> wf_fragments sg'
     \<and> entries_of (ls_fragments sg') = entries_of (ls_fragments sg) @ [zero_fragment\<lparr>fr_in_file := 0xFFFF\<rparr>]
     \<and> (\<exists>a. sg' = sg\<lparr>ls_fragments_alloc := a, ls_fragments := ls_fragments sg',
           ls_fragments_read := ls_fragments_count sg + 1\<rparr>))
   \<or> (\<exists>sg'. alloc_link_segment_fragment mal sg = Inr (None, sg')
        \<and> (malloc_never_fails mal \<longrightarrow> ls_fragments_count sg = MAX_SEG_FRAGMENTS))"
proof (cases "ls_fragments sg")
  case None
  show ?thesis
  proof (cases "mal (Req_fragments 16)")
    case None2: None
    then have "\<not> malloc_never_fails mal"
      unfolding malloc_never_fails_def by blast
    with None None2 show ?thesis
      by (simp add: alloc_link_segment_fragment_def Let_def)
  next
    case (Some x)
    with None show ?thesis
      by (simp add: alloc_link_segment_fragment_def grow_fragments_def Let_def ls_fragments_count_def
          assertL_def wf_fragments_def MAX_SEG_FRAGMENTS_def)
        (rule exI [of _ 16], simp)
  qed
next
  case (Some fs)
  have a: "16 \<le> ls_fragments_alloc sg" "ls_fragments_alloc sg \<le> MAX_SEG_FRAGMENTS"
      "length fs \<le> ls_fragments_alloc sg"
    using assms Some by (auto simp: wf_fragments_def ls_fragments_count_def)
  show ?thesis
  proof (cases "grow_fragments mal sg")
    case None
    have "mal (Req_fragments n) \<noteq> None" if "malloc_never_fails mal" for n
      using that unfolding malloc_never_fails_def by blast
    moreover have "ls_fragments_count sg = MAX_SEG_FRAGMENTS \<or> (\<exists>n. mal (Req_fragments n) = None)"
      using None a Some by (auto simp: grow_fragments_def Let_def ls_fragments_count_def split: if_splits)
    ultimately have "malloc_never_fails mal \<Longrightarrow> ls_fragments_count sg = MAX_SEG_FRAGMENTS"
      by blast
    with None Some show ?thesis by (simp add: alloc_link_segment_fragment_def)
  next
    case (Some r)
    have "\<exists>n. r = Inr (sg\<lparr>ls_fragments_alloc := n\<rparr>) \<and> length fs < n \<and> 16 \<le> n \<and> n \<le> MAX_SEG_FRAGMENTS"
    proof (cases "length fs < ls_fragments_alloc sg")
      case True
      with Some \<open>ls_fragments sg = Some fs\<close> a show ?thesis
        by (intro exI [of _ "ls_fragments_alloc sg"]) (auto simp: grow_fragments_def ls_fragments_count_def)
    next
      case False
      with Some \<open>ls_fragments sg = Some fs\<close> a show ?thesis
        by (intro exI [of _ "min (ls_fragments_alloc sg * 2) MAX_SEG_FRAGMENTS"])
          (auto simp: grow_fragments_def ls_fragments_count_def Let_def MAX_SEG_FRAGMENTS_def min_def split: if_splits)
    qed
    then obtain n where "r = Inr (sg\<lparr>ls_fragments_alloc := n\<rparr>)" "length fs < n" "16 \<le> n" "n \<le> MAX_SEG_FRAGMENTS"
      by blast
    with Some \<open>ls_fragments sg = Some fs\<close> show ?thesis
      by (simp add: alloc_link_segment_fragment_def ls_fragments_count_def assertL_def wf_fragments_def Let_def)
        (rule exI [of _ n], simp)
  qed
qed

end
