(* ===== verification/LinkSort.thy ===== *)
theory LinkSort
  imports LinkState "HOL-Library.Multiset" "HOL-Library.List_Lexorder"
begin

text \<open>
  The order of the segments in the image (\<^verbatim>\<open>link_segments_sort\<close> and its callers in
  \<^verbatim>\<open>lnkdos16.c\<close>): the default order by group and class, Open Watcom's DOSSEG order, and the
  move of the STACK and BSS segments to the end.
\<close>

section \<open>Criteria\<close>

definition in_dgroup :: "link_segdef \<Rightarrow> bool" where
  "in_dgroup a \<longleftrightarrow> ls_groupname a = Some (bytes_of ''DGROUP'')"

definition has_class :: "string \<Rightarrow> link_segdef \<Rightarrow> bool" where
  "has_class c a \<longleftrightarrow> ls_classname a = Some (bytes_of c)"

definition sort_cmp_not_dgroup_class_code :: "link_segdef \<Rightarrow> int" where
  "sort_cmp_not_dgroup_class_code a = (if \<not> in_dgroup a \<and> has_class ''CODE'' a then -1 else 0)"

definition sort_cmp_not_dgroup :: "link_segdef \<Rightarrow> int" where
  "sort_cmp_not_dgroup a = (if \<not> in_dgroup a then -1 else 0)"

definition sort_cmp_dgroup_class_BEGDATA :: "link_segdef \<Rightarrow> int" where
  "sort_cmp_dgroup_class_BEGDATA a = (if in_dgroup a \<and> has_class ''BEGDATA'' a then -1 else 0)"

definition sort_cmp_dgroup_class_not_special :: "link_segdef \<Rightarrow> int" where
  "sort_cmp_dgroup_class_not_special a =
     (if in_dgroup a \<and> ls_classname a \<noteq> None
         \<and> \<not> (has_class ''BEGDATA'' a \<or> has_class ''BSS'' a \<or> has_class ''STACK'' a) then -1 else 0)"

definition sort_cmp_dgroup_class_bss :: "link_segdef \<Rightarrow> int" where
  "sort_cmp_dgroup_class_bss a = (if in_dgroup a \<and> has_class ''BSS'' a then -1 else 0)"

definition sort_cmp_dgroup_class_stack :: "link_segdef \<Rightarrow> int" where
  "sort_cmp_dgroup_class_stack a = (if in_dgroup a \<and> has_class ''STACK'' a then -1 else 0)"

definition sort_cmpf_class_bss :: "link_segdef \<Rightarrow> int" where
  "sort_cmpf_class_bss a = (if has_class ''BSS'' a then 1 else 0)"

definition sort_cmpf_class_stack :: "link_segdef \<Rightarrow> int" where
  "sort_cmpf_class_stack a = (if has_class ''STACK'' a then 1 else 0)"

section \<open>The moving sort\<close>

definition link_segments_swap :: "nat \<Rightarrow> nat \<Rightarrow> 'a list \<Rightarrow> 'a list" where
  "link_segments_swap s1 s2 xs = (if s1 \<noteq> s2 then xs[s1 := xs ! s2, s2 := xs ! s1] else xs)"

text \<open>The inner loops: an entry moves down to \<open>start\<close>, or up to \<open>end\<close>.\<close>

fun move_down :: "nat \<Rightarrow> nat \<Rightarrow> 'a list \<Rightarrow> 'a list" where
  "move_down start i xs =
     (if i > start then move_down start (i - 1) (link_segments_swap (i - 1) i xs) else xs)"

function move_up :: "nat \<Rightarrow> nat \<Rightarrow> 'a list \<Rightarrow> 'a list" where
  "move_up e i xs =
     (if i < e then move_up e (i + 1) (link_segments_swap i (i + 1) xs) else xs)"
  by pat_completeness auto
termination by (relation "measure (\<lambda>(e, i, xs). e - i)") auto

declare move_down.simps [simp del] move_up.simps [simp del]

text \<open>
  The outer loop. \<^verbatim>\<open>*end\<close> is unsigned: moved below 0 it wraps to the largest value, and the
  loop goes on outside the array; that run is \<open>None\<close>.
\<close>

function sort_loop :: "('a \<Rightarrow> int) \<Rightarrow> nat \<Rightarrow> nat \<Rightarrow> nat \<Rightarrow> 'a list \<Rightarrow> (nat \<times> nat \<times> 'a list) option" where
  "sort_loop cmp i start e xs =
     (if i \<le> e then
        let r = cmp (xs ! i) in
        if r < 0 then
          sort_loop cmp ((if i > start then start else i) + 1) (start + 1) e (move_down start i xs)
        else if r > 0 then
          (if e = 0 then None
           else sort_loop cmp ((if i < e then e else i) - 1) start (e - 1) (move_up e i xs))
        else sort_loop cmp (i + 1) start e xs
      else Some (start, e, xs))"
  by pat_completeness auto
termination
  by (relation "measures [\<lambda>(cmp, i, s, e, xs). e + (e + 1 - s), \<lambda>(cmp, i, s, e, xs). e + 1 - i]") auto

declare sort_loop.simps [simp del]

text \<open>The entry segments are found again by name; finding none is a failed assertion.\<close>

definition reconnect_gl_segs :: "linker \<Rightarrow> linker link" where
  "reconnect_gl_segs lk =
     bindL (case lk_entry_target_name lk of
              None \<Rightarrow> Inr lk
            | Some n \<Rightarrow> someL Assert_failed (find_link_segment n lk)
                (\<lambda>i. Inr (lk\<lparr>lk_entry_target := Some i\<rparr>)))
       (\<lambda>lk. case lk_entry_frame_name lk of
              None \<Rightarrow> Inr lk
            | Some n \<Rightarrow> someL Assert_failed (find_link_segment n lk)
                (\<lambda>i. Inr (lk\<lparr>lk_entry_frame := Some i\<rparr>)))"

definition link_segments_sort ::
    "(link_segdef \<Rightarrow> int) \<Rightarrow> nat \<times> nat \<times> linker \<Rightarrow> (nat \<times> nat \<times> linker) link" where
  "link_segments_sort cmp = (\<lambda>(s, e, lk).
     someL Undefined (sort_loop cmp s s e (lk_segments lk))
       (\<lambda>(s, e, segs). bindL (reconnect_gl_segs (lk\<lparr>lk_segments := segs\<rparr>))
          (\<lambda>lk. Inr (s, e, lk))))"

definition owlink_dosseg_sort_order :: "linker \<Rightarrow> linker link" where
  "owlink_dosseg_sort_order lk =
     (if lk_segments lk = [] then Inr lk
      else bindL (foldL link_segments_sort
             [sort_cmp_not_dgroup_class_code, sort_cmp_not_dgroup, sort_cmp_dgroup_class_BEGDATA,
              sort_cmp_dgroup_class_not_special, sort_cmp_dgroup_class_bss, sort_cmp_dgroup_class_stack]
             (0, length (lk_segments lk) - 1, lk))
           (\<lambda>(s, e, lk). Inr lk))"

definition owlink_stack_bss_arrange :: "linker \<Rightarrow> linker link" where
  "owlink_stack_bss_arrange lk =
     (if lk_segments lk = [] then Inr lk
      else bindL (foldL link_segments_sort [sort_cmpf_class_stack, sort_cmpf_class_bss]
             (0, length (lk_segments lk) - 1, lk))
           (\<lambda>(s, e, lk). Inr lk))"

section \<open>The default order\<close>

text \<open>The sign of \<^verbatim>\<open>strcmp\<close>, which compares bytes as unsigned.\<close>

fun strcmp :: "cstr \<Rightarrow> cstr \<Rightarrow> int" where
  "strcmp [] [] = 0"
| "strcmp [] (b # bs) = -1"
| "strcmp (a # as) [] = 1"
| "strcmp (a # as) (b # bs) = (if a < b then -1 else if b < a then 1 else strcmp as bs)"

definition owlink_segsrt_def_qsort_cmp :: "link_segdef \<Rightarrow> link_segdef \<Rightarrow> int" where
  "owlink_segsrt_def_qsort_cmp sa sb =
     (if ls_pinned sa \<or> ls_pinned sb then 0
      else
        let gna = entries_of (ls_groupname sa); gnb = entries_of (ls_groupname sb);
            cna = entries_of (ls_classname sa); cnb = entries_of (ls_classname sb);
            ret = strcmp gna gnb
        in if ret = 0 then strcmp cna cnb else ret)"

text \<open>
  \<^verbatim>\<open>qsort\<close> of the C library is a parameter: the C standard leaves the order of equal elements
  open. What the code relies on is \<open>qsort_ok\<close>.
\<close>

type_synonym 'a qsort = "('a \<Rightarrow> 'a \<Rightarrow> int) \<Rightarrow> 'a list \<Rightarrow> 'a list"

definition consistent_cmp :: "('a \<Rightarrow> 'a \<Rightarrow> int) \<Rightarrow> 'a set \<Rightarrow> bool" where
  "consistent_cmp cmp A \<longleftrightarrow>
     (\<forall>a \<in> A. \<forall>b \<in> A. cmp a b \<le> 0 \<or> cmp b a \<le> 0)
   \<and> (\<forall>a \<in> A. \<forall>b \<in> A. \<forall>c \<in> A. cmp a b \<le> 0 \<longrightarrow> cmp b c \<le> 0 \<longrightarrow> cmp a c \<le> 0)"

definition qsort_ok :: "'a qsort \<Rightarrow> bool" where
  "qsort_ok qs \<longleftrightarrow> (\<forall>cmp xs. mset (qs cmp xs) = mset xs
     \<and> (consistent_cmp cmp (set xs) \<longrightarrow> sorted_wrt (\<lambda>a b. cmp a b \<le> 0) (qs cmp xs)))"

definition owlink_default_sort_seg :: "link_segdef qsort \<Rightarrow> linker \<Rightarrow> linker link" where
  "owlink_default_sort_seg qs lk =
     reconnect_gl_segs (lk\<lparr>lk_segments := qs owlink_segsrt_def_qsort_cmp (lk_segments lk)\<rparr>)"

text \<open>A concrete \<^verbatim>\<open>qsort\<close>, for evaluation: insertion.\<close>

fun insert_cmp :: "('a \<Rightarrow> 'a \<Rightarrow> int) \<Rightarrow> 'a \<Rightarrow> 'a list \<Rightarrow> 'a list" where
  "insert_cmp cmp x [] = [x]"
| "insert_cmp cmp x (y # ys) = (if cmp x y \<le> 0 then x # y # ys else y # insert_cmp cmp x ys)"

definition insertion_qsort :: "'a qsort" where
  "insertion_qsort cmp xs = foldr (insert_cmp cmp) xs []"

lemma mset_insert_cmp [simp]: "mset (insert_cmp cmp x ys) = add_mset x (mset ys)"
  by (induction ys) auto

lemma set_insert_cmp [simp]: "set (insert_cmp cmp x ys) = insert x (set ys)"
  by (induction ys) auto

lemma consistent_cmp_subset: "consistent_cmp cmp B \<Longrightarrow> A \<subseteq> B \<Longrightarrow> consistent_cmp cmp A"
  unfolding consistent_cmp_def by (meson subsetD)

lemma consistent_cmpD:
  assumes "consistent_cmp cmp A" and "a \<in> A" and "b \<in> A"
  shows "cmp a b \<le> 0 \<or> cmp b a \<le> 0"
    and "c \<in> A \<Longrightarrow> cmp a b \<le> 0 \<Longrightarrow> cmp b c \<le> 0 \<Longrightarrow> cmp a c \<le> 0"
  using assms unfolding consistent_cmp_def by blast+

lemma sorted_insert_cmp:
  assumes "sorted_wrt (\<lambda>a b. cmp a b \<le> 0) ys" and "consistent_cmp cmp (insert x (set ys))"
  shows "sorted_wrt (\<lambda>a b. cmp a b \<le> 0) (insert_cmp cmp x ys)"
  using assms
proof (induction ys)
  case (Cons y ys)
  have c: "consistent_cmp cmp (insert x (set ys))"
    by (rule consistent_cmp_subset [OF Cons.prems(2)]) auto
  show ?case
  proof (cases "cmp x y \<le> 0")
    case True
    have "cmp x z \<le> 0" if "z \<in> set ys" for z
      using consistent_cmpD(2) [OF Cons.prems(2), of x y z] True that Cons.prems(1) by simp
    with True Cons.prems(1) show ?thesis by simp
  next
    case False
    then have "cmp y x \<le> 0"
      using consistent_cmpD(1) [OF Cons.prems(2), of x y] by simp
    with False Cons.IH Cons.prems(1) c show ?thesis by simp
  qed
qed simp

lemma insertion_qsort_mset: "mset (insertion_qsort cmp xs) = mset xs"
  by (induction xs) (simp_all add: insertion_qsort_def)

lemma qsort_ok_insertion [simp]: "qsort_ok insertion_qsort"
proof -
  have "sorted_wrt (\<lambda>a b. cmp a b \<le> 0) (insertion_qsort cmp xs)"
    if "consistent_cmp cmp (set xs)" for cmp :: "'a \<Rightarrow> 'a \<Rightarrow> int" and xs
    using that
  proof (induction xs)
    case Nil
    then show ?case by (simp add: insertion_qsort_def)
  next
    case (Cons x xs)
    have "consistent_cmp cmp (set xs)"
      by (rule consistent_cmp_subset [OF Cons.prems]) auto
    moreover have "set (insertion_qsort cmp xs) = set xs"
      using insertion_qsort_mset [of cmp xs] by (rule mset_eq_setD)
    ultimately show ?case
      using Cons sorted_insert_cmp [of cmp "insertion_qsort cmp xs" x]
      by (simp add: insertion_qsort_def)
  qed
  then show ?thesis
    by (simp add: qsort_ok_def insertion_qsort_mset)
qed

end
