(* ===== verification/LinkSortFacts.thy ===== *)
theory LinkSortFacts
  imports LinkSort
begin

text \<open>
  What the orders of \<open>LinkSort\<close> amount to. Moving the matching entries to the front is a stable
  partition, so the DOSSEG order is the concatenation of the segments by rank. Moving entries to
  the end takes the first matching entry only, together with those that stand at the end already.
  Every order is a permutation.
\<close>

section \<open>Moving one entry\<close>

lemma swap_adjacent:
  "link_segments_swap (length A) (Suc (length A)) (A @ y # x # R) = A @ x # y # R"
  by (simp add: link_segments_swap_def nth_append list_update_append)

lemma move_down_eq: "move_down (length A) (length A + length N) (A @ N @ x # R) = A @ x # N @ R"
proof (induction N arbitrary: R rule: rev_induct)
  case Nil
  then show ?case by (simp add: move_down.simps)
next
  case (snoc y N)
  have "move_down (length A) (length A + length (N @ [y])) (A @ (N @ [y]) @ x # R)
      = move_down (length A) (length A + length N)
          (link_segments_swap (length (A @ N)) (Suc (length (A @ N))) ((A @ N) @ y # x # R))"
    by (subst move_down.simps) simp
  also have "\<dots> = A @ x # N @ y # R"
    using snoc.IH [of "y # R"] swap_adjacent [of "A @ N" y x R] by simp
  finally show ?case by simp
qed

lemma move_up_eq: "move_up (length A + length M) (length A) (A @ x # M @ R) = A @ M @ x # R"
proof (induction M arbitrary: A)
  case Nil
  then show ?case by (simp add: move_up.simps)
next
  case (Cons y M)
  have "move_up (length A + length (y # M)) (length A) (A @ x # (y # M) @ R)
      = move_up (length (A @ [y]) + length M) (length (A @ [y]))
          (link_segments_swap (length A) (Suc (length A)) (A @ x # y # M @ R))"
    by (subst move_up.simps) simp
  also have "\<dots> = A @ y # M @ x # R"
    using Cons.IH [of "A @ [y]"] by (simp add: swap_adjacent)
  finally show ?case by simp
qed

section \<open>Moving to the front\<close>

definition front_cmp :: "('a \<Rightarrow> bool) \<Rightarrow> ('a \<Rightarrow> int) \<Rightarrow> bool" where
  "front_cmp P cmp \<longleftrightarrow> (\<forall>x. cmp x = (if P x then - 1 else 0))"

lemma sort_loop_skip:
  assumes "\<forall>x \<in> set N. cmp x = 0" and "length A + length N \<le> Suc e"
  shows "sort_loop cmp (length A) s e (A @ N @ R) = sort_loop cmp (length A + length N) s e (A @ N @ R)"
  using assms
proof (induction N arbitrary: A)
  case (Cons x N)
  then have "sort_loop cmp (length A) s e (A @ (x # N) @ R)
      = sort_loop cmp (length (A @ [x])) s e ((A @ [x]) @ N @ R)"
    by (subst sort_loop.simps) (simp add: nth_append)
  also have "\<dots> = sort_loop cmp (length (A @ [x]) + length N) s e ((A @ [x]) @ N @ R)"
    using Cons.prems by (intro Cons.IH) auto
  finally show ?case by simp
qed simp

lemma sort_loop_front:
  assumes "front_cmp P cmp" and "\<forall>x \<in> set N. \<not> P x"
    and "Suc e = length A + length N + length R"
  shows "sort_loop cmp (length A + length N) (length A) e (A @ N @ R @ D)
    = Some (length A + length (filter P R), e, A @ filter P R @ N @ filter (\<lambda>x. \<not> P x) R @ D)"
  using assms
proof (induction R arbitrary: A N)
  case Nil
  then show ?case by (simp add: sort_loop.simps)
next
  case (Cons x R)
  show ?case
  proof (cases "P x")
    case True
    have "sort_loop cmp (length A + length N) (length A) e (A @ N @ (x # R) @ D)
        = sort_loop cmp (length (A @ [x])) (length (A @ [x])) e ((A @ [x]) @ N @ R @ D)"
      using Cons.prems True move_down_eq [of A N x "R @ D"]
      by (subst sort_loop.simps) (simp add: front_cmp_def nth_append Let_def)
    also have "\<dots> = sort_loop cmp (length (A @ [x]) + length N) (length (A @ [x])) e ((A @ [x]) @ N @ R @ D)"
      using Cons.prems by (intro sort_loop_skip) (auto simp: front_cmp_def)
    also have "\<dots> = Some (length (A @ [x]) + length (filter P R), e,
        (A @ [x]) @ filter P R @ N @ filter (\<lambda>x. \<not> P x) R @ D)"
      using Cons.prems by (intro Cons.IH) auto
    finally show ?thesis using True by simp
  next
    case False
    have "sort_loop cmp (length A + length N) (length A) e (A @ N @ (x # R) @ D)
        = sort_loop cmp (length A + length (N @ [x])) (length A) e (A @ (N @ [x]) @ R @ D)"
      using Cons.prems False
      by (subst sort_loop.simps) (simp add: front_cmp_def nth_append Let_def)
    also have "\<dots> = Some (length A + length (filter P R), e,
        A @ filter P R @ (N @ [x]) @ filter (\<lambda>x. \<not> P x) R @ D)"
      using Cons.prems False by (intro Cons.IH) auto
    finally show ?thesis using False by simp
  qed
qed

section \<open>Moving to the end\<close>

definition back_cmp :: "('a \<Rightarrow> bool) \<Rightarrow> ('a \<Rightarrow> int) \<Rightarrow> bool" where
  "back_cmp P cmp \<longleftrightarrow> (\<forall>x. cmp x = (if P x then 1 else 0))"

lemma sort_loop_trailing:
  assumes "back_cmp P cmp" and "\<forall>x \<in> set T. P x" and "B \<noteq> [] \<Longrightarrow> \<not> P (last B)" and "B \<noteq> []"
  shows "sort_loop cmp (length B + length T - 1) s (length B + length T - 1) (B @ T @ D)
    = Some (s, length B - 1, B @ T @ D)"
  using assms
proof (induction T arbitrary: D rule: rev_induct)
  case Nil
  then have "(B @ D) ! (length B - 1) = last B"
    by (simp add: nth_append last_conv_nth)
  moreover have "sort_loop cmp (Suc (length B - 1)) s (length B - 1) (B @ D) = Some (s, length B - 1, B @ D)"
    by (subst sort_loop.simps) simp
  ultimately show ?case
    using Nil by (subst sort_loop.simps) (simp add: back_cmp_def Let_def)
next
  case (snoc x T)
  have n: "(B @ T @ [x] @ D) ! (length B + length T) = x"
    by (simp add: nth_append)
  have "sort_loop cmp (length B + length (T @ [x]) - 1) s (length B + length (T @ [x]) - 1) (B @ (T @ [x]) @ D)
      = sort_loop cmp (length B + length T - 1) s (length B + length T - 1) (B @ T @ ([x] @ D))"
    using snoc.prems n
    by (subst sort_loop.simps) (simp add: back_cmp_def Let_def move_up.simps)
  also have "\<dots> = Some (s, length B - 1, B @ T @ ([x] @ D))"
    using snoc.prems by (intro snoc.IH) auto
  finally show ?case by simp
qed

text \<open>
  The first matching entry moves to the end; those of the block \<open>T\<close> that ends the list stay
  where they are; matching entries inside \<open>M\<close> are not looked at.
\<close>

lemma sort_loop_back:
  assumes "back_cmp P cmp" and "\<forall>y \<in> set N. \<not> P y" and "P x" and "\<forall>y \<in> set T. P y"
    and "M \<noteq> [] \<Longrightarrow> \<not> P (last M)" and "N @ M \<noteq> []"
  shows "sort_loop cmp 0 s (length (N @ x # M @ T) - 1) (N @ x # M @ T)
    = Some (s, length (N @ M) - 1, N @ M @ T @ [x])"
proof -
  let ?e = "length (N @ x # M @ T) - 1"
  have e: "?e \<noteq> 0" "?e = length N + length (M @ T)" and n: "(N @ x # M @ T) ! length N = x"
    using assms(6) by auto
  have "sort_loop cmp 0 s ?e (N @ x # M @ T) = sort_loop cmp (length N) s ?e (N @ x # M @ T)"
    using sort_loop_skip [of N cmp "[]" ?e s "x # M @ T"] assms(1,2) by (auto simp: back_cmp_def)
  also have "\<dots> = sort_loop cmp (length (N @ M) + length T - 1) s (length (N @ M) + length T - 1)
      ((N @ M) @ T @ [x])"
    using assms(1,3,6) e n move_up_eq [of N "M @ T" x "[]"]
    by (auto simp: sort_loop.simps [of cmp "length N"] back_cmp_def Let_def add.assoc)
  also have "\<dots> = Some (s, length (N @ M) - 1, (N @ M) @ T @ [x])"
    using assms by (intro sort_loop_trailing) (auto simp: last_append split: if_splits)
  finally show ?thesis by simp
qed

lemma sort_loop_none:
  assumes "back_cmp P cmp" and "\<forall>y \<in> set xs. \<not> P y" and "xs \<noteq> []"
  shows "sort_loop cmp 0 s (length xs - 1) xs = Some (s, length xs - 1, xs)"
proof -
  have "sort_loop cmp 0 s (length xs - 1) xs = sort_loop cmp (length xs) s (length xs - 1) xs"
    using sort_loop_skip [of xs cmp "[]" "length xs - 1" s "[]"] assms by (auto simp: back_cmp_def)
  also have "\<dots> = Some (s, length xs - 1, xs)"
    using assms(3) by (subst sort_loop.simps) (cases xs, auto)
  finally show ?thesis .
qed

section \<open>Permutations\<close>

lemma mset_segments_swap:
  "s1 < length xs \<Longrightarrow> s2 < length xs \<Longrightarrow> mset (link_segments_swap s1 s2 xs) = mset xs"
  by (simp add: link_segments_swap_def mset_swap)

lemma length_swap [simp]: "length (link_segments_swap s1 s2 xs) = length xs"
  by (simp add: link_segments_swap_def)

lemma mset_move_down: "i < length xs \<Longrightarrow> mset (move_down s i xs) = mset xs"
proof (induction s i xs rule: move_down.induct)
  case (1 s i xs)
  then show ?case by (simp add: mset_segments_swap move_down.simps [of s i xs])
qed

lemma mset_move_up: "e < length xs \<Longrightarrow> mset (move_up e i xs) = mset xs"
proof (induction e i xs rule: move_up.induct)
  case (1 e i xs)
  then show ?case by (simp add: mset_segments_swap move_up.simps [of e i xs])
qed

lemma sort_loop_cases:
  assumes "sort_loop cmp i s e xs = Some (s', e', ys)"
  obtains "e < i" "s' = s" "e' = e" "ys = xs"
  | "i \<le> e" "cmp (xs ! i) < 0"
      "sort_loop cmp ((if i > s then s else i) + 1) (s + 1) e (move_down s i xs) = Some (s', e', ys)"
  | "i \<le> e" "cmp (xs ! i) > 0" "e \<noteq> 0"
      "sort_loop cmp ((if i < e then e else i) - 1) s (e - 1) (move_up e i xs) = Some (s', e', ys)"
  | "i \<le> e" "\<not> cmp (xs ! i) < 0" "\<not> cmp (xs ! i) > 0" "sort_loop cmp (i + 1) s e xs = Some (s', e', ys)"
  using assms that
  by (simp add: sort_loop.simps [of cmp i s e xs] Let_def not_le split: if_splits)

lemma mset_sort_loop:
  assumes "sort_loop cmp i s e xs = Some (s', e', ys)" and "e < length xs"
  shows "mset ys = mset xs \<and> e' < length ys"
  using assms
proof (induction cmp i s e xs arbitrary: ys rule: sort_loop.induct)
  case (1 cmp i s e xs)
  note prem = "1.prems"
  from prem(1) show ?case
  proof (cases rule: sort_loop_cases)
    case 1
    with prem(2) show ?thesis by simp
  next
    case 2
    then have m: "mset (move_down s i xs) = mset xs"
      using prem(2) by (intro mset_move_down) simp
    then have "e < length (move_down s i xs)" using prem(2) by (metis size_mset)
    from "1.IH"(1) [OF 2(1) refl 2(2,3) this] m show ?thesis by simp
  next
    case 3
    have m: "mset (move_up e i xs) = mset xs"
      using prem(2) by (intro mset_move_up)
    then have "e - 1 < length (move_up e i xs)" using prem(2) by (metis size_mset less_imp_diff_less)
    with "1.IH"(2) [OF 3(1) refl _ 3(2,3,4)] 3(2) m show ?thesis by simp
  next
    case 4
    with "1.IH"(3) [OF 4(1) refl] prem(2) show ?thesis by simp
  qed
qed

section \<open>The entry segments are found again\<close>

definition entry_known :: "linker \<Rightarrow> bool" where
  "entry_known lk \<longleftrightarrow>
     (\<forall>n. lk_entry_target_name lk = Some n \<longrightarrow> n \<in> ls_name ` set (lk_segments lk))
   \<and> (\<forall>n. lk_entry_frame_name lk = Some n \<longrightarrow> n \<in> ls_name ` set (lk_segments lk))"

lemma find_link_segment_known:
  "n \<in> ls_name ` set (lk_segments lk) \<Longrightarrow> \<exists>i. find_link_segment n lk = Some i"
  using find_index_None [of "\<lambda>sg. ls_name sg = n" "lk_segments lk"]
  by (cases "find_link_segment n lk") (auto simp: find_link_segment_def)

lemma find_link_segment_upd [simp]:
  "find_link_segment n (lk\<lparr>lk_entry_target := t\<rparr>) = find_link_segment n lk"
  "find_link_segment n (lk\<lparr>lk_entry_frame := t\<rparr>) = find_link_segment n lk"
  by (simp_all add: find_link_segment_def)

lemma reconnect_known:
  assumes "entry_known lk"
  shows "\<exists>t f. reconnect_gl_segs lk = Inr (lk\<lparr>lk_entry_target := t, lk_entry_frame := f\<rparr>)"
proof -
  have "\<exists>t. (case lk_entry_target_name lk of None \<Rightarrow> Inr lk
      | Some n \<Rightarrow> someL Assert_failed (find_link_segment n lk) (\<lambda>i. Inr (lk\<lparr>lk_entry_target := Some i\<rparr>)))
      = Inr (lk\<lparr>lk_entry_target := t\<rparr>)"
  proof (cases "lk_entry_target_name lk")
    case None
    then show ?thesis by (intro exI [of _ "lk_entry_target lk"]) simp
  next
    case (Some n)
    with assms obtain i where "find_link_segment n lk = Some i"
      using find_link_segment_known [of n lk] by (auto simp: entry_known_def)
    with Some show ?thesis by (intro exI [of _ "Some i"]) simp
  qed
  then obtain t where t: "(case lk_entry_target_name lk of None \<Rightarrow> Inr lk
      | Some n \<Rightarrow> someL Assert_failed (find_link_segment n lk) (\<lambda>i. Inr (lk\<lparr>lk_entry_target := Some i\<rparr>)))
      = Inr (lk\<lparr>lk_entry_target := t\<rparr>)" by blast
  show ?thesis
  proof (cases "lk_entry_frame_name lk")
    case None
    with t show ?thesis
      by (intro exI [of _ t] exI [of _ "lk_entry_frame lk"]) (simp add: reconnect_gl_segs_def)
  next
    case (Some n)
    with assms obtain i where "find_link_segment n lk = Some i"
      using find_link_segment_known [of n lk] by (auto simp: entry_known_def)
    with t Some show ?thesis
      by (intro exI [of _ t] exI [of _ "Some i"]) (simp add: reconnect_gl_segs_def)
  qed
qed

section \<open>The DOSSEG order\<close>

fun partition_by :: "('a \<Rightarrow> bool) list \<Rightarrow> 'a list \<Rightarrow> 'a list" where
  "partition_by [] xs = xs"
| "partition_by (P # Ps) xs = filter P xs @ partition_by Ps (filter (\<lambda>x. \<not> P x) xs)"

lemma set_partition_by [simp]: "set (partition_by Ps xs) = set xs"
  by (induction Ps xs rule: partition_by.induct) auto

lemma entry_known_segments:
  "entry_known lk \<Longrightarrow> set segs = set (lk_segments lk) \<Longrightarrow> entry_known (lk\<lparr>lk_segments := segs\<rparr>)"
  by (simp add: entry_known_def)

lemma link_segments_sort_front:
  assumes "front_cmp P cmp" and "lk_segments lk = A @ R" and "Suc e = length (A @ R)" and "entry_known lk"
  shows "\<exists>t f. link_segments_sort cmp (length A, e, lk) = Inr (length (A @ filter P R), e,
    lk\<lparr>lk_segments := (A @ filter P R) @ filter (\<lambda>x. \<not> P x) R, lk_entry_target := t, lk_entry_frame := f\<rparr>)"
proof -
  let ?segs = "(A @ filter P R) @ filter (\<lambda>x. \<not> P x) R"
  have "entry_known (lk\<lparr>lk_segments := ?segs\<rparr>)"
    using assms(2,4) by (intro entry_known_segments) auto
  then obtain t f where "reconnect_gl_segs (lk\<lparr>lk_segments := ?segs\<rparr>)
      = Inr ((lk\<lparr>lk_segments := ?segs\<rparr>)\<lparr>lk_entry_target := t, lk_entry_frame := f\<rparr>)"
    using reconnect_known by blast
  moreover have "sort_loop cmp (length A) (length A) e (lk_segments lk)
      = Some (length (A @ filter P R), e, ?segs)"
    using sort_loop_front [OF assms(1), of "[]" e A R "[]"] assms(2,3) by simp
  ultimately have "link_segments_sort cmp (length A, e, lk) = Inr (length (A @ filter P R), e,
      lk\<lparr>lk_segments := ?segs, lk_entry_target := t, lk_entry_frame := f\<rparr>)"
    by (simp add: link_segments_sort_def)
  then show ?thesis by blast
qed

lemma foldL_link_segments_sort:
  assumes "list_all2 front_cmp Ps cmps" and "lk_segments lk = A @ R" and "Suc e = length (A @ R)"
    and "entry_known lk"
  shows "\<exists>s t f. foldL link_segments_sort cmps (length A, e, lk) = Inr (s, e,
    lk\<lparr>lk_segments := A @ partition_by Ps R, lk_entry_target := t, lk_entry_frame := f\<rparr>)"
  using assms
proof (induction Ps cmps arbitrary: lk A R rule: list_all2_induct)
  case Nil
  then show ?case
    by (intro exI [of _ "length A"] exI [of _ "lk_entry_target lk"] exI [of _ "lk_entry_frame lk"]) simp
next
  case (Cons P Ps cmp cmps)
  let ?A = "A @ filter P R" and ?R = "filter (\<lambda>x. \<not> P x) R"
  obtain t f where 1: "link_segments_sort cmp (length A, e, lk) = Inr (length ?A, e,
      lk\<lparr>lk_segments := ?A @ ?R, lk_entry_target := t, lk_entry_frame := f\<rparr>)" (is "_ = Inr (_, _, ?lk)")
    using link_segments_sort_front [OF Cons.hyps(1) Cons.prems] by blast
  have "length ?A + length ?R = length A + length R"
    by (simp add: sum_length_filter_compl)
  then have e: "Suc e = length (?A @ ?R)" using Cons.prems(2) by simp
  have "entry_known ?lk"
    using Cons.prems(1,3) entry_known_segments [of lk "?A @ ?R"] by (auto simp: entry_known_def)
  then obtain s t' f' where "foldL link_segments_sort cmps (length ?A, e, ?lk) = Inr (s, e,
      ?lk\<lparr>lk_segments := ?A @ partition_by Ps ?R, lk_entry_target := t', lk_entry_frame := f'\<rparr>)"
    using Cons.IH [of ?lk ?A ?R] e by auto
  with 1 show ?case by auto
qed

text \<open>The rank of a segment in the order that the comment before the criteria lays down.\<close>

definition dosseg_rank :: "link_segdef \<Rightarrow> nat" where
  "dosseg_rank sd =
     (if \<not> in_dgroup sd then (if has_class ''CODE'' sd then 0 else 1)
      else if has_class ''BEGDATA'' sd then 2
      else if has_class ''BSS'' sd then 4
      else if has_class ''STACK'' sd then 5
      else if ls_classname sd \<noteq> None then 3 else 6)"

definition dosseg_criteria :: "(link_segdef \<Rightarrow> bool) list" where
  "dosseg_criteria =
     [\<lambda>a. \<not> in_dgroup a \<and> has_class ''CODE'' a,
      \<lambda>a. \<not> in_dgroup a,
      \<lambda>a. in_dgroup a \<and> has_class ''BEGDATA'' a,
      \<lambda>a. in_dgroup a \<and> ls_classname a \<noteq> None
         \<and> \<not> (has_class ''BEGDATA'' a \<or> has_class ''BSS'' a \<or> has_class ''STACK'' a),
      \<lambda>a. in_dgroup a \<and> has_class ''BSS'' a,
      \<lambda>a. in_dgroup a \<and> has_class ''STACK'' a]"

definition by_rank :: "link_segdef list \<Rightarrow> link_segdef list" where
  "by_rank segs = concat (map (\<lambda>r. filter (\<lambda>sd. dosseg_rank sd = r) segs) [0, 1, 2, 3, 4, 5, 6])"

lemma class_exclusive:
  "has_class ''BSS'' a \<Longrightarrow> \<not> has_class ''BEGDATA'' a" "has_class ''STACK'' a \<Longrightarrow> \<not> has_class ''BEGDATA'' a"
  "has_class ''STACK'' a \<Longrightarrow> \<not> has_class ''BSS'' a" "has_class c a \<Longrightarrow> ls_classname a \<noteq> None"
  by (auto simp: has_class_def bytes_of_def)

lemma partition_by_criteria: "partition_by dosseg_criteria segs = by_rank segs"
proof -
  have "partition_by dosseg_criteria segs =
      filter (\<lambda>a. dosseg_rank a = 0) segs @ filter (\<lambda>a. dosseg_rank a = 1) segs
      @ filter (\<lambda>a. dosseg_rank a = 2) segs @ filter (\<lambda>a. dosseg_rank a = 3) segs
      @ filter (\<lambda>a. dosseg_rank a = 4) segs @ filter (\<lambda>a. dosseg_rank a = 5) segs
      @ filter (\<lambda>a. dosseg_rank a = 6) segs"
    unfolding dosseg_criteria_def partition_by.simps filter_filter
    by (intro arg_cong2 [where f = append] filter_cong refl)
      (auto simp: dosseg_rank_def dest: class_exclusive)
  then show ?thesis
    by (simp add: by_rank_def)
qed

lemma dosseg_criteria_cmp:
  "list_all2 front_cmp dosseg_criteria
     [sort_cmp_not_dgroup_class_code, sort_cmp_not_dgroup, sort_cmp_dgroup_class_BEGDATA,
      sort_cmp_dgroup_class_not_special, sort_cmp_dgroup_class_bss, sort_cmp_dgroup_class_stack]"
  by (simp add: dosseg_criteria_def front_cmp_def sort_cmp_not_dgroup_class_code_def
      sort_cmp_not_dgroup_def sort_cmp_dgroup_class_BEGDATA_def sort_cmp_dgroup_class_not_special_def
      sort_cmp_dgroup_class_bss_def sort_cmp_dgroup_class_stack_def)

lemma dosseg_order_by_rank:
  assumes "entry_known lk"
  shows "\<exists>t f. owlink_dosseg_sort_order lk = Inr (lk\<lparr>lk_segments := by_rank (lk_segments lk),
    lk_entry_target := t, lk_entry_frame := f\<rparr>)"
proof (cases "lk_segments lk = []")
  case True
  then show ?thesis
    by (intro exI [of _ "lk_entry_target lk"] exI [of _ "lk_entry_frame lk"])
      (simp add: owlink_dosseg_sort_order_def by_rank_def)
next
  case False
  then obtain s t f where "foldL link_segments_sort
      [sort_cmp_not_dgroup_class_code, sort_cmp_not_dgroup, sort_cmp_dgroup_class_BEGDATA,
       sort_cmp_dgroup_class_not_special, sort_cmp_dgroup_class_bss, sort_cmp_dgroup_class_stack]
      (0, length (lk_segments lk) - 1, lk) = Inr (s, length (lk_segments lk) - 1,
        lk\<lparr>lk_segments := by_rank (lk_segments lk), lk_entry_target := t, lk_entry_frame := f\<rparr>)"
    using foldL_link_segments_sort [OF dosseg_criteria_cmp, of lk "[]" "lk_segments lk"
        "length (lk_segments lk) - 1"] assms
    by (auto simp: partition_by_criteria)
  with False show ?thesis
    by (auto simp: owlink_dosseg_sort_order_def simp del: foldL.simps)
qed

section \<open>The default order\<close>

lemma strcmp_props:
  "strcmp a b \<le> 0 \<longleftrightarrow> a \<le> b" "strcmp a b = 0 \<longleftrightarrow> a = b"
proof (induction a b rule: strcmp.induct)
  case (4 a as b bs)
  { case 1 with 4 show ?case by auto next case 2 with 4 show ?case by auto }
qed auto

text \<open>The key that the default order sorts by: group name, then class name.\<close>

definition segment_key :: "link_segdef \<Rightarrow> cstr \<times> cstr" where
  "segment_key sd = (entries_of (ls_groupname sd), entries_of (ls_classname sd))"

definition key_le :: "cstr \<times> cstr \<Rightarrow> cstr \<times> cstr \<Rightarrow> bool" where
  "key_le a b \<longleftrightarrow> fst a < fst b \<or> (fst a = fst b \<and> snd a \<le> snd b)"

lemma def_qsort_cmp_key:
  assumes "\<not> ls_pinned a" and "\<not> ls_pinned b"
  shows "owlink_segsrt_def_qsort_cmp a b \<le> 0 \<longleftrightarrow> key_le (segment_key a) (segment_key b)"
  using assms strcmp_props [of "entries_of (ls_groupname a)" "entries_of (ls_groupname b)"]
    strcmp_props [of "entries_of (ls_classname a)" "entries_of (ls_classname b)"]
  by (auto simp: owlink_segsrt_def_qsort_cmp_def Let_def key_le_def segment_key_def less_le)

lemma consistent_def_qsort_cmp:
  assumes "\<forall>a \<in> A. \<not> ls_pinned a"
  shows "consistent_cmp owlink_segsrt_def_qsort_cmp A"
  unfolding consistent_cmp_def
proof (intro conjI ballI impI)
  fix a b assume "a \<in> A" "b \<in> A"
  then show "owlink_segsrt_def_qsort_cmp a b \<le> 0 \<or> owlink_segsrt_def_qsort_cmp b a \<le> 0"
    using assms by (auto simp: def_qsort_cmp_key key_le_def)
next
  fix a b c assume "a \<in> A" "b \<in> A" "c \<in> A"
    and "owlink_segsrt_def_qsort_cmp a b \<le> 0" "owlink_segsrt_def_qsort_cmp b c \<le> 0"
  then show "owlink_segsrt_def_qsort_cmp a c \<le> 0"
    using assms by (auto simp: def_qsort_cmp_key key_le_def)
qed

lemma default_order_sorted:
  assumes "qsort_ok qs" and "entry_known lk" and "\<forall>sd \<in> set (lk_segments lk). \<not> ls_pinned sd"
  shows "\<exists>lk'. owlink_default_sort_seg qs lk = Inr lk' \<and> mset (lk_segments lk') = mset (lk_segments lk)
    \<and> sorted_wrt (\<lambda>a b. key_le (segment_key a) (segment_key b)) (lk_segments lk')"
proof -
  let ?segs = "qs owlink_segsrt_def_qsort_cmp (lk_segments lk)"
  have m: "mset ?segs = mset (lk_segments lk)"
    and s: "sorted_wrt (\<lambda>a b. owlink_segsrt_def_qsort_cmp a b \<le> 0) ?segs"
    using assms(1) consistent_def_qsort_cmp [OF assms(3)] by (auto simp: qsort_ok_def)
  have set: "set ?segs = set (lk_segments lk)" using m by (rule mset_eq_setD)
  then obtain t f where "owlink_default_sort_seg qs lk
      = Inr (lk\<lparr>lk_segments := ?segs, lk_entry_target := t, lk_entry_frame := f\<rparr>)"
    using reconnect_known [of "lk\<lparr>lk_segments := ?segs\<rparr>"] entry_known_segments [OF assms(2)]
    by (auto simp: owlink_default_sort_seg_def)
  moreover have "sorted_wrt (\<lambda>a b. key_le (segment_key a) (segment_key b)) ?segs"
    using s by (rule sorted_wrt_mono_rel [rotated]) (use assms(3) set def_qsort_cmp_key in auto)
  ultimately show ?thesis using m by auto
qed

end
