(* ===== verification/LinkGather.thy ===== *)
theory LinkGather
  imports LinkState OmfParse
begin

text \<open>
  What the linker takes from the OMF records of a module: \<^verbatim>\<open>segdef_add\<close>, \<^verbatim>\<open>grpdef_add\<close>,
  \<^verbatim>\<open>pubdef_add\<close> and \<^verbatim>\<open>ledata_add\<close> of \<^verbatim>\<open>lnkdos16.c\<close>. \<open>Returns n\<close> is their nonzero return value.
\<close>

section \<open>Bytes of a segment image\<close>

definition put_bytes :: "nat \<Rightarrow> u8 list \<Rightarrow> u8 list \<Rightarrow> u8 list" where
  "put_bytes p bs img = take p img @ bs @ drop (p + length bs) img"

definition get16 :: "u8 list \<Rightarrow> nat \<Rightarrow> u16" where
  "get16 img p = le16 (img ! p) (img ! (p + 1))"

definition get32 :: "u8 list \<Rightarrow> nat \<Rightarrow> u32" where
  "get32 img p = le32 (img ! p) (img ! (p + 1)) (img ! (p + 2)) (img ! (p + 3))"

text \<open>A store of \<open>n\<close> bytes through a pointer into an image; outside of it the outcome is undefined.\<close>

definition poke :: "nat \<Rightarrow> nat \<Rightarrow> nat \<Rightarrow> (u8 list \<Rightarrow> u8 list) \<Rightarrow> linker \<Rightarrow> linker link" where
  "poke k p n bytes lk =
     (case ls_image (seg k lk) of
        None \<Rightarrow> Inl Undefined
      | Some img \<Rightarrow> definedL (p + n \<le> length img)
          (Inr (upd_seg k (\<lambda>sg. sg\<lparr>ls_image := Some (put_bytes p (bytes img) img)\<rparr>) lk)))"

definition put16 :: "nat \<Rightarrow> nat \<Rightarrow> u16 \<Rightarrow> linker \<Rightarrow> linker link" where
  "put16 k p v = poke k p 2 (\<lambda>_. bytes16 v)"

definition add16 :: "nat \<Rightarrow> nat \<Rightarrow> u16 \<Rightarrow> linker \<Rightarrow> linker link" where
  "add16 k p v = poke k p 2 (\<lambda>img. bytes16 (get16 img p + v))"

definition add32 :: "nat \<Rightarrow> nat \<Rightarrow> u32 \<Rightarrow> linker \<Rightarrow> linker link" where
  "add32 k p v = poke k p 4 (\<lambda>img. bytes32 (get32 img p + v))"

section \<open>SEGDEF\<close>

text \<open>
  The building pass walks the fragments again, in the order in which the gathering pass made
  them. \<open>first\<close> is the number of the SEGDEF, counted from 1.
\<close>

definition segdef_build_one :: "nat \<Rightarrow> nat \<Rightarrow> cstr \<Rightarrow> omf_segdef_t \<Rightarrow> nat \<Rightarrow> linker \<Rightarrow> linker link" where
  "segdef_build_one in_file in_module name sg first lk =
     someL (Returns (- 1)) (find_link_segment name lk) (\<lambda>k.
       let lsg = seg k lk in
       if ls_fragments lsg = None \<or> ls_fragments_count lsg = 0 then Inr lk
       else assertL (ls_fragments_read lsg < ls_fragments_count lsg)
         (let f = fragment_at (ls_fragments_read lsg) lsg in
          assertL (unat (fr_in_file f) = in_file \<and> unat (fr_in_module f) = in_module
              \<and> fr_length f = ucast (segment_length sg) \<and> unat (fr_segidx f) = first)
            (Inr (upd_seg k (\<lambda>s. s\<lparr>ls_fragments_read := ls_fragments_read s + 1,
                                   ls_load_base := fr_offset f\<rparr>) lk))))"

text \<open>The segment of a SEGDEF: an existing one whose attributes agree, or a new one.\<close>

definition segdef_segment :: "cstr \<Rightarrow> cstr \<Rightarrow> omf_segdef_t \<Rightarrow> linker \<Rightarrow> (nat \<times> linker) link" where
  "segdef_segment classname name sg lk =
     (case find_link_segment name lk of
        Some k \<Rightarrow>
          let lk = upd_seg k (\<lambda>s. s\<lparr>ls_attr := set_attr_alignment (attr_alignment (attr sg)) (ls_attr s)\<rparr>) lk in
          if attr_combination (ls_attr (seg k lk)) \<noteq> attr_combination (attr sg)
             \<or> attr_big_segment (ls_attr (seg k lk)) \<noteq> attr_big_segment (attr sg) then Inl (Returns (- 1))
          else Inr (k, lk)
      | None \<Rightarrow>
          someL (Returns (- 1)) (new_link_segment name lk) (\<lambda>(k, lk).
            Inr (k, upd_seg k (\<lambda>s. s\<lparr>ls_classname := Some classname, ls_attr := attr sg,
              ls_initial_alignment := of_nat (omf_align_code_to_bytes (attr_alignment (attr sg)))\<rparr>) lk)))"

text \<open>The place of the fragment; the remainder by an alignment of 0 has no defined value.\<close>

definition align_up :: "u64 \<Rightarrow> u64 \<Rightarrow> u64" where
  "align_up a ofs = (let m = ofs mod a in if m \<noteq> 0 then ofs + (a - m) else ofs)"

definition segdef_place :: "omf_segdef_t \<Rightarrow> link_segdef \<Rightarrow> link_segdef link" where
  "segdef_place sg lsg =
     (let alignb = (of_nat (omf_align_code_to_bytes (attr_alignment (ls_attr lsg))) :: u64) in
      definedL (alignb \<noteq> 0)
        (let base = align_up alignb (ls_segment_len_count lsg); len = base + ucast (segment_length sg) in
         Inr (lsg\<lparr>ls_load_base := base, ls_segment_len_count := len, ls_segment_length := len\<rparr>)))"

definition segdef_gather_one ::
    "allocator \<Rightarrow> nat \<Rightarrow> nat \<Rightarrow> cstr \<Rightarrow> cstr \<Rightarrow> omf_segdef_t \<Rightarrow> nat \<Rightarrow> linker \<Rightarrow> linker link" where
  "segdef_gather_one mal in_file in_module classname name sg first lk =
     bindL (segdef_segment classname name sg lk) (\<lambda>(k, lk).
     bindL (segdef_place sg (seg k lk)) (\<lambda>lsg.
     bindL (alloc_link_segment_fragment mal lsg) (\<lambda>(f, lsg).
       someL (Returns (- 1)) f (\<lambda>j.
         Inr (upd_seg k (\<lambda>_. set_fragment j (\<lambda>f. f\<lparr>fr_in_file := of_nat in_file,
            fr_in_module := of_nat in_module, fr_offset := ls_load_base lsg,
            fr_length := ucast (segment_length sg), fr_segidx := of_nat first,
            fr_attr := attr sg\<rparr>) lsg) lk)))))"

definition segdef_add_one ::
    "allocator \<Rightarrow> omf_context_t \<Rightarrow> nat \<Rightarrow> nat \<Rightarrow> link_pass \<Rightarrow> nat \<Rightarrow> linker \<Rightarrow> linker link" where
  "segdef_add_one mal ctx in_file in_module pass i lk =
     (let sg = entries_of (omf_SEGDEFS (SEGDEFs ctx)) ! i;
          classname = omf_lnames_context_get_name_safe (LNAMEs ctx) (unat (class_name_index sg));
          name = omf_lnames_context_get_name_safe (LNAMEs ctx) (unat (segment_name_index sg))
      in if name = [] then Inr lk
         else (case pass of
             PASS_BUILD \<Rightarrow> segdef_build_one in_file in_module name sg (i + 1) lk
           | PASS_GATHER \<Rightarrow> segdef_gather_one mal in_file in_module classname name sg (i + 1) lk))"

definition segdef_add ::
    "allocator \<Rightarrow> omf_context_t \<Rightarrow> nat \<Rightarrow> nat \<Rightarrow> nat \<Rightarrow> link_pass \<Rightarrow> linker \<Rightarrow> linker link" where
  "segdef_add mal ctx first in_file in_module pass =
     foldL (segdef_add_one mal ctx in_file in_module pass) [first..<omf_SEGDEFS_count (SEGDEFs ctx)]"

section \<open>GRPDEF\<close>

definition grpdef_add_member :: "omf_context_t \<Rightarrow> cstr \<Rightarrow> omf_grpdef_t \<Rightarrow> nat \<Rightarrow> linker \<Rightarrow> linker link" where
  "grpdef_add_member ctx grpdef_name gd i lk =
     (case omf_grpdefs_context_get_grpdef_segdef (GRPDEFs ctx) gd i of
        Inl e \<Rightarrow> definedL (e \<noteq> UNDEF) (Inr lk)
      | Inr segdef \<Rightarrow>
          (case omf_segdefs_context_get_segdef (SEGDEFs ctx) (unat segdef) of
             Inl _ \<Rightarrow> Inl (Returns 1)
           | Inr sg \<Rightarrow>
               let segdef_name = omf_lnames_context_get_name_safe (LNAMEs ctx) (unat (segment_name_index sg)) in
               if segdef_name = [] then Inl (Returns 1)
               else someL (Returns 1) (find_link_segment segdef_name lk) (\<lambda>k.
                 if ls_groupname (seg k lk) = None then
                   Inr (upd_seg k (\<lambda>s. s\<lparr>ls_groupname := Some grpdef_name\<rparr>) lk)
                 else if ls_groupname (seg k lk) = Some grpdef_name then Inr lk
                 else Inl (Returns 1))))"

definition grpdef_add_one :: "omf_context_t \<Rightarrow> nat \<Rightarrow> linker \<Rightarrow> linker link" where
  "grpdef_add_one ctx g lk =
     (let gd = entries_of (omf_GRPDEFS (GRPDEFs ctx)) ! g;
          grpdef_name = omf_lnames_context_get_name_safe (LNAMEs ctx) (unat (group_name_index gd))
      in if grpdef_name = [] then Inr lk
         else foldL (grpdef_add_member ctx grpdef_name gd) [0..<gd_count gd] lk)"

definition grpdef_add :: "omf_context_t \<Rightarrow> nat \<Rightarrow> linker \<Rightarrow> linker link" where
  "grpdef_add ctx first = foldL (grpdef_add_one ctx) [first..<omf_GRPDEFS_count (GRPDEFs ctx)]"

section \<open>PUBDEF\<close>

text \<open>Flat formats allow no symbol in the stack.\<close>

definition stack_symbol_refused :: "output_format \<Rightarrow> cstr \<Rightarrow> link_segdef \<Rightarrow> bool" where
  "stack_symbol_refused fmt segname lsg \<longleftrightarrow>
     \<not> (fmt = OFMT_EXE \<or> fmt = OFMT_DOSDRVEXE)
     \<and> (same_nocase segname (bytes_of ''_STACK'') \<or> same_nocase segname (bytes_of ''STACK'')
        \<or> (case ls_classname lsg of Some c \<Rightarrow> same_nocase c (bytes_of ''STACK'') | None \<Rightarrow> False))"

definition pubdef_add_symbol ::
    "allocator \<Rightarrow> cstr \<Rightarrow> cstr \<Rightarrow> cstr \<Rightarrow> omf_pubdef_t \<Rightarrow> bool \<Rightarrow> nat \<Rightarrow> nat \<Rightarrow> link_pass \<Rightarrow> nat \<Rightarrow> linker
     \<Rightarrow> linker link" where
  "pubdef_add_symbol mal name segname groupname pubdef is_local in_file in_module pass k lk =
     bindL (find_link_symbol name (int in_file) (int in_module) (lk_symbols lk)) (\<lambda>found.
       if found \<noteq> None then Inl (Returns (- 1))
       else bindL (new_link_symbol mal name (lk_symbols lk)) (\<lambda>(sym, t).
         someL (Returns (- 1)) sym (\<lambda>j.
           let s = get_slot j t; lsg = seg k lk in
           assertL (sy_groupdef s = None \<and> sy_segdef s = None \<and> pass = PASS_GATHER
               \<and> ls_fragments lsg \<noteq> None \<and> ls_fragments_count lsg \<noteq> 0)
             (Inr (lk\<lparr>lk_symbols := set_slot j (s\<lparr>sy_fragment := of_nat (ls_fragments_count lsg - 1),
                sy_offset := public_offset pubdef, sy_groupdef := Some groupname,
                sy_segdef := Some segname, sy_in_file := of_nat in_file,
                sy_in_module := of_nat in_module, sy_is_local := is_local\<rparr>) t\<rparr>)))))"

definition pubdef_add_one ::
    "allocator \<Rightarrow> omf_context_t \<Rightarrow> bool \<Rightarrow> nat \<Rightarrow> nat \<Rightarrow> link_pass \<Rightarrow> nat \<Rightarrow> linker \<Rightarrow> linker link" where
  "pubdef_add_one mal ctx is_local in_file in_module pass i lk =
     (let pubdef = entries_of (omf_PUBDEFS (PUBDEFs ctx)) ! i in
      case pd_name_string pubdef of
        None \<Rightarrow> Inr lk
      | Some name \<Rightarrow>
          let segname = omf_context_get_segdef_name_safe ctx (unat (pd_segment_index pubdef)) in
          if segname = [] then Inr lk
          else
            let groupname = omf_context_get_grpdef_name_safe ctx (unat (pd_group_index pubdef)) in
            someL (Returns (- 1)) (find_link_segment segname lk) (\<lambda>k.
              if stack_symbol_refused (lk_output_format lk) segname (seg k lk) then Inl (Returns 1)
              else pubdef_add_symbol mal name segname groupname pubdef is_local in_file in_module pass k lk))"

definition pubdef_add ::
    "allocator \<Rightarrow> omf_context_t \<Rightarrow> nat \<Rightarrow> u8 \<Rightarrow> nat \<Rightarrow> nat \<Rightarrow> link_pass \<Rightarrow> linker \<Rightarrow> linker link" where
  "pubdef_add mal ctx first tag in_file in_module pass =
     foldL (pubdef_add_one mal ctx (tag = 0xB6 \<or> tag = 0xB7) in_file in_module pass)
       [first..<omf_PUBDEFS_count (PUBDEFs ctx)]"

section \<open>LEDATA\<close>

definition ledata_add :: "omf_context_t \<Rightarrow> omf_ledata_info_t \<Rightarrow> link_pass \<Rightarrow> linker \<Rightarrow> linker link" where
  "ledata_add ctx info pass lk =
     (let segname = omf_context_get_segdef_name_safe ctx (unat (segment_index info)) in
      if segname = [] then Inl (Returns 1)
      else someL (Returns 1) (find_link_segment segname lk) (\<lambda>k.
        let lsg = seg k lk in
        if ls_noemit lsg then Inr lk
        else
          let lk = lk\<lparr>lk_current := Some k\<rparr> in
          if data_length info = 0 then Inr lk
          else if ls_fragments lsg = None \<or> ls_fragments_count lsg = 0 then Inl (Returns 1)
          else assertL (0 < ls_fragments_read lsg \<and> ls_fragments_read lsg \<le> ls_fragments_count lsg)
            (let frag = fragment_at (ls_fragments_read lsg - 1) lsg;
                 len = (of_nat (data_length info) :: u64);
                 max_ofs = enum_data_offset info + len + fr_offset frag
             in if ls_segment_length lsg < max_ofs then Inl (Returns 1)
                else if pass = PASS_BUILD then
                  assertL (le_data info \<noteq> None \<and> max_ofs \<ge> len \<and> ls_image lsg \<noteq> None)
                    (poke k (unat (max_ofs - len)) (data_length info) (\<lambda>_. entries_of (le_data info)) lk)
                else Inr lk)))"

end
