(* ===== verification/LinkFixup.thy ===== *)
theory LinkFixup
  imports LinkGather
begin

text \<open>
  Fixups: \<^verbatim>\<open>fixupp_get\<close> and \<^verbatim>\<open>apply_FIXUPP\<close> of \<^verbatim>\<open>lnkdos16.c\<close>. The gathering pass records
  which places need a relocation; the building pass patches the segment images.
\<close>

section \<open>Frames and targets\<close>

text \<open>
  The relative segment, the offset and the linker segment of a frame or target datum.
  \<^verbatim>\<open>~0UL\<close> and no segment for a method that is not handled.
\<close>

definition segment_address :: "nat \<Rightarrow> linker \<Rightarrow> u64 \<times> u64 \<times> nat option" where
  "segment_address k lk = (ls_segment_relative (seg k lk), ls_segment_offset (seg k lk), Some k)"

definition symbol_address :: "link_symbol \<Rightarrow> linker \<Rightarrow> (u64 \<times> u64 \<times> nat option) link" where
  "symbol_address sy lk =
     (case sy_segdef sy of
        None \<Rightarrow> Inl Assert_failed
      | Some segdef \<Rightarrow>
          someL (Returns (- 1)) (find_link_segment segdef lk) (\<lambda>k.
            let lsg = seg k lk in
            assertL (ls_fragments lsg \<noteq> None \<and> ls_fragments_count lsg \<le> ls_fragments_alloc lsg
                \<and> unat (sy_fragment sy) < ls_fragments_count lsg)
              (Inr (ls_segment_relative lsg,
                 sy_offset sy + ls_segment_offset lsg + fr_offset (fragment_at (unat (sy_fragment sy)) lsg),
                 Some k))))"

definition fixupp_get ::
    "omf_context_t \<Rightarrow> 3 word \<Rightarrow> nat \<Rightarrow> nat \<Rightarrow> nat \<Rightarrow> linker \<Rightarrow> (u64 \<times> u64 \<times> nat option) link" where
  "fixupp_get ctx method index in_file in_module lk =
     (if method = 0 then
        let segname = omf_context_get_segdef_name_safe ctx index in
        if segname = [] then Inl (Returns (- 1))
        else someL (Returns (- 1)) (find_link_segment segname lk) (\<lambda>k. Inr (segment_address k lk))
      else if method = 1 then
        let segname = omf_context_get_grpdef_name_safe ctx index in
        if segname = [] then Inl (Returns (- 1))
        else someL (Returns (- 1)) (find_link_segment_by_grpdef segname lk) (\<lambda>k. Inr (segment_address k lk))
      else if method = 2 then
        let defname = omf_context_get_extdef_name_safe ctx index in
        if defname = [] then Inl (Returns (- 1))
        else bindL (find_link_symbol defname (int in_file) (int in_module) (lk_symbols lk)) (\<lambda>found.
          someL (Returns (- 1)) found (\<lambda>j. symbol_address (get_slot j (lk_symbols lk)) lk))
      else Inr (- 1, - 1, None))"

text \<open>
  The offset and the segment to patch in; \<open>None\<close> when the fixup is skipped: frame or target
  unknown, or in different segments.
\<close>

definition fixup_resolve ::
    "omf_context_t \<Rightarrow> omf_fixupp_t \<Rightarrow> nat \<Rightarrow> nat \<Rightarrow> linker \<Rightarrow> (u64 \<times> nat) option link" where
  "fixup_resolve ctx ent in_file in_module lk =
     bindL (fixupp_get ctx (frame_method ent) (unat (frame_index ent)) in_file in_module lk) (\<lambda>frame.
     bindL (fixupp_get ctx (target_method ent) (unat (target_index ent)) in_file in_module lk) (\<lambda>targ.
       let (frame_seg, frame_ofs, frame_sdef) = (if frame_method ent = 5 then targ else frame);
           (targ_seg, targ_ofs, targ_sdef) = targ
       in if frame_seg = - 1 \<or> frame_ofs = - 1 \<or> frame_sdef = None then Inr None
          else if targ_seg = - 1 \<or> targ_ofs = - 1 \<or> targ_sdef = None then Inr None
          else if targ_seg \<noteq> frame_seg then Inr None
          else Inr (Some (targ_ofs, the targ_sdef))))"

section \<open>The place of a fixup\<close>

text \<open>
  The segment that holds the fixup; its current fragment must be the one of the module. It
  becomes \<^verbatim>\<open>current_link_segment\<close>.
\<close>

definition current_fragment :: "nat \<Rightarrow> linker \<Rightarrow> seg_fragment" where
  "current_fragment k lk = fragment_at (ls_fragments_read (seg k lk) - 1) (seg k lk)"

definition fixup_segment ::
    "omf_context_t \<Rightarrow> omf_fixupp_t \<Rightarrow> nat \<Rightarrow> nat \<Rightarrow> linker \<Rightarrow> (nat \<times> linker) link" where
  "fixup_segment ctx ent in_file in_module lk =
     (case omf_segdefs_context_get_segdef (SEGDEFs ctx) (unat (fixup_segdef_index ent)) of
        Inl _ \<Rightarrow> Inl (Returns 1)
      | Inr cur_segdef \<Rightarrow>
          let name = omf_lnames_context_get_name_safe (LNAMEs ctx) (unat (segment_name_index cur_segdef)) in
          if name = [] then Inl (Returns 1)
          else someL (Returns 1) (find_link_segment name lk) (\<lambda>k.
            assertL (0 < ls_fragments_read (seg k lk)
                \<and> ls_fragments_read (seg k lk) \<le> ls_fragments_count (seg k lk)
                \<and> unat (fr_in_file (current_fragment k lk)) = in_file
                \<and> unat (fr_in_module (current_fragment k lk)) = in_module)
              (Inr (k, lk\<lparr>lk_current := Some k\<rparr>))))"

text \<open>The offset of the fixup in the image, inside the segment.\<close>

definition fixup_ptch :: "omf_fixupp_t \<Rightarrow> nat \<Rightarrow> linker \<Rightarrow> u64 link" where
  "fixup_ptch ent k lk =
     (let ptch = omf_rec_file_enoffs ent + ucast (data_record_offset ent) + fr_offset (current_fragment k lk) in
      assertL (ls_image (seg k lk) \<noteq> None \<and> ptch < ls_segment_length (seg k lk)) (Inr ptch))"

definition fits_segment :: "nat \<Rightarrow> u64 \<Rightarrow> nat \<Rightarrow> linker \<Rightarrow> bool" where
  "fits_segment n ptch k lk \<longleftrightarrow> unat ptch + n \<le> unat (ls_segment_length (seg k lk))"

section \<open>The kinds of fixups\<close>

text \<open>A relocation for the word at an offset from the fixup, in the gathering pass.\<close>

definition fixup_relocation :: "allocator \<Rightarrow> omf_fixupp_t \<Rightarrow> u64 \<Rightarrow> nat \<Rightarrow> linker \<Rightarrow> linker link" where
  "fixup_relocation mal ent ofs k lk =
     someL (Returns (- 1))
       (new_exe_relocation mal \<lparr>rl_segname = ls_name (seg k lk),
          rl_fragment = ls_fragments_read (seg k lk) - 1,
          rl_offset = omf_rec_file_enoffs ent + ucast (data_record_offset ent) + ofs\<rparr> (lk_relocs lk))
       (\<lambda>t. assertL (0 < ls_fragments_read (seg k lk)) (Inr (lk\<lparr>lk_relocs := t\<rparr>)))"

text \<open>An offset, 2 or 4 bytes wide; a self-relative one counts from the end of the field.\<close>

definition self_relative :: "omf_fixupp_t \<Rightarrow> u64 \<Rightarrow> u64 \<Rightarrow> u64 \<Rightarrow> nat \<Rightarrow> nat \<Rightarrow> linker \<Rightarrow> u64 link" where
  "self_relative ent width final_ofs ptch k targ lk =
     (if \<not> segment_relative ent then
        if ls_segment_relative (seg k lk) \<noteq> ls_segment_relative (seg targ lk) then Inl (Returns (- 1))
        else Inr (final_ofs - (ptch + width + ls_segment_offset (seg k lk)))
      else Inr final_ofs)"

definition fixup_16ofs :: "omf_fixupp_t \<Rightarrow> u64 \<Rightarrow> u64 \<Rightarrow> nat \<Rightarrow> nat \<Rightarrow> linker \<Rightarrow> linker link" where
  "fixup_16ofs ent final_ofs ptch targ k lk =
     assertL (fits_segment 2 ptch k lk)
       (bindL (self_relative ent 2 final_ofs ptch k targ lk) (\<lambda>v. add16 k (unat ptch) (ucast v) lk))"

text \<open>The 32-bit offset too adds only the low 16 bits of the value.\<close>

definition fixup_32ofs :: "omf_fixupp_t \<Rightarrow> u64 \<Rightarrow> u64 \<Rightarrow> nat \<Rightarrow> nat \<Rightarrow> linker \<Rightarrow> linker link" where
  "fixup_32ofs ent final_ofs ptch targ k lk =
     assertL (fits_segment 4 ptch k lk)
       (bindL (self_relative ent 4 final_ofs ptch k targ lk)
         (\<lambda>v. add32 k (unat ptch) (ucast (ucast v :: u16)) lk))"

text \<open>Whether a segment base can be recorded as a relocation: in a plain flat image it cannot.\<close>

definition segment_fixups_allowed :: "linker \<Rightarrow> bool" where
  "segment_fixups_allowed lk \<longleftrightarrow>
     (if lk_output_format lk = OFMT_COM \<or> lk_output_format lk = OFMT_DOSDRV then lk_comrel lk else True)"

text \<open>A segment base: \<open>built\<close> is the offset, the place and the target of the building pass.\<close>

definition fixup_16seg ::
    "allocator \<Rightarrow> omf_fixupp_t \<Rightarrow> (u64 \<times> u64 \<times> nat) option \<Rightarrow> nat \<Rightarrow> linker \<Rightarrow> linker link" where
  "fixup_16seg mal ent built k lk =
     (case built of
        None \<Rightarrow>
          if segment_fixups_allowed lk then fixup_relocation mal ent 0 k lk else Inl (Returns (- 1))
      | Some (final_ofs, ptch, targ) \<Rightarrow>
          assertL (fits_segment 2 ptch k lk)
            (if \<not> segment_relative ent then Inl (Returns (- 1))
             else if segment_fixups_allowed lk
             then add16 k (unat ptch) (ucast (ls_segment_relative (seg targ lk))) lk
             else Inl (Returns (- 1))))"

definition fixup_16far ::
    "allocator \<Rightarrow> omf_fixupp_t \<Rightarrow> (u64 \<times> u64 \<times> nat) option \<Rightarrow> nat \<Rightarrow> linker \<Rightarrow> linker link" where
  "fixup_16far mal ent built k lk =
     (case built of
        None \<Rightarrow>
          if segment_fixups_allowed lk then fixup_relocation mal ent 2 k lk else Inl (Returns (- 1))
      | Some (final_ofs, ptch, targ) \<Rightarrow>
          assertL (fits_segment 4 ptch k lk)
            (if \<not> segment_relative ent then Inl (Returns (- 1))
             else if segment_fixups_allowed lk then
               bindL (add16 k (unat ptch) (ucast final_ofs) lk)
                 (add16 k (unat ptch + 2) (ucast (ls_segment_relative (seg targ lk))))
             else Inl (Returns (- 1))))"

definition fixup_by_location ::
    "allocator \<Rightarrow> omf_fixupp_t \<Rightarrow> (u64 \<times> u64 \<times> nat) option \<Rightarrow> nat \<Rightarrow> linker \<Rightarrow> linker link" where
  "fixup_by_location mal ent built k lk =
     (if location ent = 1 then
        (case built of None \<Rightarrow> Inr lk | Some (ofs, ptch, targ) \<Rightarrow> fixup_16ofs ent ofs ptch targ k lk)
      else if location ent = 2 then fixup_16seg mal ent built k lk
      else if location ent = 3 then fixup_16far mal ent built k lk
      else if location ent = 9 then
        (case built of None \<Rightarrow> Inr lk | Some (ofs, ptch, targ) \<Rightarrow> fixup_32ofs ent ofs ptch targ k lk)
      else Inl (Returns (- 1)))"

section \<open>All fixups of a module\<close>

definition apply_FIXUPP_one ::
    "allocator \<Rightarrow> omf_context_t \<Rightarrow> nat \<Rightarrow> nat \<Rightarrow> link_pass \<Rightarrow> omf_fixupp_t \<Rightarrow> linker \<Rightarrow> linker link" where
  "apply_FIXUPP_one mal ctx in_file in_module pass ent lk =
     (case pass of
        PASS_GATHER \<Rightarrow>
          bindL (fixup_segment ctx ent in_file in_module lk)
            (\<lambda>(k, lk). fixup_by_location mal ent None k lk)
      | PASS_BUILD \<Rightarrow>
          bindL (fixup_resolve ctx ent in_file in_module lk) (\<lambda>r.
            case r of
              None \<Rightarrow> Inr lk
            | Some (final_ofs, targ) \<Rightarrow>
                bindL (fixup_segment ctx ent in_file in_module lk) (\<lambda>(k, lk).
                bindL (fixup_ptch ent k lk) (\<lambda>ptch.
                  fixup_by_location mal ent (Some (final_ofs, ptch, targ)) k lk))))"

definition apply_FIXUPP_at ::
    "allocator \<Rightarrow> omf_context_t \<Rightarrow> nat \<Rightarrow> nat \<Rightarrow> link_pass \<Rightarrow> nat \<Rightarrow> linker \<Rightarrow> linker link" where
  "apply_FIXUPP_at mal ctx in_file in_module pass i lk =
     (case omf_fixupps_context_get_fixupp (FIXUPPs ctx) i of
        Inl _ \<Rightarrow> Inr lk
      | Inr ent \<Rightarrow>
          if alloc ent then apply_FIXUPP_one mal ctx in_file in_module pass ent lk else Inr lk)"

definition apply_FIXUPP ::
    "allocator \<Rightarrow> omf_context_t \<Rightarrow> nat \<Rightarrow> nat \<Rightarrow> nat \<Rightarrow> link_pass \<Rightarrow> linker \<Rightarrow> linker link" where
  "apply_FIXUPP mal ctx first in_file in_module pass =
     foldL (apply_FIXUPP_at mal ctx in_file in_module pass)
       [first..<omf_fixupps_context_get_highest_index (FIXUPPs ctx) + 1]"

end
