(* ===== verification/LinkLayout.thy ===== *)
theory LinkLayout
  imports LinkFixup LinkSort
begin

text \<open>
  The end of the gathering pass of \<^verbatim>\<open>lnkdos16.c\<close>: the stack grows to the wanted size, the
  segments are put in order, get their linear offsets, their segment bases, their place in the
  file and an empty image.
\<close>

section \<open>Output formats\<close>

definition exe_format :: "linker \<Rightarrow> bool" where
  "exe_format lk \<longleftrightarrow> lk_output_format lk = OFMT_EXE \<or> lk_output_format lk = OFMT_DOSDRVEXE"

definition flat_format :: "linker \<Rightarrow> bool" where
  "flat_format lk \<longleftrightarrow> lk_output_format lk = OFMT_COM \<or> lk_output_format lk = OFMT_DOSDRV"

text \<open>A flat image that relocates itself: it has relocations, and code to apply them.\<close>

definition comrel_needed :: "linker \<Rightarrow> bool" where
  "comrel_needed lk \<longleftrightarrow> flat_format lk \<and> lk_comrel lk \<and> rt_count (lk_relocs lk) > 0"

definition update_segments :: "(link_segdef list \<Rightarrow> link_segdef list) \<Rightarrow> linker \<Rightarrow> linker" where
  "update_segments f lk = lk\<lparr>lk_segments := f (lk_segments lk)\<rparr>"

section \<open>Stack, and segments that are not emitted\<close>

definition grow_stack :: "allocator \<Rightarrow> linker \<Rightarrow> linker link" where
  "grow_stack mal lk =
     (if exe_format lk then
        (case find_link_segment_by_class_last (bytes_of ''STACK'') lk of
           None \<Rightarrow> Inr lk
         | Some k \<Rightarrow>
             let sg = seg k lk; want = (ucast (lk_want_stack_size lk) :: u64) in
             assertL (ls_image sg = None)
               (if ls_segment_length sg < want then
                  bindL (alloc_link_segment_fragment mal sg) (\<lambda>(f, s).
                    someL (Returns 1) f (\<lambda>j.
                      Inr (upd_seg k (\<lambda>_. (set_fragment j (\<lambda>f. f\<lparr>fr_offset := ls_segment_length sg,
                         fr_segidx := of_nat (k + 1), fr_attr := ls_attr sg,
                         fr_length := want - ls_segment_length sg\<rparr>) s)\<lparr>ls_segment_length := want\<rparr>) lk)))
                else Inr lk))
      else Inr lk)"

definition mark_noemit :: "link_segdef \<Rightarrow> link_segdef" where
  "mark_noemit sg =
     (if has_class ''STACK'' sg \<or> has_class ''BSS'' sg then sg\<lparr>ls_noemit := True\<rparr> else sg)"

section \<open>The entry point\<close>

text \<open>What the code does with the fragment of the entry point, after its assertions.\<close>

definition entry_fragment :: "nat \<Rightarrow> linker \<Rightarrow> seg_fragment" where
  "entry_fragment k lk = fragment_at (lk_entry_target_fragment lk) (seg k lk)"

definition with_entry :: "nat \<Rightarrow> linker \<Rightarrow> (seg_fragment \<Rightarrow> 'a link) \<Rightarrow> 'a link" where
  "with_entry k lk f =
     assertL (ls_fragments (seg k lk) \<noteq> None \<and> lk_entry_target_fragment lk < ls_fragments_count (seg k lk))
       (f (entry_fragment k lk))"

definition check_entry_16bit :: "linker \<Rightarrow> linker link" where
  "check_entry_16bit lk =
     (if lk_output_format lk = OFMT_DOSDRV then Inr lk
      else case lk_entry_target lk of
          None \<Rightarrow> Inr lk
        | Some k \<Rightarrow> with_entry k lk (\<lambda>frag.
            if attr_use32 (fr_attr frag) then Inl (Returns 1) else Inr lk))"

section \<open>The segment of the COMREL code\<close>

definition comrel_entry_point :: "u8 list" where
  "comrel_entry_point =
     [0xFC, 0x8C, 0xCA, 0xB9, 0x00, 0x00, 0xBE, 0x00, 0x00, 0xAD, 0x89, 0xC3, 0x01, 0x17,
      0xE2, 0xF9, 0xE9, 0x00, 0x00]"

definition dosdrvrel_entry_point :: "u8 list" where
  "dosdrvrel_entry_point =
     [0xBF, 0x00, 0x00, 0xEB, 0x03, 0xBF, 0x00, 0x00, 0xFC, 0x8C, 0xCA, 0xB9, 0x00, 0x00,
      0xBE, 0x00, 0x00, 0x53, 0xAD, 0x89, 0xC3, 0x01, 0x17, 0xE2, 0xF9, 0x5B, 0xBE, 0x06, 0x00,
      0xC7, 0x04, 0x00, 0x00, 0xC7, 0x44, 0x02, 0x00, 0x00, 0xFF, 0xE7]"

definition comrel_stub :: "linker \<Rightarrow> u8 list" where
  "comrel_stub lk = (if lk_output_format lk = OFMT_DOSDRV then dosdrvrel_entry_point else comrel_entry_point)"

text \<open>A new fragment at the end of a segment, of a length that is filled in later.\<close>

definition append_fragment :: "allocator \<Rightarrow> nat \<Rightarrow> linker \<Rightarrow> (nat \<times> linker) link" where
  "append_fragment mal k lk =
     bindL (alloc_link_segment_fragment mal (seg k lk)) (\<lambda>(f, sg).
       someL (Returns 1) f (\<lambda>j.
         Inr (j, upd_seg k (\<lambda>_. set_fragment j (\<lambda>f. f\<lparr>fr_offset := ls_segment_length sg,
            fr_segidx := of_nat (k + 1), fr_attr := ls_attr sg\<rparr>) sg) lk)))"

definition grow_segment :: "nat \<Rightarrow> u64 \<Rightarrow> linker \<Rightarrow> linker" where
  "grow_segment k n = upd_seg k (\<lambda>sg. sg\<lparr>ls_segment_length := ls_segment_length sg + n\<rparr>)"

text \<open>The fragment \<open>j\<close> then reaches to the end of its segment.\<close>

definition close_fragment :: "nat \<Rightarrow> nat \<Rightarrow> linker \<Rightarrow> linker" where
  "close_fragment k j = upd_seg k (\<lambda>sg.
     set_fragment j (\<lambda>f. f\<lparr>fr_length := ls_segment_length sg - fr_offset f\<rparr>) sg)"

definition comrel_segment :: "linker \<Rightarrow> (nat \<times> linker) link" where
  "comrel_segment lk =
     (case find_link_segment (bytes_of ''__COMREL_RELOC'') lk of
        Some k \<Rightarrow> Inr (k, lk)
      | None \<Rightarrow> someL (Returns 1) (new_link_segment (bytes_of ''__COMREL_RELOC'') lk) (\<lambda>(k, lk).
          Inr (k, upd_seg k (\<lambda>s. s\<lparr>ls_initial_alignment := 1, ls_classname := Some (bytes_of ''CODE'')\<rparr>) lk)))"

definition make_comrel_room :: "allocator \<Rightarrow> linker \<Rightarrow> linker link" where
  "make_comrel_room mal lk =
     (if comrel_needed lk then
        bindL (comrel_segment lk) (\<lambda>(k, lk).
          if attr_use32 (ls_attr (seg k lk)) then Inl (Returns 1)
          else
            let tsg = find_link_segment (bytes_of ''__COMREL_RELOCTBL'') lk;
                table = of_nat (rt_count (lk_relocs lk) * 2); stub = of_nat (length (comrel_stub lk))
            in bindL (append_fragment mal k lk) (\<lambda>(j, lk).
                 case tsg of
                   None \<Rightarrow> Inr (close_fragment k j (grow_segment k stub (grow_segment k table lk)))
                 | Some t \<Rightarrow> bindL (append_fragment mal t lk) (\<lambda>(i, lk).
                     Inr (close_fragment t i (close_fragment k j
                       (grow_segment k stub (grow_segment t table lk)))))))
      else Inr lk)"

section \<open>Linear offsets\<close>

fun arrange_from :: "u64 \<Rightarrow> link_segdef list \<Rightarrow> link_segdef list link" where
  "arrange_from ofs [] = Inr []"
| "arrange_from ofs (sd # sds) =
     (let ofs = (if ls_initial_alignment sd \<noteq> 0 then align_up (ucast (ls_initial_alignment sd)) ofs else ofs) in
      if ls_segment_length sd > 0x10000 then Inl (Returns (- 1))
      else bindL (arrange_from (ofs + ls_segment_length sd) sds)
             (\<lambda>sds. Inr (sd\<lparr>ls_linear_offset := ofs\<rparr> # sds)))"

definition segment_def_arrange :: "linker \<Rightarrow> linker link" where
  "segment_def_arrange lk =
     bindL (arrange_from 0 (lk_segments lk)) (\<lambda>segs. Inr (lk\<lparr>lk_segments := segs\<rparr>))"

text \<open>\<^verbatim>\<open>main\<close> ends with status 1 when the arrangement fails.\<close>

definition or_return :: "int \<Rightarrow> 'a link \<Rightarrow> 'a link" where
  "or_return n r = (case r of Inl (Returns _) \<Rightarrow> Inl (Returns n) | _ \<Rightarrow> r)"

section \<open>The jump at the start of a .COM file\<close>

definition com_entry_name :: cstr where
  "com_entry_name = bytes_of ''__COM_ENTRY_JMP''"

text \<open>The size of the jump; \<open>None\<close> when none is needed.\<close>

definition com_entry_size :: "linker \<Rightarrow> nat option link" where
  "com_entry_size lk =
     (if lk_comrel lk then Inr (Some 3)
      else case lk_entry_target lk of
          None \<Rightarrow> Inr None
        | Some k \<Rightarrow> with_entry k lk (\<lambda>frag.
            let io = ls_linear_offset (seg k lk) + lk_entry_ofs lk + fr_offset frag in
            Inr (if io \<noteq> 0 then Some (if io \<ge> 0x82 then 3 else 2) else None)))"

definition set_com_entry_size :: "nat \<Rightarrow> nat option \<Rightarrow> linker \<Rightarrow> linker" where
  "set_com_entry_size k sz lk =
     (case sz of
        None \<Rightarrow> lk
      | Some n \<Rightarrow> (upd_seg k (\<lambda>sg. sg\<lparr>ls_segment_length := of_nat n\<rparr>) lk)\<lparr>lk_com_entry_insert := n\<rparr>)"

definition com_entry_symbol :: "allocator \<Rightarrow> nat \<Rightarrow> linker \<Rightarrow> linker link" where
  "com_entry_symbol mal j lk =
     bindL (new_link_symbol mal (bytes_of ''__COM_ENTRY_JMP_INS'') (lk_symbols lk)) (\<lambda>(s, t).
       someL (Returns 1) s (\<lambda>i.
         Inr (lk\<lparr>lk_symbols := set_slot i ((get_slot i t)\<lparr>sy_offset := 0, sy_fragment := of_nat j,
            sy_segdef := Some com_entry_name\<rparr>) t\<rparr>)))"

definition com_entry_room :: "allocator \<Rightarrow> linker \<Rightarrow> linker link" where
  "com_entry_room mal lk =
     (case find_link_segment com_entry_name lk of
        None \<Rightarrow> Inl Assert_failed
      | Some k \<Rightarrow> assertL (ls_segment_length (seg k lk) = 0)
          (bindL (com_entry_size lk) (\<lambda>n.
             let lk = set_com_entry_size k n lk in
             bindL (alloc_link_segment_fragment mal (seg k lk)) (\<lambda>(f, sg).
               someL (Returns 1) f (\<lambda>j.
                 let lk = upd_seg k (\<lambda>_. set_fragment j (\<lambda>f. f\<lparr>fr_offset := 0,
                        fr_length := ls_segment_length sg, fr_attr := ls_attr sg\<rparr>) sg) lk
                 in if ls_segment_length sg > 0 then com_entry_symbol mal j lk else Inr lk)))))"

definition insert_com_entry :: "allocator \<Rightarrow> linker \<Rightarrow> linker link" where
  "insert_com_entry mal lk =
     (if lk_output_format lk = OFMT_COM then
        bindL (com_entry_room mal lk) (\<lambda>lk. or_return 1 (segment_def_arrange lk))
      else Inr lk)"

section \<open>Segment bases\<close>

definition segrel_of :: "linker \<Rightarrow> link_segdef \<Rightarrow> u64" where
  "segrel_of lk sd =
     (let gd = (case ls_groupname sd of None \<Rightarrow> None | Some g \<Rightarrow> find_link_segment_by_grpdef g lk);
          cd = (case ls_classname sd of None \<Rightarrow> None | Some c \<Rightarrow> find_link_segment_by_class c lk);
          segrel = drop_bit 4 (ls_linear_offset
            (case gd of Some k \<Rightarrow> seg k lk | None \<Rightarrow> (case cd of Some k \<Rightarrow> seg k lk | None \<Rightarrow> sd)))
      in if lk_prefer_flat lk \<and> ls_linear_offset sd < 0xFFFF - ucast (lk_com_segbase lk) then 0 else segrel)"

definition exe_base :: "linker \<Rightarrow> link_segdef \<Rightarrow> link_segdef" where
  "exe_base lk sd =
     (let base = (ucast (lk_com_segbase lk) :: u64); segrel = segrel_of lk sd in
      sd\<lparr>ls_segment_base := base, ls_segment_relative := segrel - drop_bit 4 base,
         ls_segment_offset := base + ls_linear_offset sd - push_bit 4 segrel\<rparr>)"

definition flat_base :: "linker \<Rightarrow> link_segdef \<Rightarrow> link_segdef" where
  "flat_base lk sd =
     (let base = (ucast (lk_com_segbase lk) :: u64) in
      sd\<lparr>ls_segment_relative := 0, ls_segment_base := base,
         ls_segment_offset := base + ls_linear_offset sd\<rparr>)"

definition assign_bases :: "linker \<Rightarrow> linker link" where
  "assign_bases lk =
     (let segs = map (if exe_format lk then exe_base lk else flat_base lk) (lk_segments lk) in
      if \<exists>sd \<in> set segs. ls_segment_offset sd \<ge> 0xFFFF then Inl (Returns (- 1))
      else Inr (lk\<lparr>lk_segments := segs\<rparr>))"

section \<open>Places in the file, and images\<close>

text \<open>
  Only segments at the end can be left out of the file: everything up to the last emitted one
  is emitted.
\<close>

definition emitted_count :: "link_segdef list \<Rightarrow> nat" where
  "emitted_count segs = length (dropWhile ls_noemit (rev segs))"

definition place_in_file :: "u64 \<Rightarrow> link_segdef \<Rightarrow> link_segdef" where
  "place_in_file base sd = sd\<lparr>ls_noemit := False, ls_file_offset := ls_linear_offset sd + base\<rparr>"

definition decide_file_offsets :: "linker \<Rightarrow> linker link" where
  "decide_file_offsets lk =
     (let segs = lk_segments lk; n = emitted_count segs; base = (if exe_format lk then 32 else 0) in
      assertL (list_all ls_noemit (drop n segs))
        (Inr (lk\<lparr>lk_segments := map (place_in_file base) (take n segs) @ drop n segs\<rparr>)))"

definition alloc_image :: "allocator \<Rightarrow> link_segdef \<Rightarrow> link_segdef link" where
  "alloc_image mal sd =
     assertL (ls_image sd = None)
       (let sd0 = sd\<lparr>ls_segment_len_count := 0, ls_fragments_read := 0, ls_load_base := 0\<rparr> in
        if ls_segment_length sd \<noteq> 0 \<and> \<not> ls_noemit sd then
          (case mal (Req_bytes (unat (ls_segment_length sd))) of
             None \<Rightarrow> Inl Assert_failed
           | Some _ \<Rightarrow> Inr (sd0\<lparr>ls_image := Some (replicate (unat (ls_segment_length sd)) 0)\<rparr>))
        else Inr sd0)"

fun mapL :: "('a \<Rightarrow> 'b link) \<Rightarrow> 'a list \<Rightarrow> 'b list link" where
  "mapL f [] = Inr []"
| "mapL f (x # xs) = bindL (f x) (\<lambda>y. bindL (mapL f xs) (\<lambda>ys. Inr (y # ys)))"

definition alloc_images :: "allocator \<Rightarrow> linker \<Rightarrow> linker link" where
  "alloc_images mal lk =
     bindL (mapL (alloc_image mal) (lk_segments lk)) (\<lambda>segs. Inr (lk\<lparr>lk_segments := segs\<rparr>))"

section \<open>The layout\<close>

definition link_order :: "allocator \<Rightarrow> link_segdef qsort \<Rightarrow> linker \<Rightarrow> linker link" where
  "link_order mal qs lk =
     bindL (grow_stack mal lk) (\<lambda>lk.
     bindL (owlink_default_sort_seg qs lk) (\<lambda>lk.
     bindL (if lk_do_dosseg lk then owlink_dosseg_sort_order lk else Inr lk) (\<lambda>lk.
     check_entry_16bit (update_segments (map mark_noemit) lk))))"

definition link_layout :: "allocator \<Rightarrow> linker \<Rightarrow> linker link" where
  "link_layout mal lk =
     bindL (make_comrel_room mal lk) (\<lambda>lk.
     bindL (owlink_stack_bss_arrange lk) (\<lambda>lk.
     bindL (or_return 1 (segment_def_arrange lk)) (\<lambda>lk.
     bindL (insert_com_entry mal lk) (\<lambda>lk.
     bindL (assign_bases lk) (\<lambda>lk.
     bindL (decide_file_offsets lk) (alloc_images mal))))))"

end
