(* ===== verification/LinkComrel.thy ===== *)
theory LinkComrel
  imports LinkLayout
begin

text \<open>
  The relocation table and the start-up code of a relocatable flat image (\<^verbatim>\<open>COMREL\<close>), written
  into its segments at the end of the gathering pass of \<^verbatim>\<open>lnkdos16.c\<close>.
\<close>

section \<open>Where they stand\<close>

definition last_fragment :: "link_segdef \<Rightarrow> seg_fragment" where
  "last_fragment sg = fragment_at (ls_fragments_count sg - 1) sg"

text \<open>
  The offsets of the table and of the code: \<open>tsg\<close> is the segment of the table when it has one
  of its own, else the table comes before the code.
\<close>

definition comrel_offsets :: "nat \<Rightarrow> nat option \<Rightarrow> linker \<Rightarrow> (u64 \<times> u64) link" where
  "comrel_offsets k tsg lk =
     (let sg = seg k lk; frag = last_fragment sg; n = rt_count (lk_relocs lk) in
      bindL (case tsg of
          Some t \<Rightarrow>
            let ro = fr_offset (last_fragment (seg t lk)) in
            assertL (ro + fr_length (last_fragment (seg t lk)) \<le> ls_segment_length (seg t lk))
              (Inr (ro, fr_offset frag))
        | None \<Rightarrow>
            let ro = fr_offset frag in
            assertL (ro + fr_length frag \<le> ls_segment_length sg) (Inr (ro, ro + of_nat (n * 2))))
        (\<lambda>(ro, po). assertL (po + of_nat (length (comrel_stub lk)) \<le> ls_segment_length sg) (Inr (ro, po))))"

text \<open>A symbol of the linker's own; the result of \<^verbatim>\<open>new_link_symbol\<close> is not tested for NULL.\<close>

definition own_symbol :: "allocator \<Rightarrow> string \<Rightarrow> cstr \<Rightarrow> nat \<Rightarrow> u64 \<Rightarrow> linker \<Rightarrow> linker link" where
  "own_symbol mal name segdef fragment ofs lk =
     bindL (find_link_symbol (bytes_of name) (- 1) (- 1) (lk_symbols lk)) (\<lambda>found.
       if found \<noteq> None then Inl (Returns 1)
       else bindL (new_link_symbol mal (bytes_of name) (lk_symbols lk)) (\<lambda>(s, t).
         someL Undefined s (\<lambda>i.
           Inr (lk\<lparr>lk_symbols := set_slot i ((get_slot i t)\<lparr>sy_groupdef := Some (bytes_of ''DGROUP''),
              sy_segdef := Some segdef, sy_fragment := of_nat fragment, sy_offset := ofs\<rparr>) t\<rparr>))))"

definition comrel_symbols :: "allocator \<Rightarrow> nat \<Rightarrow> nat option \<Rightarrow> u64 \<Rightarrow> u64 \<Rightarrow> linker \<Rightarrow> linker link" where
  "comrel_symbols mal k tsg ro po lk =
     (let sg = seg k lk; reloc = bytes_of ''__COMREL_RELOC'' in
      bindL (case tsg of
          Some t \<Rightarrow> own_symbol mal ''__COMREL_RELOC_TABLE'' (bytes_of ''__COMREL_RELOCTBL'')
                      (ls_fragments_count (seg t lk) - 1) (ro - fr_offset (last_fragment (seg t lk))) lk
        | None \<Rightarrow> own_symbol mal ''__COMREL_RELOC_TABLE'' reloc
                    (ls_fragments_count sg - 1) (ro - fr_offset (last_fragment sg)) lk)
        (own_symbol mal ''__COMREL_RELOC_ENTRY'' reloc
           (ls_fragments_count sg - 1) (po - fr_offset (last_fragment sg))))"

section \<open>The table\<close>

text \<open>The linear address that a relocation stands for.\<close>

definition relocation_address :: "exe_relocation \<Rightarrow> linker \<Rightarrow> u64 link" where
  "relocation_address rel lk =
     someL (Returns 1) (find_link_segment (rl_segname rel) lk) (\<lambda>k.
       let lsg = seg k lk in
       assertL (ls_fragments lsg \<noteq> None \<and> ls_fragments_count lsg \<noteq> 0
           \<and> ls_fragments_count lsg \<le> ls_fragments_alloc lsg \<and> rl_fragment rel < ls_fragments_count lsg)
         (Inr (rl_offset rel + ls_linear_offset lsg + fr_offset (fragment_at (rl_fragment rel) lsg))))"

definition comrel_entry :: "nat \<Rightarrow> u64 \<Rightarrow> nat \<Rightarrow> linker \<Rightarrow> linker link" where
  "comrel_entry d ro i lk =
     bindL (relocation_address (entries_of (rt_entries (lk_relocs lk)) ! i) lk) (\<lambda>a.
       let roff = a + ucast (lk_com_segbase lk) in
       if roff \<ge> 0xFF00 - of_nat (rt_count (lk_relocs lk) * 2) then Inl (Returns 1)
       else put16 d (unat ro + 2 * i) (ucast roff) lk)"

text \<open>The test of the end of the table takes the length of the code segment in both cases.\<close>

definition comrel_table :: "nat \<Rightarrow> nat option \<Rightarrow> u64 \<Rightarrow> linker \<Rightarrow> linker link" where
  "comrel_table k tsg ro lk =
     (let d = (case tsg of Some t \<Rightarrow> t | None \<Rightarrow> k); n = rt_count (lk_relocs lk) in
      assertL (ls_image (seg k lk) \<noteq> None \<and> unat ro + 2 * n \<le> unat (ls_segment_length (seg k lk)))
        (foldL (comrel_entry d ro) [0..<n] lk))"

section \<open>The code\<close>

text \<open>The code with the number of relocations and the address of the table filled in.\<close>

definition comrel_put_stub :: "nat \<Rightarrow> nat option \<Rightarrow> u64 \<Rightarrow> u64 \<Rightarrow> nat \<Rightarrow> nat \<Rightarrow> linker \<Rightarrow> linker link" where
  "comrel_put_stub k tsg ro po cx si lk =
     (let stub = comrel_stub lk; n = rt_count (lk_relocs lk);
          table = ro + ls_segment_offset (seg (case tsg of Some t \<Rightarrow> t | None \<Rightarrow> k) lk)
      in assertL (unat po + length stub \<le> unat (ls_segment_length (seg k lk)))
           (bindL (poke k (unat po) (length stub) (\<lambda>_. stub) lk) (\<lambda>lk.
            bindL (put16 k (unat po + cx) (of_nat n) lk)
              (put16 k (unat po + si) (ucast table)))))"

definition comrel_driver :: "allocator \<Rightarrow> nat \<Rightarrow> nat option \<Rightarrow> u64 \<Rightarrow> u64 \<Rightarrow> linker \<Rightarrow> linker link" where
  "comrel_driver mal k tsg ro po lk =
     bindL (comrel_put_stub k tsg ro po 0x0C 0x0F lk) (\<lambda>lk.
       let sg = seg k lk; j = ls_fragments_count sg - 1; frag = last_fragment sg;
           reloc = bytes_of ''__COMREL_RELOC''
       in bindL (own_symbol mal ''__COMREL_RELOC_ENTRY_STRAT'' reloc j (po - fr_offset frag) lk)
            (own_symbol mal ''__COMREL_RELOC_ENTRY_INTR'' reloc j (po + 0x05 - fr_offset frag)))"

definition old_entry_ip :: "linker \<Rightarrow> u64 link" where
  "old_entry_ip lk =
     (case lk_entry_target lk of
        None \<Rightarrow> Inr 0x100
      | Some e \<Rightarrow> with_entry e lk (\<lambda>frag. Inr (lk_entry_ofs lk + ls_segment_offset (seg e lk) + fr_offset frag)))"

definition comrel_program :: "nat \<Rightarrow> nat option \<Rightarrow> u64 \<Rightarrow> u64 \<Rightarrow> linker \<Rightarrow> linker link" where
  "comrel_program k tsg ro po lk =
     bindL (old_entry_ip lk) (\<lambda>old_ip.
     let init_ip = po + ls_segment_offset (seg k lk) in
     bindL (comrel_put_stub k tsg ro po 0x04 0x07 lk) (\<lambda>lk.
     bindL (put16 k (unat po + 0x11) (ucast (old_ip - (init_ip + 0x11 + 2))) lk) (\<lambda>lk.
       let sg = seg k lk in
       Inr (lk\<lparr>lk_entry_target_fragment := ls_fragments_count sg - 1,
               lk_entry_target_name := Some (ls_name sg), lk_entry_target := Some k,
               lk_entry_ofs := po - fr_offset (last_fragment sg)\<rparr>))))"

definition build_comrel :: "allocator \<Rightarrow> linker \<Rightarrow> linker link" where
  "build_comrel mal lk =
     (if comrel_needed lk then
        someL (Returns 1) (find_link_segment (bytes_of ''__COMREL_RELOC'') lk) (\<lambda>k.
          let sg = seg k lk; tsg = find_link_segment (bytes_of ''__COMREL_RELOCTBL'') lk in
          if attr_use32 (ls_attr sg) then Inl (Returns 1)
          else assertL (ls_segment_relative sg = 0 \<and> ls_fragments sg \<noteq> None \<and> 0 < ls_fragments_count sg
              \<and> ls_fragments_count sg \<le> ls_fragments_alloc sg
              \<and> (case tsg of None \<Rightarrow> True
                 | Some t \<Rightarrow> ls_fragments (seg t lk) \<noteq> None \<and> 0 < ls_fragments_count (seg t lk)
                     \<and> ls_fragments_count (seg t lk) \<le> ls_fragments_alloc sg
                     \<and> ls_segment_relative (seg t lk) = 0))
            (bindL (comrel_offsets k tsg lk) (\<lambda>(ro, po).
             bindL (comrel_symbols mal k tsg ro po lk) (\<lambda>lk.
             bindL (comrel_table k tsg ro lk) (\<lambda>lk.
               if lk_output_format lk = OFMT_DOSDRV then comrel_driver mal k tsg ro po lk
               else comrel_program k tsg ro po lk)))))
      else Inr lk)"

text \<open>The end of the gathering pass.\<close>

definition finish_gather :: "allocator \<Rightarrow> link_segdef qsort \<Rightarrow> linker \<Rightarrow> linker link" where
  "finish_gather mal qs lk =
     bindL (link_order mal qs lk) (\<lambda>lk.
     bindL (link_layout mal lk) (build_comrel mal))"

end
