(* ===== verification/LinkOutput.thy ===== *)
theory LinkOutput
  imports LinkComrel
begin

text \<open>
  The output stage of \<^verbatim>\<open>lnkdos16.c\<close>: the jump at the start of a .COM file, the order of the
  symbols, the EXE header with its relocation table, the header of a device driver, and the
  images of the segments. It models a run without \<^verbatim>\<open>-map\<close>, \<^verbatim>\<open>-v\<close> and \<^verbatim>\<open>-hex\<close>.
\<close>

section \<open>The jump of a .COM file\<close>

definition put8 :: "nat \<Rightarrow> nat \<Rightarrow> u8 \<Rightarrow> linker \<Rightarrow> linker link" where
  "put8 k p v = poke k p 1 (\<lambda>_. [v])"

definition com_jump :: "nat \<Rightarrow> nat \<Rightarrow> u64 \<Rightarrow> linker \<Rightarrow> linker link" where
  "com_jump k n ofs lk =
     (if n = 3 then
        assertL (ofs \<le> 0xFFFF - 3)
          (bindL (put8 k 0 0xE9 lk) (put16 k 1 (ucast ofs - 3)))
      else if n = 2 then
        assertL (ofs \<le> 0x7F + 2)
          (bindL (put8 k 0 0xEB lk) (put8 k 1 (ucast ofs - 2)))
      else Inl Assert_failed)"

definition com_entry_jump :: "linker \<Rightarrow> linker link" where
  "com_entry_jump lk =
     (if lk_output_format lk = OFMT_COM then
        (case find_link_segment com_entry_name lk of
           None \<Rightarrow> Inl Assert_failed
         | Some k \<Rightarrow>
             (case lk_entry_target lk of
                None \<Rightarrow> Inr lk
              | Some e \<Rightarrow>
                  let sg = seg k lk; n = lk_com_entry_insert lk in
                  if n = 0 then Inr lk
                  else assertL (ls_image sg \<noteq> None \<and> unat (ls_segment_length sg) \<ge> n)
                    (if ls_segment_relative sg \<noteq> 0 \<or> ls_segment_base sg \<noteq> ucast (lk_com_segbase lk)
                        \<or> ls_segment_offset sg \<noteq> ls_segment_base sg then Inl (Returns 1)
                     else with_entry e lk (\<lambda>frag.
                       assertL (n < 4)
                         (com_jump k n (ls_linear_offset (seg e lk) + lk_entry_ofs lk + fr_offset frag) lk)))))
      else Inr lk)"

section \<open>The order of the symbols\<close>

definition symbol_placed :: "linker \<Rightarrow> link_symbol \<Rightarrow> bool" where
  "symbol_placed lk s \<longleftrightarrow>
     (case sy_segdef s of None \<Rightarrow> False | Some n \<Rightarrow>
       (case find_link_segment n lk of None \<Rightarrow> False | Some k \<Rightarrow>
          ls_fragments (seg k lk) \<noteq> None \<and> ls_fragments_count (seg k lk) \<le> ls_fragments_alloc (seg k lk)
          \<and> unat (sy_fragment s) < ls_fragments_count (seg k lk)))"

definition symbol_place :: "linker \<Rightarrow> link_symbol \<Rightarrow> u64 \<times> u64" where
  "symbol_place lk s =
     (let sg = seg (the (find_link_segment (the (sy_segdef s)) lk)) lk in
      (ls_segment_relative sg,
       ls_segment_offset sg + fr_offset (fragment_at (unat (sy_fragment s)) sg) + sy_offset s))"

definition link_symbol_qsort_cmp :: "linker \<Rightarrow> link_symbol \<Rightarrow> link_symbol \<Rightarrow> int" where
  "link_symbol_qsort_cmp lk sa sb =
     (let (ra, oa) = symbol_place lk sa; (rb, ob) = symbol_place lk sb in
      if ra < rb then - 1 else if rb < ra then 1
      else if oa < ob then - 1 else if ob < oa then 1 else 0)"

text \<open>
  The comparison asserts that the symbol can be placed; with two symbols or more it sees every
  one of them.
\<close>

definition sort_symbols :: "link_symbol qsort \<Rightarrow> linker \<Rightarrow> linker link" where
  "sort_symbols qs lk =
     (let t = lk_symbols lk; slots = entries_of (st_slots t); used = take (st_count t) slots in
      if length used < 2 then Inr lk
      else assertL (list_all (symbol_placed lk) used)
        (Inr (lk\<lparr>lk_symbols := t\<lparr>st_slots :=
           Some (qs (link_symbol_qsort_cmp lk) used @ drop (st_count t) slots)\<rparr>\<rparr>)))"

section \<open>The EXE header\<close>

text \<open>\<^verbatim>\<open>unsigned int\<close> sums are cut to 32 bits.\<close>

definition trunc32 :: "u64 \<Rightarrow> u64" where
  "trunc32 x = ucast (ucast x :: u32)"

text \<open>The offset of the relocation table and the size of the header, a multiple of 16.\<close>

definition old_header_size :: "linker \<Rightarrow> u64" where
  "old_header_size lk = (case lk_segments lk of [] \<Rightarrow> 0 | sd # _ \<Rightarrow> ls_file_offset sd)"

definition exe_header_size :: "linker \<Rightarrow> (u64 \<times> u64) link" where
  "exe_header_size lk =
     (let o_size = old_header_size lk; n = rt_count (lk_relocs lk) in
      assertL (n \<noteq> 0 \<longrightarrow> o_size \<ge> 0x20)
        (Inr (if n \<noteq> 0 then (o_size, align_up 16 (o_size + of_nat n * 4)) else (0, align_up 16 o_size))))"

definition move_segments :: "u64 \<Rightarrow> linker \<Rightarrow> linker" where
  "move_segments header lk =
     (let o_size = old_header_size lk in
      if o_size < header then
        update_segments (map (\<lambda>sd. if ls_segment_length sd = 0 then sd
          else sd\<lparr>ls_file_offset := ls_file_offset sd + (header - o_size)\<rparr>)) lk
      else lk)"

definition segments_end :: "u64 \<Rightarrow> link_segdef list \<Rightarrow> u64" where
  "segments_end header segs =
     fold (\<lambda>sd r. if ls_segment_length sd = 0 then r
        else max r (trunc32 (ls_linear_offset sd + ls_segment_length sd + header))) segs 0"

definition disk_end :: "link_segdef list \<Rightarrow> u64" where
  "disk_end segs =
     fold (\<lambda>sd r. if ls_segment_length sd = 0 \<or> ls_noemit sd then r
        else max r (trunc32 (ls_file_offset sd + ls_segment_length sd))) segs 0"

lemma unat_step_down: "unat (x - 0x100 :: u64) < unat x" if "0x100 \<le> x"
proof -
  have "unat (x - 0x100) = unat x - unat (0x100 :: u64)"
    using that by (rule unat_sub)
  moreover have "0 < unat x" using that by (simp add: word_le_nat_alt)
  ultimately show ?thesis by simp
qed

function stack_paragraphs :: "u64 \<Rightarrow> u64 \<Rightarrow> u64 \<times> u64" where
  "stack_paragraphs ss sp = (if sp > 0xFF00 then stack_paragraphs (ss + 0x10) (sp - 0x100) else (ss, sp))"
  by pat_completeness auto
termination
proof (relation "measure (\<lambda>(ss, sp). unat sp)", goal_cases)
  case (2 ss sp)
  then have "0x100 \<le> sp" by (simp add: word_le_nat_alt word_less_nat_alt)
  then show ?case by (simp add: unat_step_down)
qed simp

declare stack_paragraphs.simps [simp del]

definition exe_stack :: "u64 \<Rightarrow> linker \<Rightarrow> u64 \<times> u64" where
  "exe_stack resident lk =
     (case find_link_segment_by_class_last (bytes_of ''STACK'') lk of
        Some k \<Rightarrow> (ls_segment_relative (seg k lk),
                   ls_segment_offset (seg k lk) + ls_segment_length (seg k lk))
      | None \<Rightarrow> stack_paragraphs 0 (resident + ucast (lk_want_stack_size lk)))"

definition exe_resident :: "u64 \<Rightarrow> linker \<Rightarrow> u64" where
  "exe_resident header lk =
     (let r = segments_end header (lk_segments lk); (ss, sp) = exe_stack r lk in
      max r (push_bit 4 ss + sp + header))"

definition exe_entry :: "linker \<Rightarrow> (u64 \<times> u64) link" where
  "exe_entry lk =
     (case (lk_entry_target lk, lk_entry_frame lk) of
        (Some e, Some f) \<Rightarrow> with_entry e lk (\<lambda>frag.
          if ls_segment_base (seg e lk) \<noteq> ls_segment_base (seg f lk) then Inl (Returns 1)
          else Inr (ls_segment_relative (seg e lk),
                    lk_entry_ofs lk + ls_segment_offset (seg e lk) + fr_offset frag))
      | _ \<Rightarrow> Inr (0, 0))"

definition exe_header_bytes ::
    "u64 \<Rightarrow> u64 \<Rightarrow> u64 \<Rightarrow> u64 \<Rightarrow> u64 \<times> u64 \<Rightarrow> u64 \<times> u64 \<Rightarrow> nat \<Rightarrow> u8 list" where
  "exe_header_bytes header reloc resident disk = (\<lambda>(ss, sp) (cs, ip) n.
     let lastblock = disk mod 512; blocks = disk div 512 + (if lastblock \<noteq> 0 then 1 else 0) in
     bytes_of ''MZ'' @ bytes16 (ucast lastblock) @ bytes16 (ucast blocks) @ bytes16 (of_nat n)
     @ bytes16 (ucast (header div 16)) @ bytes16 (ucast ((resident + 15 - disk) div 16))
     @ bytes16 (ucast ((0xFFFF0 + 15) div 16 :: u64)) @ bytes16 (ucast ss) @ bytes16 (ucast sp)
     @ bytes16 0 @ bytes16 (ucast ip) @ bytes16 (ucast cs) @ bytes16 (ucast reloc)
     @ replicate 6 0)"

text \<open>The header is written at the start of the file; the outcome of \<^verbatim>\<open>write\<close> is not looked at.\<close>

definition write_at :: "u64 \<Rightarrow> u8 list \<Rightarrow> fd_t \<Rightarrow> fd_t" where
  "write_at ofs bs fd =
     (case fd_seek_set ofs fd of (False, fd) \<Rightarrow> fd | (True, fd) \<Rightarrow> snd (fd_write bs fd))"

function reloc_paragraphs :: "u64 \<Rightarrow> u64 \<Rightarrow> u64 \<times> u64" where
  "reloc_paragraphs rseg roff =
     (if roff \<ge> 0x4000 then reloc_paragraphs (rseg + 0x10) (roff - 0x100) else (rseg, roff))"
  by pat_completeness auto
termination
proof (relation "measure (\<lambda>(rseg, roff). unat roff)", goal_cases)
  case (2 rseg roff)
  then have "0x100 \<le> roff" by (simp add: word_le_nat_alt)
  then show ?case by (simp add: unat_step_down)
qed simp

declare reloc_paragraphs.simps [simp del]

definition write_relocation :: "linker \<Rightarrow> exe_relocation \<Rightarrow> fd_t \<Rightarrow> fd_t link" where
  "write_relocation lk rel fd =
     bindL (relocation_address rel lk) (\<lambda>a.
       let (rseg, roff) = reloc_paragraphs 0 a in
       Inr (snd (fd_write (bytes16 (ucast roff) @ bytes16 (ucast rseg)) fd)))"

definition write_relocations :: "linker \<Rightarrow> u64 \<Rightarrow> fd_t \<Rightarrow> fd_t link" where
  "write_relocations lk reloc fd =
     (if rt_count (lk_relocs lk) = 0 then Inr fd
      else case fd_seek_set reloc fd of
          (False, fd) \<Rightarrow> Inr fd
        | (True, fd) \<Rightarrow> foldL (write_relocation lk) (entries_of (rt_entries (lk_relocs lk))) fd)"

definition write_exe_header :: "linker \<Rightarrow> fd_t \<Rightarrow> (linker \<times> fd_t) link" where
  "write_exe_header lk fd =
     bindL (exe_header_size lk) (\<lambda>(reloc, header).
     let lk = move_segments header lk;
         disk = disk_end (lk_segments lk); resident = exe_resident header lk;
         stack = exe_stack (segments_end header (lk_segments lk)) lk
     in bindL (exe_entry lk) (\<lambda>entry.
          assertL (resident \<ge> disk \<and> header \<noteq> 0 \<and> header mod 16 = 0)
            (bindL (write_relocations lk reloc
               (write_at 0 (exe_header_bytes header reloc resident disk stack entry
                  (rt_count (lk_relocs lk))) fd))
             (\<lambda>fd. Inr (lk, fd)))))"

section \<open>The header of a device driver\<close>

text \<open>The segment and the fragment that a symbol found by name stands in.\<close>

definition symbol_fragment_ofs :: "nat \<Rightarrow> link_symbol \<Rightarrow> linker \<Rightarrow> u64 link" where
  "symbol_fragment_ofs k s lk =
     assertL (ls_fragments (seg k lk) \<noteq> None \<and> ls_fragments_count (seg k lk) \<le> ls_fragments_alloc (seg k lk)
         \<and> unat (sy_fragment s) < ls_fragments_count (seg k lk))
       (Inr (sy_offset s + fr_offset (fragment_at (unat (sy_fragment s)) (seg k lk))))"

definition dosdrv_header_segment :: "linker \<Rightarrow> nat link" where
  "dosdrv_header_segment lk =
     bindL (find_link_symbol (lk_dosdrv_header_symbol lk) (- 1) (- 1) (lk_symbols lk)) (\<lambda>found.
       someL (Returns 1) found (\<lambda>j.
         let s = get_slot j (lk_symbols lk) in
         someL Undefined (sy_segdef s) (\<lambda>n.
         someL (Returns 1) (find_link_segment n lk) (\<lambda>k.
         bindL (symbol_fragment_ofs k s lk) (\<lambda>ofs.
           if ofs \<noteq> 0 \<or> ls_linear_offset (seg k lk) \<noteq> 0 then Inl (Returns 1) else Inr k)))))"

text \<open>One of the two entry points: the old one goes to the code, the header gets the new one.\<close>

definition swap_driver_entry ::
    "nat \<Rightarrow> nat \<Rightarrow> u64 \<Rightarrow> nat \<Rightarrow> nat \<Rightarrow> nat \<Rightarrow> linker \<Rightarrow> linker link" where
  "swap_driver_entry h r rofs field orig entry lk =
     (let old = get16 (entries_of (ls_image (seg h lk))) field in
      bindL (put16 r (unat rofs + orig) old lk) (\<lambda>lk.
      bindL (put16 r (unat rofs + entry) old lk) (\<lambda>lk.
        put16 h field (ucast (rofs + ls_segment_offset (seg r lk) + of_nat entry - 1)) lk)))"

definition dosdrv_hook :: "nat \<Rightarrow> linker \<Rightarrow> linker link" where
  "dosdrv_hook h lk =
     bindL (find_link_symbol (bytes_of ''__COMREL_RELOC_ENTRY'') (- 1) (- 1) (lk_symbols lk)) (\<lambda>found.
       someL Assert_failed found (\<lambda>j.
         let s = get_slot j (lk_symbols lk) in
         someL Assert_failed (sy_segdef s) (\<lambda>n.
         someL Assert_failed (find_link_segment n lk) (\<lambda>r.
         bindL (symbol_fragment_ofs r s lk) (\<lambda>rofs.
           assertL (ls_image (seg r lk) \<noteq> None
               \<and> unat rofs + length dosdrvrel_entry_point \<le> unat (ls_segment_length (seg r lk))
               \<and> ls_image (seg h lk) \<noteq> None \<and> 10 \<le> unat (ls_segment_length (seg h lk)))
             (bindL (swap_driver_entry h r rofs 0x06 0x1F 0x01 lk)
                (swap_driver_entry h r rofs 0x08 0x24 0x06)))))))"

definition dosdrv_header :: "linker \<Rightarrow> linker link" where
  "dosdrv_header lk =
     (if lk_output_format lk = OFMT_DOSDRV \<or> lk_output_format lk = OFMT_DOSDRVEXE then
        bindL (dosdrv_header_segment lk) (\<lambda>h.
          if lk_output_format lk = OFMT_DOSDRV \<and> comrel_needed lk then dosdrv_hook h lk else Inr lk)
      else Inr lk)"

section \<open>The images\<close>

definition write_segment :: "link_segdef \<Rightarrow> fd_t \<Rightarrow> fd_t link" where
  "write_segment sd fd =
     (if ls_segment_length sd = 0 \<or> ls_noemit sd then Inr fd
      else case fd_seek_set (ls_file_offset sd) fd of
          (False, fd) \<Rightarrow> Inl (Returns 1)
        | (True, fd) \<Rightarrow>
            someL Assert_failed (ls_image sd) (\<lambda>img.
              case fd_write (take (unat (ls_segment_length sd)) img) fd of (n, fd) \<Rightarrow>
                if n \<noteq> unat (ls_segment_length sd) then Inl (Returns 1) else Inr fd))"

definition write_output :: "linker \<Rightarrow> fd_t \<Rightarrow> (linker \<times> fd_t) link" where
  "write_output lk fd =
     bindL (if exe_format lk then write_exe_header lk fd else Inr (lk, fd)) (\<lambda>(lk, fd).
     bindL (dosdrv_header lk) (\<lambda>lk.
     bindL (foldL write_segment (lk_segments lk) fd) (\<lambda>fd. Inr (lk, fd))))"

text \<open>The whole stage. \<open>None\<close> for the output file is a failing \<^verbatim>\<open>open\<close>.\<close>

definition link_output :: "link_symbol qsort \<Rightarrow> fd_t option \<Rightarrow> linker \<Rightarrow> (linker \<times> fd_t) link" where
  "link_output qs out lk =
     bindL (com_entry_jump lk) (\<lambda>lk.
     bindL (sort_symbols qs lk) (\<lambda>lk.
       someL (Returns 1) out (write_output lk)))"

definition free_linker :: "linker \<Rightarrow> linker" where
  "free_linker lk = (free_link_segments lk)\<lparr>lk_symbols := link_symbols_free (lk_symbols lk),
     lk_relocs := free_exe_relocations (lk_relocs lk),
     lk_entry_target_name := None, lk_entry_frame_name := None\<rparr>"

end
