(* ===== verification/LinkMain.thy ===== *)
theory LinkMain
  imports LinkOutput
begin

text \<open>
  \<^verbatim>\<open>main\<close> of \<^verbatim>\<open>lnkdos16.c\<close>: its arguments, the two passes over the input files with the
  dispatch of the records, and the whole link. It models a run without \<^verbatim>\<open>-map\<close>, \<^verbatim>\<open>-v\<close> and
  \<^verbatim>\<open>-hex\<close>: these only report.
\<close>

section \<open>Arguments\<close>

record link_args =
  la_in_file :: "cstr list"
  la_out_file :: "cstr option"
  la_map_file :: "cstr option"
  la_hex_output :: "cstr option"
  la_hex_cpp :: bool
  la_hex_split :: bool
  la_verbose :: bool
  la_want_stack_size :: u32
  la_com_segbase :: u16
  la_output_format :: output_format
  la_comrel :: bool
  la_prefer_flat :: bool
  la_do_dosseg :: bool
  la_dosdrv_header_symbol :: cstr

definition default_args :: link_args where
  "default_args = \<lparr>la_in_file = [], la_out_file = None, la_map_file = None, la_hex_output = None,
     la_hex_cpp = False, la_hex_split = False, la_verbose = False, la_want_stack_size = 4096,
     la_com_segbase = - 1, la_output_format = OFMT_COM, la_comrel = False, la_prefer_flat = False,
     la_do_dosseg = True, la_dosdrv_header_symbol = bytes_of ''_dosdrv_header''\<rparr>"

definition MAX_IN_FILES :: nat where "MAX_IN_FILES = 256"

text \<open>\<^verbatim>\<open>isxdigit\<close> and \<^verbatim>\<open>strtoul(a,NULL,16)\<close>, which takes an optional \<^verbatim>\<open>0x\<close> and saturates.\<close>

definition hex_digit :: "u8 \<Rightarrow> nat option" where
  "hex_digit c =
     (if 48 \<le> c \<and> c \<le> 57 then Some (unat c - 48)
      else if 97 \<le> c \<and> c \<le> 102 then Some (unat c - 87)
      else if 65 \<le> c \<and> c \<le> 70 then Some (unat c - 55) else None)"

fun hex_value :: "nat \<Rightarrow> cstr \<Rightarrow> nat" where
  "hex_value v [] = v"
| "hex_value v (c # cs) = (case hex_digit c of None \<Rightarrow> v | Some d \<Rightarrow> hex_value (16 * v + d) cs)"

fun skip_0x :: "cstr \<Rightarrow> cstr" where
  "skip_0x (a # b # c # cs) =
     (if a = 48 \<and> (b = 120 \<or> b = 88) \<and> hex_digit c \<noteq> None then c # cs else a # b # c # cs)"
| "skip_0x s = s"

definition strtoul16 :: "cstr \<Rightarrow> u64" where
  "strtoul16 s = of_nat (min (hex_value 0 (skip_0x s)) (2 ^ 64 - 1))"

definition starts_hex :: "cstr \<Rightarrow> bool" where
  "starts_hex s \<longleftrightarrow> (case s of [] \<Rightarrow> False | c # _ \<Rightarrow> hex_digit c \<noteq> None)"

definition set_format :: "cstr \<Rightarrow> link_args \<Rightarrow> nat + link_args" where
  "set_format a s =
     (if a = bytes_of ''com'' then Inr (s\<lparr>la_output_format := OFMT_COM\<rparr>)
      else if a = bytes_of ''comrel'' then Inr (s\<lparr>la_output_format := OFMT_COM, la_comrel := True\<rparr>)
      else if a = bytes_of ''exe'' then Inr (s\<lparr>la_output_format := OFMT_EXE\<rparr>)
      else if a = bytes_of ''dosdrv'' then Inr (s\<lparr>la_output_format := OFMT_DOSDRV\<rparr>)
      else if a = bytes_of ''dosdrvrel'' then Inr (s\<lparr>la_output_format := OFMT_DOSDRV, la_comrel := True\<rparr>)
      else if a = bytes_of ''dosdrvexe'' then Inr (s\<lparr>la_output_format := OFMT_DOSDRVEXE\<rparr>)
      else Inl 1)"

text \<open>An option that takes the next argument; a missing one ends the program with status 1.\<close>

definition option_value ::
    "cstr \<Rightarrow> cstr \<Rightarrow> link_args \<Rightarrow> (nat + link_args) option" where
  "option_value a f s =
     (if a = bytes_of ''i'' then
        Some (if length (la_in_file s) \<ge> MAX_IN_FILES then Inl 1
              else Inr (s\<lparr>la_in_file := la_in_file s @ [f]\<rparr>))
      else if a = bytes_of ''hsym'' then Some (Inr (s\<lparr>la_dosdrv_header_symbol := f\<rparr>))
      else if a = bytes_of ''hex'' then Some (Inr (s\<lparr>la_hex_output := Some f\<rparr>))
      else if a = bytes_of ''of'' then Some (set_format f s)
      else if a = bytes_of ''map'' then Some (Inr (s\<lparr>la_map_file := Some f\<rparr>))
      else if a = bytes_of ''o'' then Some (Inr (s\<lparr>la_out_file := Some f\<rparr>))
      else None)"

definition takes_value :: "cstr \<Rightarrow> bool" where
  "takes_value a \<longleftrightarrow> a \<in> bytes_of ` {''i'', ''hsym'', ''hex'', ''of'', ''map'', ''o''}"

definition option_flag :: "cstr \<Rightarrow> link_args \<Rightarrow> nat + link_args" where
  "option_flag a s =
     (if a = bytes_of ''pflat'' then Inr (s\<lparr>la_prefer_flat := True\<rparr>)
      else if take 5 a = bytes_of ''stack'' then
        (if starts_hex (drop 5 a) then Inr (s\<lparr>la_want_stack_size := ucast (strtoul16 (drop 5 a))\<rparr>) else Inl 1)
      else if take 3 a = bytes_of ''com'' then
        (if starts_hex (drop 3 a) then Inr (s\<lparr>la_com_segbase := ucast (strtoul16 (drop 3 a))\<rparr>) else Inl 1)
      else if a = bytes_of ''hexcpp'' then Inr (s\<lparr>la_hex_cpp := True\<rparr>)
      else if a = bytes_of ''hexsplit'' then Inr (s\<lparr>la_hex_split := True\<rparr>)
      else if a = bytes_of ''v'' then Inr (s\<lparr>la_verbose := True\<rparr>)
      else if a = bytes_of ''dosseg'' then Inr (s\<lparr>la_do_dosseg := True\<rparr>)
      else if a = bytes_of ''no-dosseg'' then Inr (s\<lparr>la_do_dosseg := False\<rparr>)
      else Inl 1)"

fun link_parse_args :: "cstr list \<Rightarrow> link_args \<Rightarrow> nat + link_args" where
  "link_parse_args [] s = Inr s"
| "link_parse_args (a # args) s =
     (if take 1 a = bytes_of ''-'' then
        let a = dropWhile (\<lambda>c. c = of_char CHR ''-'') a in
        if takes_value a then
          (case args of
             [] \<Rightarrow> Inl 1
           | f # args \<Rightarrow>
               (case option_value a f s of
                  None \<Rightarrow> Inl 1
                | Some (Inl n) \<Rightarrow> Inl n
                | Some (Inr s) \<Rightarrow> link_parse_args args s))
        else (case option_flag a s of Inl n \<Rightarrow> Inl n | Inr s \<Rightarrow> link_parse_args args s)
      else Inl 1)"

text \<open>The checks after the arguments, and the linker at the start.\<close>

definition default_segbase :: "link_args \<Rightarrow> u16" where
  "default_segbase s =
     (if la_com_segbase s = - 1 then (if la_output_format s = OFMT_COM then 0x100 else 0)
      else la_com_segbase s)"

definition start_linker :: "link_args \<Rightarrow> linker" where
  "start_linker s = \<lparr>lk_output_format = la_output_format s, lk_comrel = la_comrel s,
     lk_com_segbase = default_segbase s, lk_want_stack_size = la_want_stack_size s,
     lk_prefer_flat = la_prefer_flat s, lk_do_dosseg = la_do_dosseg s,
     lk_dosdrv_header_symbol = la_dosdrv_header_symbol s,
     lk_relocs = \<lparr>rt_entries = None, rt_alloc = 0\<rparr>,
     lk_symbols = \<lparr>st_slots = None, st_count = 0, st_nextalloc = 0\<rparr>,
     lk_segments = [], lk_current = None, lk_entry_target = None, lk_entry_target_name = None,
     lk_entry_target_fragment = 0, lk_entry_frame = None, lk_entry_frame_name = None,
     lk_entry_frame_fragment = 0, lk_entry_ofs = 0, lk_com_entry_insert = 0\<rparr>"

definition link_begin :: "link_args \<Rightarrow> linker link" where
  "link_begin s =
     (let lk = start_linker s in
      if la_in_file s = [] \<or> la_out_file s = None then Inl (Returns 1)
      else if lk_output_format lk = OFMT_COM then
        (if find_link_segment com_entry_name lk \<noteq> None then Inl (Returns 1)
         else someL (Returns 1) (new_link_segment com_entry_name lk) (\<lambda>(k, lk).
           Inr (upd_seg k (\<lambda>sg. sg\<lparr>ls_classname := Some (bytes_of ''CODE''),
              ls_initial_alignment := 1, ls_pinned := True\<rparr>) lk)))
      else Inr lk)"

section \<open>The records of a module\<close>

text \<open>A parser that fails ends the program with status 1.\<close>

definition parsed ::
    "(c_error + 'a) \<times> omf_context_t \<Rightarrow> (omf_context_t \<Rightarrow> linker link) \<Rightarrow> (omf_context_t \<times> linker) link" where
  "parsed = (\<lambda>(r, ctx) f. case r of
       Inl _ \<Rightarrow> Inl (Returns 1)
     | Inr _ \<Rightarrow> bindL (or_return 1 (f ctx)) (\<lambda>lk. Inr (ctx, lk)))"

text \<open>The entry point in a MODEND record, taken when frame and target are known segments.\<close>

definition set_entry_point :: "cstr \<Rightarrow> cstr \<Rightarrow> u64 \<Rightarrow> linker \<Rightarrow> linker link" where
  "set_entry_point framename targetname ofs lk =
     (if framename = [] \<or> targetname = [] then Inr lk
      else case (find_link_segment targetname lk, find_link_segment framename lk) of
          (Some t, Some f) \<Rightarrow>
            assertL (ls_fragments_count (seg f lk) \<noteq> 0 \<and> ls_fragments_count (seg t lk) \<noteq> 0)
              (Inr (lk\<lparr>lk_entry_target := Some t, lk_entry_target_name := Some targetname,
                 lk_entry_target_fragment := ls_fragments_count (seg t lk) - 1,
                 lk_entry_frame := Some f, lk_entry_frame_name := Some framename,
                 lk_entry_frame_fragment := ls_fragments_count (seg f lk) - 1,
                 lk_entry_ofs := ofs\<rparr>))
        | _ \<Rightarrow> Inr lk)"

definition modend_gather :: "omf_context_t \<Rightarrow> linker \<Rightarrow> (omf_context_t \<times> linker) link" where
  "modend_gather ctx lk =
     (let (module_type, rec) = omf_record_get_byte (ctx_record ctx) in
      if module_type AND 0x40 = 0 then Inr (ctx\<lparr>ctx_record := rec\<rparr>, lk)
      else
        let (end_data, rec) = omf_record_get_byte rec;
            (frame_datum, rec) = omf_record_get_index rec;
            (target_datum, rec) = omf_record_get_index rec;
            (displacement, rec) =
              (if rectype rec = 0x8B then omf_record_get_dword rec
               else let (w, rec) = omf_record_get_word rec in (ucast w, rec));
            ctx = ctx\<lparr>ctx_record := rec\<rparr>
        in (case (omf_segdefs_context_get_segdef (SEGDEFs ctx) (unat frame_datum),
                  omf_segdefs_context_get_segdef (SEGDEFs ctx) (unat target_datum)) of
              (Inr f, Inr t) \<Rightarrow>
                bindL (set_entry_point
                    (omf_lnames_context_get_name_safe (LNAMEs ctx) (unat (segment_name_index f)))
                    (omf_lnames_context_get_name_safe (LNAMEs ctx) (unat (segment_name_index t)))
                    displacement lk)
                  (\<lambda>lk. Inr (ctx, lk))
            | _ \<Rightarrow> Inr (ctx, lk)))"

definition ledata_record :: "link_pass \<Rightarrow> omf_context_t \<Rightarrow> linker \<Rightarrow> (omf_context_t \<times> linker) link" where
  "ledata_record pass ctx lk =
     (case omf_context_parse_LEDATA ctx \<lparr>segment_index = 0, enum_data_offset = 0, le_data = None\<rparr>
             (ctx_record ctx) of
        (r, ctx, info, rec) \<Rightarrow>
          parsed (r, ctx\<lparr>ctx_record := rec\<rparr>)
            (\<lambda>ctx. if pass = PASS_BUILD then ledata_add ctx info pass lk else Inr lk))"

definition link_record ::
    "allocator \<Rightarrow> link_pass \<Rightarrow> nat \<Rightarrow> nat \<Rightarrow> omf_context_t \<Rightarrow> linker \<Rightarrow> (omf_context_t \<times> linker) link" where
  "link_record mal pass in_file in_module ctx lk =
     (let ty = rectype (ctx_record ctx) in
      if ty \<in> {0x8C, 0xB4, 0xB5} then
        parsed (on_record (omf_context_parse_EXTDEF mal) ctx) (\<lambda>_. Inr lk)
      else if ty \<in> {0x90, 0x91, 0xB6, 0xB7} then
        let p_count = omf_PUBDEFS_count (PUBDEFs ctx) in
        parsed (on_record (omf_context_parse_PUBDEF mal) ctx)
          (\<lambda>ctx. if pass = PASS_GATHER then pubdef_add mal ctx p_count ty in_file in_module pass lk else Inr lk)
      else if ty = 0x96 then
        parsed (on_record (omf_context_parse_LNAMES mal) ctx) (\<lambda>_. Inr lk)
      else if ty \<in> {0x98, 0x99} then
        let p_count = omf_SEGDEFS_count (SEGDEFs ctx) in
        parsed (on_record (omf_context_parse_SEGDEF mal) ctx)
          (\<lambda>ctx. segdef_add mal ctx p_count in_file in_module pass lk)
      else if ty \<in> {0x9A, 0x9B} then
        let p_count = omf_GRPDEFS_count (GRPDEFs ctx) in
        parsed (on_record (omf_context_parse_GRPDEF mal) ctx)
          (\<lambda>ctx. if pass = PASS_GATHER then grpdef_add ctx p_count lk else Inr lk)
      else if ty \<in> {0x9C, 0x9D} then
        parsed (on_record (omf_context_parse_FIXUPP mal) ctx) (\<lambda>_. Inr lk)
      else if ty \<in> {0xA0, 0xA1} then ledata_record pass ctx lk
      else if ty \<in> {0x8A, 0x8B} then
        (if pass = PASS_GATHER then modend_gather ctx lk else Inr (ctx, lk))
      else Inr (ctx, lk))"

section \<open>The passes\<close>

text \<open>
  The end of a module: its fixups are applied, and after a MODEND the next module of a library
  is sought. \<open>None\<close> for the next module ends the file.
\<close>

definition free_fixups :: "omf_context_t \<Rightarrow> omf_context_t" where
  "free_fixups ctx = ctx\<lparr>FIXUPPs := omf_fixupps_context_free_entries (FIXUPPs ctx)\<rparr>"

definition module_end ::
    "allocator \<Rightarrow> link_pass \<Rightarrow> nat \<Rightarrow> nat \<Rightarrow> omf_context_t \<Rightarrow> linker \<Rightarrow> fd_t
     \<Rightarrow> (bool \<times> omf_context_t \<times> linker \<times> fd_t) link" where
  "module_end mal pass in_file in_module ctx lk fd =
     bindL (or_return 1 (apply_FIXUPP mal ctx 0 in_file in_module pass lk)) (\<lambda>lk.
       let ctx = free_fixups ctx in
       if omf_record_is_modend (ctx_record ctx) then
         (case omf_context_next_lib_module_fd ctx fd of
            (Inr True, ctx, fd) \<Rightarrow> Inr (True, omf_context_begin_module ctx, lk, fd)
          | (_, ctx, fd) \<Rightarrow> Inr (False, ctx, lk, fd))
       else Inr (False, ctx, lk, fd))"

lemma case_sum_mono [partial_function_mono]:
  assumes "\<And>x. monotone orda ordb (\<lambda>f. g f x)" and "\<And>y. monotone orda ordb (\<lambda>f. h f y)"
  shows "monotone orda ordb (\<lambda>f. case s of Inl x \<Rightarrow> g f x | Inr y \<Rightarrow> h f y)"
  by (cases s) (simp_all add: assms)

text \<open>The loop over the records of a file; it need not end by its form, so its value is an option.\<close>

partial_function (option) link_records ::
    "allocator \<Rightarrow> link_pass \<Rightarrow> nat \<Rightarrow> nat \<Rightarrow> omf_context_t \<Rightarrow> linker \<Rightarrow> fd_t
     \<Rightarrow> (nat \<times> omf_context_t \<times> linker) link option" where
  "link_records mal pass in_file in_module ctx lk fd =
     (case omf_context_read_fd mal ctx fd of
        (r, ctx1, fd1) \<Rightarrow>
          (case r of
             Inl _ \<Rightarrow> Some (Inr (in_module, ctx1, lk))
           | Inr got \<Rightarrow>
               if got then
                 (case link_record mal pass in_file in_module ctx1 lk of
                    Inl e \<Rightarrow> Some (Inl e)
                  | Inr (ctx2, lk2) \<Rightarrow> link_records mal pass in_file in_module ctx2 lk2 fd1)
               else
                 (case module_end mal pass in_file in_module ctx1 lk fd1 of
                    Inl e \<Rightarrow> Some (Inl e)
                  | Inr (again, ctx2, lk2, fd2) \<Rightarrow>
                      if again then link_records mal pass in_file (in_module + 1) ctx2 lk2 fd2
                      else Some (Inr (in_module, ctx2, lk2)))))"

text \<open>
  The surroundings of a run: memory, the two instances of \<^verbatim>\<open>qsort\<close>, the contents of a freshly
  allocated context and of the files.
\<close>

record link_env =
  en_malloc :: allocator
  en_fresh :: "omf_context_t option"
  en_qsort_segments :: "link_segdef qsort"
  en_qsort_symbols :: "link_symbol qsort"
  en_open :: "cstr \<Rightarrow> fd_t option"
  en_create :: "cstr \<Rightarrow> fd_t option"

definition link_file :: "link_env \<Rightarrow> link_pass \<Rightarrow> nat \<times> cstr \<Rightarrow> linker \<Rightarrow> linker link" where
  "link_file env pass = (\<lambda>(in_file, name) lk.
     someL (Returns 1) (en_open env name) (\<lambda>fd.
     someL (Returns 1) (omf_context_create (en_fresh env)) (\<lambda>ctx.
       let ctx = omf_context_begin_file (ctx\<lparr>flags_verbose := False\<rparr>) in
       someL Never_returns (link_records (en_malloc env) pass in_file 0 ctx lk fd) (\<lambda>r.
       bindL r (\<lambda>(in_module, ctx, lk).
         or_return 1 (apply_FIXUPP (en_malloc env) ctx 0 in_file in_module pass lk))))))"

definition link_files :: "link_env \<Rightarrow> link_pass \<Rightarrow> cstr list \<Rightarrow> linker \<Rightarrow> linker link" where
  "link_files env pass names = foldL (link_file env pass) (zip [0..<length names] names)"

definition link_main :: "link_env \<Rightarrow> link_args \<Rightarrow> (linker \<times> fd_t) link" where
  "link_main env s =
     bindL (link_begin s) (\<lambda>lk.
     bindL (link_files env PASS_GATHER (la_in_file s) lk) (\<lambda>lk.
     bindL (finish_gather (en_malloc env) (en_qsort_segments env) lk) (\<lambda>lk.
     bindL (link_files env PASS_BUILD (la_in_file s) lk) (\<lambda>lk.
     bindL (link_output (en_qsort_symbols env) (en_create env (the (la_out_file s))) lk) (\<lambda>(lk, fd).
       Inr (free_linker lk, fd))))))"

text \<open>The exit status of the program, and the file it leaves when it succeeds.\<close>

definition lnkdos16 :: "link_env \<Rightarrow> cstr list \<Rightarrow> link_stop \<times> fd_t option" where
  "lnkdos16 env args =
     (case link_parse_args args default_args of
        Inl n \<Rightarrow> (Returns (int n), None)
      | Inr s \<Rightarrow>
          (case link_main env s of
             Inl e \<Rightarrow> (e, None)
           | Inr (lk, fd) \<Rightarrow> (Returns 0, Some fd)))"

end
