(* ===== verification/Samples.thy ===== *)
theory Samples
  imports OmfFile OmfDecode OmfGenFixupp
begin

text \<open>
  Concrete values at which the properties are exercised: an initialised context with a record
  buffer, an empty file, and small records.
\<close>

definition sample_fixupps :: omf_fixupps_context_t where
  "sample_fixupps = \<lparr>frame_thread = replicate 4 omf_fixupps_clear_thread,
     target_thread = replicate 4 omf_fixupps_clear_thread, omf_FIXUPPS = None, omf_FIXUPPS_alloc = 32768\<rparr>"

definition sample_context :: "omf_record_t \<Rightarrow> omf_context_t" where
  "sample_context rec = \<lparr>last_error = None,
     LNAMEs = \<lparr>omf_LNAMES = None, omf_LNAMES_alloc = 32768\<rparr>,
     SEGDEFs = \<lparr>omf_SEGDEFS = None, omf_SEGDEFS_alloc = 32768\<rparr>,
     GRPDEFs = \<lparr>segdefs = None, segdefs_alloc = 32768, omf_GRPDEFS = None, omf_GRPDEFS_alloc = 32768\<rparr>,
     EXTDEFs = \<lparr>omf_EXTDEFS = None, omf_EXTDEFS_alloc = 32768\<rparr>,
     PUBDEFs = \<lparr>omf_PUBDEFS = None, omf_PUBDEFS_alloc = 32768\<rparr>,
     FIXUPPs = sample_fixupps, ctx_record = rec, library_block_size = 0,
     last_LEDATA_seg = 0, last_LEDATA_rec = 0, last_LEDATA_eno = 0, last_LEDATA_hdr = 0,
     THEADR = None, flags_verbose = False\<rparr>"

text \<open>A record of 32 bytes whose contents are \<open>bs\<close>, rewound.\<close>

definition sample_record :: "u8 \<Rightarrow> u8 list \<Rightarrow> omf_record_t" where
  "sample_record ty bs = \<lparr>rectype = ty, reclen = of_nat (length bs), recpos = 0,
     data = Some (bs @ replicate (32 - length bs) 0), data_alloc = 32, rec_file_offset = 0\<rparr>"

definition sample_file :: "u8 list \<Rightarrow> fd_t" where
  "sample_file bs = \<lparr>fd_bytes = bs, fd_pos = 0, fd_bad = (\<lambda>_. False), fd_limit = 1000000\<rparr>"

lemma sample_record_remaining:
  assumes "length bs \<le> 32"
  shows "wf_record (sample_record ty bs)" "remaining (sample_record ty bs) = bs"
    "rectype (sample_record ty bs) = ty"
proof -
  have "unat (of_nat (length bs) :: u16) = length bs"
    using assms by (simp add: unat_of_nat)
  with assms show "wf_record (sample_record ty bs)" "remaining (sample_record ty bs) = bs"
    by (auto simp: sample_record_def wf_record_def remaining_def)
qed (simp add: sample_record_def)

lemma wf_sample_context: "wf_context (sample_context rec)"
  by (simp add: wf_context_def sample_context_def sample_fixupps_def table_count_defs wf_grpdefs_def
      segdefs_count_def)

lemma can_read_sample: "length bs \<le> 32 \<Longrightarrow> can_read (sample_context (sample_record 0 bs))"
  by (simp add: can_read_def sample_context_def sample_record_def)

end
