(* ===== verification/Spec2Isabelle.thy ===== *)
theory Spec2Isabelle
  imports SegDgFacts OmfParseFacts LinkStateFacts LinkSortFacts LinkMain Samples
begin

text \<open>
  A verification development for the object file tools of DOSLIB: the OMF library
  \<^verbatim>\<open>src/fmt/omf\<close>, the object file patcher \<^verbatim>\<open>src/fmt/omf/omfsegdg.c\<close> on top of it, and the DOS
  linker \<^verbatim>\<open>src/tool/linker/lnkdos16.c\<close>, which makes .COM files, EXE files and DOS device
  drivers from OMF object files and libraries.

  \<^bold>\<open>The program.\<close> An object file is a sequence of records: a type byte, a 16-bit length, the
  contents and a checksum byte. The library reads a record into the buffer of a context
  (\<^verbatim>\<open>omfctxrf.c\<close>), parses it into the tables of the context (names, segments, groups, external
  and public names, fixups), moves on to the next module of a library (\<^verbatim>\<open>omfctxlf.c\<close>), and can
  write records back (\<^verbatim>\<open>omfrecw.c\<close>, \<^verbatim>\<open>omfctxwf.c\<close>, \<^verbatim>\<open>owfixupp.c\<close>). \<^verbatim>\<open>omfsegdg\<close> copies an object
  file, replacing instructions that load the segment of DGROUP by copies of CS and taking their
  fixups out of use. \<^verbatim>\<open>lnkdos16\<close> goes through all input files twice. The gathering pass makes the
  segments with one fragment per SEGDEF, the symbols and the relocations; then the segments
  are ordered, laid out and given images; the building pass fills the images from the LEDATA
  records and applies the fixups; at last the output file is written.

  \<^bold>\<open>The theories\<close>, from the library up:
  \<^item> \<open>OmfPrelude\<close> (with \<^verbatim>\<open>omfcstr.c\<close>): machine integers of the LP64 build, C strings, error values,
    the allocator, little-endian bytes and generic lemmas on words and lists, shared by all.
  \<^item> \<open>OmfRecord\<close> (\<^verbatim>\<open>omfrec.c\<close>, \<^verbatim>\<open>omfrecw.c\<close>): \<^verbatim>\<open>omf_record_t\<close> with its readers and writers;
    \<open>wf_record\<close>, \<open>remaining\<close> and \<open>adv\<close> are the abstract view of a reader as a list of bytes.
    \<open>OmfReaders\<close> states the contract of a reader as the locale \<open>omf_reader\<close> and its extension
    with progress, interpreted on the readers. \<open>OmfWriter\<close>: \<open>wf_writer\<close>, \<open>written\<close>, \<open>room\<close> and
    \<open>emit\<close> are the abstract view of a writer, which appends or fails and writes nothing.
  \<^item> \<open>OmfTables\<close> (\<^verbatim>\<open>olnames.c\<close>, \<^verbatim>\<open>osegdefs.c\<close>, \<^verbatim>\<open>ogrpdefs.c\<close>, \<^verbatim>\<open>oextdefs.c\<close>, \<^verbatim>\<open>opubdefs.c\<close>,
    \<^verbatim>\<open>ofixupps.c\<close>): the tables, with the locale \<open>omf_table\<close> of an indexed table and its
    interpretations. \<open>OmfGroups\<close>: the groups tile the shared array of their members.
  \<^item> \<open>OmfContext\<close> (\<^verbatim>\<open>omfctx.c\<close>, \<^verbatim>\<open>omfctxnm.c\<close>), \<open>OmfFile\<close> (\<^verbatim>\<open>omfctxrf.c\<close>, \<^verbatim>\<open>omfctxlf.c\<close>,
    \<^verbatim>\<open>omfctxwf.c\<close>): the context, and records in files. A file \<open>fd_t\<close> is its bytes, a position, a
    limit of its size and the places at which \<^verbatim>\<open>read\<close> fails.
  \<^item> \<open>OmfParse\<close> (\<^verbatim>\<open>op*.c\<close>, \<^verbatim>\<open>omledata.c\<close>): the record parsers, their loops as interpretations of
    the locale \<open>parse_loop\<close>. \<open>OmfParseFacts\<close>: on any bytes they keep the tables well-formed.
    \<open>OmfDecode\<close>: on the encoding of definitions they append exactly these. \<open>OmfGenFixupp\<close> (\<^verbatim>\<open>owfixupp.c\<close>): the
    generator of FIXUPP records is inverted by the parser.
  \<^item> \<open>SegDg\<close> (\<^verbatim>\<open>omfsegdg.c\<close>): the patcher. \<open>SegDgFacts\<close>: a patch stays within its instruction and
    the patched record is sealed again.
  \<^item> \<open>LinkState\<close>: \<^verbatim>\<open>exe_relocation\<close>, \<^verbatim>\<open>link_symbol\<close>, \<^verbatim>\<open>link_segdef\<close>, \<^verbatim>\<open>seg_fragment\<close> and the global
    state of \<^verbatim>\<open>lnkdos16.c\<close> as one record \<open>linker\<close>. \<open>LinkStateFacts\<close>: the symbol table as an
    append-only list, on which a request for a slot never returns once it is full.
  \<^item> \<open>LinkSort\<close>: \<^verbatim>\<open>link_segments_sort\<close> and the three arrangements. \<open>LinkSortFacts\<close>: which orders
    they produce.
  \<^item> \<open>LinkGather\<close>: \<^verbatim>\<open>segdef_add\<close>, \<^verbatim>\<open>grpdef_add\<close>, \<^verbatim>\<open>pubdef_add\<close>, \<^verbatim>\<open>ledata_add\<close>. \<open>LinkFixup\<close>:
    \<^verbatim>\<open>fixupp_get\<close>, \<^verbatim>\<open>apply_FIXUPP\<close>. \<open>LinkLayout\<close>: the stage between the passes in \<^verbatim>\<open>main\<close>.
    \<open>LinkComrel\<close>: the relocation table and start-up code of self-relocating images. \<open>LinkOutput\<close>:
    the output stage. \<open>LinkMain\<close>: arguments, dispatch of records, the passes and the whole
    program \<open>lnkdos16\<close>. These six theories hold definitions.
  \<^item> \<open>Samples\<close>: concrete values at which the properties are exercised.

  \<^bold>\<open>Conventions.\<close> A C struct is a record with the source's field names, with a prefix where
  several structs share one (\<^verbatim>\<open>ls_\<close> of \<^verbatim>\<open>link_segdef\<close>, \<^verbatim>\<open>fr_\<close> of \<^verbatim>\<open>seg_fragment\<close>, \<^verbatim>\<open>sy_\<close> of \<^verbatim>\<open>link_symbol\<close>).
  Integers that wrap are words of their C width; \<^verbatim>\<open>unsigned int\<close> counters bounded by a table
  size are \<^verbatim>\<open>nat\<close>. A pointer that may be NULL is an option; a pointer into a table is an
  index. Errors of the library are \<open>Inl\<close> of an errno value, where \<open>UNDEF\<close> stands for undefined
  behaviour of C. Stages of the linker return \<open>link_stop + 'a\<close>: \<open>Returns n\<close> for a nonzero
  return, \<open>Assert_failed\<close> for a failed \<^verbatim>\<open>assert\<close>, \<open>Undefined\<close> for undefined behaviour, and
  \<open>Never_returns\<close> for a loop that does not end.

  \<^bold>\<open>Parameters.\<close> \<^verbatim>\<open>malloc\<close> is a function from requests to an optional block, so every
  allocation may fail and fresh memory holds anything; a property that needs memory says
  \<open>malloc_never_fails\<close>. \<^verbatim>\<open>qsort\<close> is a function from a comparison and a list to a list; \<open>qsort_ok\<close>
  says what the C standard promises, and \<open>insertion_qsort\<close> meets it. \<open>link_env\<close> holds the surroundings of a run of the linker:
  memory, the contents of a freshly allocated context, and the files.

  \<^bold>\<open>Loops.\<close> Loops over a table or a record are recursive functions or folds; those that read
  a record decrease the bytes that are left, which is proved from the contract of the readers.
  Two loops need not end by their form and are \<^verbatim>\<open>partial_function (option)\<close>, where \<open>None\<close> is a run
  for ever: the search of a free symbol slot (\<^verbatim>\<open>link_symbol_empty_slot\<close>), which does run for ever
  on a full table, and the loop over the records of a file. No fuel is used.

  \<^bold>\<open>What the properties show.\<close> Written records are read back (C1), indices behind any earlier
  contents included (C8); damaged records are refused (C2); reading leaves a well-formed buffer,
  whatever the file holds (C3). Generated FIXUPP records are parsed back (C4), and the parsers of
  LNAMES, EXTDEF and PUBDEF records append what the record encodes (C5, C6, C7). No member of a
  group is read outside the group (C9). The facts on the patcher, the symbol table and the
  orders of the segments are lemmas of their theories.

  \<^bold>\<open>Not modelled.\<close> Texts on stdout and stderr: the dump functions (\<^verbatim>\<open>od*.c\<close>, \<^verbatim>\<open>omfdump.c\<close>, the
  \<^verbatim>\<open>*t.c\<close> tables of texts, \<^verbatim>\<open>my_dumpstate\<close>), the map file, the verbose messages and the
  hexadecimal dump of \<^verbatim>\<open>lnkdos16.c\<close>: they report on a state and change nothing in it. Offsets of
  files beyond the 64 bits of \<^verbatim>\<open>off_t\<close>. The other programs of the repository: drivers of hardware
  (\<^verbatim>\<open>src/hw\<close>, port input and output, interrupts, inline assembly), games and Windows programs on
  top of them, the remaining tools, and the vendored libraries of \<^verbatim>\<open>src/ext\<close>.
\<close>

section \<open>Properties\<close>

text \<open>
  C1: A record whose checksum was updated and that is written at the end of a file is read
  back from there: same type, same contents without the checksum, and the file position just
  past it. The type is neither 0, which ends the reading of a file, nor 0xF0 (LIBHEAD), which
  the reader accepts once only and takes the block size of a library from; the record has room
  for the checksum in its buffer and its length; the file has room for the record and reading
  it does not fail; the reader has a buffer of at least 16 bytes that is large enough, and the
  record it read last is neither the end of a library nor the end of a module.
\<close>

theorem write_then_read:
  assumes "data rec = Some d" and "unat (reclen rec) < length d" and "unat (reclen rec) + 1 < 65536"
    and "rectype rec \<noteq> 0" and "rectype rec \<noteq> 0xF0"
    and "fd_pos fd = length (fd_bytes fd)" and "fd_pos fd + 4 + unat (reclen rec) \<le> fd_limit fd"
    and "\<forall>p. \<not> fd_bad fd p"
    and "can_read ctx" and "unat (reclen rec) + 1 \<le> data_alloc (ctx_record ctx)"
  shows "\<exists>fd1 ctx' fd2.
      omf_context_record_write_fd fd (omf_record_write_update_checksum rec) = (Inr (), fd1)
    \<and> omf_context_read_fd mal ctx (fd1\<lparr>fd_pos := fd_pos fd\<rparr>) = (Inr True, ctx', fd2)
    \<and> rectype (ctx_record ctx') = rectype rec
    \<and> remaining (ctx_record ctx') = take (unat (reclen rec)) d
    \<and> fd_pos fd2 = length (fd_bytes fd1)"
proof -
  let ?rec = "omf_record_write_update_checksum rec"
  obtain d' where d': "data ?rec = Some d'" "length d' = length d" "take (unat (reclen rec)) d' = take (unat (reclen rec)) d"
    using update_checksum_contents [OF assms(1)] assms(1)
    by (simp add: omf_record_write_update_checksum_def Let_def)
  define c where "c = take (unat (reclen rec) + 1) d'"
  have c: "record_bytes ?rec = frame (rectype rec) c" "length c = unat (reclen rec) + 1"
      "butlast c = take (unat (reclen rec)) d" "c \<noteq> []"
    using record_bytes_frame [OF d'(1)] d' assms(2) by (auto simp: c_def butlast_take)
  have w: "omf_context_record_write_fd fd ?rec = (Inr (), fd\<lparr>fd_bytes := fd_bytes fd @ frame (rectype rec) c,
      fd_pos := fd_pos fd + 4 + unat (reclen rec)\<rparr>)" (is "_ = (_, ?fd1)")
    using record_write_append [OF d'(1)] d'(2) assms c(1) by simp
  have "omf_context_read_fd mal ctx (?fd1\<lparr>fd_pos := fd_pos fd\<rparr>) =
      (Inr True, after_read (rectype rec) c (fd_pos fd) ctx, ?fd1\<lparr>fd_pos := fd_pos fd + 3 + length c\<rparr>)"
    using update_checksum_sum [OF assms(1,2)] c assms
    by (subst read_fd_frame [of ctx _ "rectype rec" c "[]"]) auto
  moreover have "rectype (ctx_record (after_read (rectype rec) c (fd_pos fd) ctx)) = rectype rec"
      "remaining (ctx_record (after_read (rectype rec) c (fd_pos fd) ctx)) = take (unat (reclen rec)) d"
    using after_read_record [OF assms(9) c(4), of "rectype rec" "fd_pos fd"] c assms by auto
  moreover have "fd_pos fd + 3 + length c = length (fd_bytes fd @ frame (rectype rec) c)"
    using assms(6) by (simp add: frame_def)
  ultimately show ?thesis using w by (intro exI) auto
qed

lemma write_then_read_witness:
  "\<exists>fd1 ctx' fd2.
      omf_context_record_write_fd (sample_file [])
        (omf_record_write_update_checksum (sample_record 0x96 [3, 65, 66, 67])) = (Inr (), fd1)
    \<and> omf_context_read_fd zero_malloc (sample_context (sample_record 0 [])) (fd1\<lparr>fd_pos := 0\<rparr>)
        = (Inr True, ctx', fd2)
    \<and> rectype (ctx_record ctx') = 0x96 \<and> remaining (ctx_record ctx') = [3, 65, 66, 67]
    \<and> fd_pos fd2 = length (fd_bytes fd1)"
  using write_then_read [of "sample_record 0x96 [3, 65, 66, 67]" "[3, 65, 66, 67] @ replicate 28 0"
      "sample_file []" "sample_context (sample_record 0 [])" zero_malloc]
  by (simp add: sample_record_def sample_file_def can_read_def sample_context_def)

text \<open>
  C2: A record in a file whose bytes do not sum to 0 modulo 256, and whose checksum byte is
  not the 0 that switches the check off, is never accepted: reading it ends in an error. The
  type of the record is not 0, which ends the reading of a file before any check; the
  reads of its header and its contents do not fail, and its contents are not empty; the reader
  has its buffer of at least 16 bytes allocated, and the record it read last is neither the end
  of a library nor the end of a module.
\<close>

theorem corrupt_record_refused:
  assumes "can_read ctx" and "drop (fd_pos fd) (fd_bytes fd) = frame ty contents @ rest"
    and "\<not> fd_bad fd (fd_pos fd)" and "\<not> fd_bad fd (fd_pos fd + 3)" and "ty \<noteq> 0"
    and "contents \<noteq> []" and "length contents < 65536"
    and "last contents \<noteq> 0" and "sum_list (frame ty contents) \<noteq> 0"
  shows "\<exists>e. fst (omf_context_read_fd mal ctx fd) = Inl e"
  using assms by (rule read_fd_bad_sum)

lemma corrupt_record_refused_witness:
  "\<exists>e. fst (omf_context_read_fd zero_malloc (sample_context (sample_record 0 []))
     (sample_file [0x96, 2, 0, 5, 7])) = Inl e"
  by (rule corrupt_record_refused [where ty = "0x96" and contents = "[5, 7]" and rest = "[]"])
    (simp_all add: can_read_sample sample_file_def frame_def bytes16_def)

text \<open>
  C3: Whatever bytes a file holds, a record that was read leaves a well-formed buffer (no
  later access can leave it) with the read position at its start, and the file position moved
  forward by at least four bytes and not past the end of the file.
\<close>

theorem read_record_well_formed:
  assumes "omf_context_read_fd mal ctx fd = (Inr True, ctx', fd')" and "malloc_ok mal"
    and "\<And>d. data (ctx_record ctx) = Some d \<Longrightarrow> length d = data_alloc (ctx_record ctx)"
  shows "wf_record (ctx_record ctx') \<and> recpos (ctx_record ctx') = 0
    \<and> fd_pos fd + 3 < fd_pos fd' \<and> fd_pos fd' \<le> length (fd_bytes fd)"
  using assms by (rule read_fd_True_wf)

lemma read_record_well_formed_witness:
  "\<exists>ctx' fd'. omf_context_read_fd zero_malloc (sample_context (sample_record 0 []))
      (sample_file [0x96, 2, 0, 5, 0]) = (Inr True, ctx', fd') \<and> wf_record (ctx_record ctx')"
proof -
  let ?c = "sample_context (sample_record 0 [])" and ?f = "sample_file [0x96, 2, 0, 5, 0]"
  have r: "omf_context_read_fd zero_malloc ?c ?f = (Inr True, after_read 0x96 [5, 0] (fd_pos ?f) ?c,
      ?f\<lparr>fd_pos := fd_pos ?f + 3 + length [5 :: u8, 0]\<rparr>)"
    by (rule read_fd_frame [where rest = "[]"])
      (simp_all add: can_read_sample sample_file_def frame_def bytes16_def,
       simp add: sample_context_def sample_record_def)
  have "wf_record (ctx_record (after_read 0x96 [5, 0] (fd_pos ?f) ?c))"
    using read_record_well_formed [OF r] by (simp add: sample_context_def sample_record_def)
  with r show ?thesis by blast
qed

text \<open>
  C4: A FIXUPP record generated from the fixups of a context, rewound and parsed, yields
  exactly the fixups that were in use, in their order and with every field, when each of them
  can be expressed in the record. Four fields of a fixup are not in the record but tell the
  LEDATA record it applies to (its segment, and its place in the file): the parser takes them
  from the LEDATA state of its context, so that state is to be the one of the fixups. The
  record has room for the fixups, and the table of the parsing context does, too.
\<close>

theorem fixupps_generated_and_parsed:
  assumes "can_generate rec is32 ctx"
    and "\<forall>fx \<in> set (allocated (FIXUPPs ctx)). canonical_fixupp ctx' is32 fx" and "malloc_never_fails mal"
    and "omf_FIXUPPS_count (FIXUPPs ctx') + length (allocated (FIXUPPs ctx)) \<le> omf_FIXUPPS_alloc (FIXUPPs ctx')"
  shows "\<exists>ctx2 rec2. omf_context_parse_FIXUPP mal ctx'
      ((omf_context_generate_FIXUPP rec ctx is32)\<lparr>recpos := 0\<rparr>)
      = (Inr (omf_FIXUPPS_count (FIXUPPs ctx') + 1), ctx2, rec2)
    \<and> entries_of (omf_FIXUPPS (FIXUPPs ctx2))
      = entries_of (omf_FIXUPPS (FIXUPPs ctx')) @ allocated (FIXUPPs ctx)"
  using parse_FIXUPP_decodes [OF generate_rewound(1,2) [OF assms(1)] assms(2,3,4) generate_rewound(3) [OF assms(1)]]
  by (simp add: omf_context_parse_FIXUPP_def omf_fixupps_context_get_next_add_index_def
      fold_fixupp_upd_entries)

lemma fixupps_generated_and_parsed_witness:
  "\<exists>ctx2 rec2. omf_context_parse_FIXUPP zero_malloc (sample_context (sample_record 0 []))
      ((omf_context_generate_FIXUPP (sample_record 0 [])
         ((sample_context (sample_record 0 []))\<lparr>FIXUPPs := sample_fixupps\<lparr>omf_FIXUPPS :=
            Some [zero_fixupp\<lparr>alloc := True, location := 2, data_record_offset := 5\<rparr>]\<rparr>\<rparr>) False)\<lparr>recpos := 0\<rparr>)
      = (Inr 1, ctx2, rec2)
    \<and> entries_of (omf_FIXUPPS (FIXUPPs ctx2))
      = [zero_fixupp\<lparr>alloc := True, location := 2, data_record_offset := 5\<rparr>]"
  using fixupps_generated_and_parsed [of "sample_record 0 []" False "(sample_context (sample_record 0 []))
      \<lparr>FIXUPPs := sample_fixupps\<lparr>omf_FIXUPPS := Some [zero_fixupp\<lparr>alloc := True, location := 2,
        data_record_offset := 5\<rparr>]\<rparr>\<rparr>" "sample_context (sample_record 0 [])" zero_malloc]
  by (simp add: can_generate_def sample_record_def sample_context_def sample_fixupps_def allocated_def
      enc_fixupp_def bytes_index_def enc_disp_def canonical_fixupp_def zero_fixupp_def omf_FIXUPPS_count_def)

text \<open>
  C5: An LNAMES record appends its names to the table in their order, each cut at its first
  NUL, and returns the index of the first of them.
\<close>

theorem lnames_decoded:
  assumes "malloc_never_fails mal" and "wf_record rec"
    and "remaining rec = concat (map lenstr ns)" and "\<forall>s \<in> set ns. length s < 256"
    and "omf_LNAMES_count (LNAMEs ctx) + length ns \<le> omf_LNAMES_alloc (LNAMEs ctx)"
  shows "\<exists>ctx' rec'. omf_context_parse_LNAMES mal ctx rec = (Inr (omf_LNAMES_count (LNAMEs ctx) + 1), ctx', rec')
    \<and> entries_of (omf_LNAMES (LNAMEs ctx')) = entries_of (omf_LNAMES (LNAMEs ctx)) @ map (Some \<circ> c_string) ns"
  using parse_LNAMES_decodes [OF assms]
  by (simp add: omf_context_parse_LNAMES_def omf_lnames_context_get_next_add_index_def fold_names_upd)

lemma lnames_decoded_witness:
  "\<exists>ctx' rec'. omf_context_parse_LNAMES zero_malloc (sample_context (sample_record 0 []))
      (sample_record 0x96 [2, 65, 66, 1, 67]) = (Inr 1, ctx', rec')
    \<and> entries_of (omf_LNAMES (LNAMEs ctx')) = [Some [65, 66], Some [67]]"
  using lnames_decoded [of zero_malloc "sample_record 0x96 [2, 65, 66, 1, 67]" "[[65, 66], [67]]"
      "sample_context (sample_record 0 [])"]
  by (simp add: sample_record_remaining lenstr_def sample_context_def omf_LNAMES_count_def c_string_def)

text \<open>
  C6: An EXTDEF record appends its external names with their type indices, local ones for
  LEXTDEF records and global ones otherwise, and returns the index of the first.
\<close>

theorem extdefs_decoded:
  assumes "malloc_never_fails mal" and "wf_record rec" and "remaining rec = concat (map enc_extdef xs)"
    and "\<forall>x \<in> set xs. length (fst x) < 256 \<and> snd x < 0x8000"
    and "omf_EXTDEFS_count (EXTDEFs ctx) + length xs \<le> omf_EXTDEFS_alloc (EXTDEFs ctx)"
  shows "\<exists>ctx' rec'. omf_context_parse_EXTDEF mal ctx rec = (Inr (omf_EXTDEFS_count (EXTDEFs ctx) + 1), ctx', rec')
    \<and> entries_of (omf_EXTDEFS (EXTDEFs ctx')) = entries_of (omf_EXTDEFS (EXTDEFs ctx))
        @ map (extdef_of (if rectype rec AND 0xFE = 0xB4 then LOCAL else GLOBAL)) xs"
  using parse_EXTDEF_decodes [OF assms]
  by (simp add: omf_context_parse_EXTDEF_def Let_def omf_extdefs_context_get_next_add_index_def fold_extdef_upd)

lemma extdefs_decoded_witness:
  "\<exists>ctx' rec'. omf_context_parse_EXTDEF zero_malloc (sample_context (sample_record 0 []))
      (sample_record 0x8C [2, 65, 66, 9]) = (Inr 1, ctx', rec')
    \<and> entries_of (omf_EXTDEFS (EXTDEFs ctx'))
      = [\<lparr>ed_name_string = Some [65, 66], ed_type_index = 9, ed_type = GLOBAL\<rparr>]"
  using extdefs_decoded [of zero_malloc "sample_record 0x8C [2, 65, 66, 9]" "[([65, 66], 9)]"
      "sample_context (sample_record 0 [])"]
  by (simp add: sample_record_remaining enc_extdef_def bytes_index_def lenstr_def sample_context_def
      omf_EXTDEFS_count_def extdef_of_def c_string_def)

text \<open>
  C7: A PUBDEF record for a segment appends its public names with the group and segment of the
  record, offsets of the width of the record type, and the scope of the record type.
\<close>

theorem pubdefs_decoded:
  assumes "malloc_never_fails mal" and "wf_record rec"
    and "remaining rec = bytes_index gi @ bytes_index si @ concat (map (enc_pubdef is32) xs)"
    and "gi < 0x8000" and "si < 0x8000" and "si \<noteq> 0" and "\<forall>x \<in> set xs. enc_pubdef_ok is32 x"
    and "is32 \<longleftrightarrow> rectype rec AND 1 \<noteq> 0"
    and "omf_PUBDEFS_count (PUBDEFs ctx) + length xs \<le> omf_PUBDEFS_alloc (PUBDEFs ctx)"
  shows "\<exists>ctx' rec'. omf_context_parse_PUBDEF mal ctx rec = (Inr (omf_PUBDEFS_count (PUBDEFs ctx) + 1), ctx', rec')
    \<and> entries_of (omf_PUBDEFS (PUBDEFs ctx')) = entries_of (omf_PUBDEFS (PUBDEFs ctx))
        @ map (pubdef_of (if rectype rec AND 0xFE = 0xB6 then LOCAL else GLOBAL) (ucast gi) (ucast si)) xs"
proof -
  note c1 = consume [OF assms(2,3)]
  note c2 = consume [OF c1]
  have g: "omf_record_get_index rec = (ucast gi, adv (length (bytes_index gi)) rec)"
    by (rule get_index_bytes_index [OF assms(2,3,4)])
  have s: "omf_record_get_index (adv (length (bytes_index gi)) rec)
      = (ucast si, adv (length (bytes_index si)) (adv (length (bytes_index gi)) rec))"
    by (rule get_index_bytes_index [OF c1 assms(5)])
  have "\<not> omf_record_eof rec" using assms(2,3) by (simp add: eof_iff_remaining)
  moreover have "(ucast si :: u32) \<noteq> 0" using assms(6) by (simp add: ucast_16_32_eq_0)
  ultimately show ?thesis
    using parse_PUBDEF_decodes [OF assms(1) c2 assms(7,9), of _ "ucast gi" "ucast si"] assms(8)
    by (simp add: omf_context_parse_PUBDEF_def Let_def g s omf_pubdefs_context_get_next_add_index_def
        fold_pubdef_upd del: adv_adv)
qed

lemma pubdefs_decoded_witness:
  "\<exists>ctx' rec'. omf_context_parse_PUBDEF zero_malloc (sample_context (sample_record 0 []))
      (sample_record 0x90 [0, 2, 1, 65, 0x34, 0x12, 0]) = (Inr 1, ctx', rec')
    \<and> entries_of (omf_PUBDEFS (PUBDEFs ctx')) = [pubdef_of GLOBAL 0 2 ([65], 0x1234, 0)]"
  using pubdefs_decoded [of zero_malloc "sample_record 0x90 [0, 2, 1, 65, 0x34, 0x12, 0]" 0 2 False
      "[([65], 0x1234, 0)]" "sample_context (sample_record 0 [])"]
  by (simp add: sample_record_remaining enc_pubdef_def bytes_index_def bytes_offset_def bytes16_def
      lenstr_def sample_context_def omf_PUBDEFS_count_def enc_pubdef_ok_def fits_offset_def)

text \<open>
  C8: An index below 0x8000 that write_index appends to a record, behind whatever was written
  to the record before, with room for two bytes besides the checksum, leaves these contents
  as they were; with the length of the record updated and the position set back to where the
  index was written, get_index reads the same number and ends at the end of the record. It
  holds for the one-byte and the two-byte form.
\<close>

theorem index_roundtrip:
  assumes "wf_writer rec" and "2 \<le> room rec" and "c < 0x8000"
  shows "\<exists>rec'. omf_record_write_index rec c = (Inr (), rec')
    \<and> take (unat (recpos rec)) (the (data rec')) = take (unat (recpos rec)) (the (data rec))
    \<and> omf_record_get_index ((omf_record_write_update_reclen rec')\<lparr>recpos := recpos rec\<rparr>)
        = (ucast c, omf_record_write_update_reclen rec')"
proof -
  let ?r = "emit (bytes_index c) rec"
  let ?s = "(omf_record_write_update_reclen ?r)\<lparr>recpos := recpos rec\<rparr>"
  have len: "length (bytes_index c) \<le> room rec"
    using length_bytes_index [of c] assms(2) by auto
  note wr = written_emit [OF assms(1) len, unfolded written_def]
  obtain d where d: "data ?r = Some d" "length d = data_alloc rec" "unat (recpos ?r) \<le> length d"
    using wf_writer_emit [OF assms(1) len] by (auto simp: wf_writer_def split: option.splits)
  have p: "unat (recpos rec) \<le> length (the (data rec))"
    using assms(1) by (auto simp: wf_writer_def split: option.splits)
  have "wf_record ?s" "remaining ?s = bytes_index c @ []"
    using d p wr unat_recpos_emit [OF assms(1) len]
    by (auto simp: wf_record_def remaining_def omf_record_write_update_reclen_def word_le_nat_alt)
  from get_index_bytes_index [OF this assms(3)]
  have "omf_record_get_index ?s = (ucast c, omf_record_write_update_reclen ?r)"
    by (simp add: adv_def omf_record_write_update_reclen_def emit_def)
  moreover have "take (unat (recpos rec)) (the (data ?r)) = take (unat (recpos rec)) (the (data rec))"
    using arg_cong [OF wr, of "take (unat (recpos rec))"] unat_recpos_emit [OF assms(1) len] p by simp
  ultimately show ?thesis
    using write_index_emit [OF assms(1), of c] assms(2) by simp
qed

lemma index_roundtrip_witness:
  "\<exists>rec'. omf_record_write_index ((sample_record 0x98 [65, 66, 67])\<lparr>recpos := 3\<rparr>) 0x1234 = (Inr (), rec')
    \<and> take 3 (the (data rec')) = [65, 66, 67]
    \<and> omf_record_get_index ((omf_record_write_update_reclen rec')\<lparr>recpos := 3\<rparr>)
        = (0x1234, omf_record_write_update_reclen rec')"
  using index_roundtrip [of "(sample_record 0x98 [65, 66, 67])\<lparr>recpos := 3\<rparr>" "0x1234"]
  by (simp add: sample_record_def wf_writer_def room_def)

text \<open>
  C9: Under the invariant of the group table, asking a group for its i-th member gives exactly
  its i-th member for every i below its count and a range error for every other i, so that the
  off-by-one bound on the shared array is never reached.
\<close>

theorem group_member_in_range:
  assumes "wf_grpdefs ctx" and "g \<in> set (entries_of (omf_GRPDEFS ctx))"
  shows "omf_grpdefs_context_get_grpdef_segdef ctx g i =
    (if i < gd_count g then Inr (group_members ctx g ! i) else Inl ERANGE)"
  using assms by (rule get_grpdef_segdef_eq)

lemma group_member_in_range_witness:
  "omf_grpdefs_context_get_grpdef_segdef
     \<lparr>segdefs = Some [3, 4], segdefs_alloc = 8,
      omf_GRPDEFS = Some [\<lparr>group_name_index = 1, gd_index = 0, gd_count = 2\<rparr>], omf_GRPDEFS_alloc = 8\<rparr>
     \<lparr>group_name_index = 1, gd_index = 0, gd_count = 2\<rparr> 1 = Inr 4"
  by (subst group_member_in_range) (simp_all add: wf_grpdefs_def segdefs_count_def group_members_def)

end
